(* ===== verification/DataModel.thy ===== *)
theory DataModel
  imports Prelude
begin

text \<open>
  The data of the program, in the order of the sources: the JSON and Arrow values the catalog
  handles, the error enums (\<open>catalog/error.rs\<close>, \<open>storage/error.rs\<close>), the row structs
  (\<open>catalog/schema.rs\<close>) and the public model types (\<open>catalog/models.rs\<close>). A struct is a
  record whose fields carry a short prefix (record fields are global names), an enum is a
  datatype with the source's constructors. An error message built by \<open>format!\<close> is a
  constructor of a message type that carries the arguments of the format string.
\<close>

text \<open>A UUID is a 128-bit value. Postgres and SQLite compare the 16-byte blobs bytewise, which
  is the unsigned order of the value (shown in theory \<open>Uuid\<close>).\<close>

type_synonym uuid = "128 word"
type_synonym txn_id = uuid
type_synonym timestamp = int

section \<open>JSON values\<close>

text \<open>\<open>serde_json::Value\<close>. A number is an unsigned integer, a negative integer or a float
  (kept as its text); an object is a \<open>BTreeMap\<close>, here its entries in iteration order.\<close>

datatype (plugins only: code size) json_number = PosInt "64 word" | NegInt int | JFloat string

datatype (plugins only: code size) json =
    JNull
  | JBool bool
  | JNumber json_number
  | JString string
  | JArray "json list"
  | JObject "(string \<times> json) list"

type_synonym json_map = "(string \<times> json) list"

fun is_object :: "json \<Rightarrow> bool" where
  "is_object (JObject m) = True"
| "is_object _ = False"

fun as_object :: "json \<Rightarrow> json_map option" where
  "as_object (JObject m) = Some m"
| "as_object _ = None"

fun as_str :: "json \<Rightarrow> string option" where
  "as_str (JString s) = Some s"
| "as_str _ = None"

fun as_bool :: "json \<Rightarrow> bool option" where
  "as_bool (JBool b) = Some b"
| "as_bool _ = None"

fun as_u64 :: "json \<Rightarrow> 64 word option" where
  "as_u64 (JNumber (PosInt n)) = Some n"
| "as_u64 _ = None"

section \<open>Arrow types\<close>

text \<open>\<open>arrow::datatypes::DataType\<close> with the variants the sources name; every other variant of
  the enum is an \<open>OtherType\<close> with an identifying text. A \<open>Field\<close> is a name, a type and a
  nullability flag; an Arrow schema is the list of its fields.\<close>

datatype (plugins only: code size) time_unit = Second | Millisecond | Microsecond | Nanosecond

datatype (plugins only: code size) data_type =
    Boolean
  | Int8 | Int16 | Int32 | Int64
  | UInt8 | UInt16 | UInt32 | UInt64
  | Float32 | Float64
  | Timestamp time_unit "string option"
  | Date32 | Date64
  | Time32 time_unit | Time64 time_unit | Duration time_unit
  | Binary | FixedSizeBinary i32 | LargeBinary
  | Utf8 | LargeUtf8
  | ListType field | FixedSizeList field i32 | LargeList field
  | Struct "field list"
  | Decimal128 u8 "8 word" | Decimal256 u8 "8 word"
  | OtherType string
and field = Field (field_name: string) (field_type: data_type) (field_nullable: bool)

type_synonym arrow_schema = "field list"

section \<open>Storage formats and storage errors\<close>

datatype (plugins only: code size) Format = Parquet | Lance | Vortex

datatype (plugins only: code size) storage_msg =
    UnsupportedFileFormat string
  | FileFormatNotSupported string
  | MustBeInteger string
  | MustBeString string
  | MustBeBool string
  | OptionsNotObject
  | UnsupportedOption string string
  | UnsupportedCompression string
  | UnsupportedBloomFilterPosition string
  | UnsupportedWriteMode string
  | ExternalMsg string
  | OptionsMismatchReader
  | OptionsMismatchWriter
  | StreamEmpty
  | SchemaMismatch arrow_schema arrow_schema
  | PathNotUtf8

datatype (plugins only: code size) storage_error =
    IoError storage_msg
  | StorageArrow string
  | StorageParquet string
  | StorageLance string
  | StorageVortex string
  | InvalidInput storage_msg
  | StorageNotYetImplemented storage_msg
  | Unsupported storage_msg

section \<open>Catalog errors\<close>

datatype (plugins only: code size) sqlx_error =
    PrimaryKeyViolation string
  | UniqueViolation string
  | ForeignKeyViolation string
  | RowNotFound
  | ColumnDecode string

datatype (plugins only: code size) not_found_msg =
    TableName string string
  | NoSchemaAt string string txn_id

datatype (plugins only: code size) conflict_msg =
    TableAlreadyExists string string
  | BaseMismatch txn_id txn_id

datatype (plugins only: code size) limit_msg =
    JsonSize nat u32
  | SchemaColumnLimit nat u32
  | MutationOpLimit nat u32
  | AppendLimit nat u32
  | DeleteLimit nat u32
  | RemoveKeyLimit nat u32
  | TableCount u32
  | ColumnCount u32
  | FileCount u32
  | TransactionScan u32
  | AddedFileEvents u32
  | RemovedFileEvents u32
  | SchemaChangeEvents u32
  | SchemaChangeColumns u32

datatype (plugins only: code size) spec_msg =
    InvalidUuid nat
  | InvalidJson string
  | PropertiesNotObject
  | PropertyKeyEmpty
  | SchemaNoColumns
  | ColumnNameEmpty
  | DuplicateColumnName string
  | FilePathEmpty
  | RecordCountNegative
  | FileSizeNegative
  | PartitionValuesNotObject
  | FormatOptionsNotObject
  | FormatOptionsInvalid storage_error
  | MultipleUpdateSchema
  | MultipleSetProperties
  | DuplicateFileUuid uuid
  | DuplicatePropertyKey string
  | EncodedNoFields
  | EncodedFieldCount nat

datatype (plugins only: code size) state_msg =
    MutationEmpty
  | NoCurrentTransaction
  | RequestedTxnMissing
  | ChainCycle
  | ChainBroken
  | NotInHistory
  | NotAncestor
  | MissingRemovedTxn
  | MultipleSchemas
  | NoCurrentSchema
  | CannotDropColumn string
  | InvalidTypeEvolution string data_type data_type
  | InvalidNullEvolution string

record table_ident =
  ti_namespace :: string
  ti_name :: string

datatype (plugins only: code size) catalog_error =
    NotFound not_found_msg
  | Conflict conflict_msg
  | LimitExceeded limit_msg
  | InvalidArgument "spec_msg + state_msg"
  | ProtocolVersionIncompatible string table_ident i32 i32
  | NotYetImplemented string
  | Storage sqlx_error
  | Arrow string

text \<open>\<open>InvalidArgument\<close> is raised for a malformed argument (the left messages) and for a request
  that the state of the table refuses (the right ones).\<close>

abbreviation InvalidSpec :: "spec_msg \<Rightarrow> catalog_error" where
  "InvalidSpec m \<equiv> InvalidArgument (Inl m)"

abbreviation InvalidState :: "state_msg \<Rightarrow> catalog_error" where
  "InvalidState m \<equiv> InvalidArgument (Inr m)"

section \<open>Row structs (schema.rs)\<close>

record table_struct =
  tb_table_uuid :: uuid
  tb_table_name :: string
  tb_namespace :: string
  tb_location :: string
  tb_current_schema_uuid :: "uuid option"
  tb_current_transaction_id :: "uuid option"
  tb_created_at :: timestamp
  tb_properties :: json
  tb_min_reader_version :: i32
  tb_min_writer_version :: i32

record transaction_struct =
  tx_transaction_id :: uuid
  tx_table_uuid :: uuid
  tx_transaction_timestamp :: timestamp
  tx_parent_transaction_id :: "uuid option"

record column_struct =
  co_column_uuid :: uuid
  co_schema_uuid :: uuid
  co_column_name :: string
  co_column_type :: data_type
  co_ordinal_position :: i32
  co_is_nullable :: bool

record schema_struct =
  sc_schema_uuid :: uuid
  sc_table_uuid :: uuid
  sc_schema_version :: i32
  sc_valid_from_transaction_id :: uuid
  sc_valid_to_transaction_id :: "uuid option"
  sc_created_at :: timestamp
  sc_columns :: "column_struct list"

record file_struct =
  fi_file_uuid :: uuid
  fi_table_uuid :: uuid
  fi_file_format :: string
  fi_file_path :: string
  fi_record_count :: i64
  fi_file_size_bytes :: i64
  fi_added_in_transaction_id :: uuid
  fi_removed_in_transaction_id :: "uuid option"
  fi_partition_values :: "json option"
  fi_format_options :: "json option"

record table_stats_struct =
  st_table_uuid :: uuid
  st_transaction_id :: uuid
  st_record_count :: i64
  st_file_size_bytes :: i64
  st_file_count :: i32
  st_last_updated :: timestamp

record file_column_stats_struct =
  fc_file_uuid :: uuid
  fc_column_name :: string
  fc_null_count :: i64
  fc_nan_count :: i64
  fc_min_value :: "bytes option"
  fc_max_value :: "bytes option"
  fc_distinct_count :: "i64 option"

section \<open>Public model types (models.rs)\<close>

record table_properties =
  tp_values :: json_map

datatype (plugins only: code size) property_key = PropertyKey string

record table_view =
  tv_ident :: table_ident
  tv_table_uuid :: uuid
  tv_transaction_id :: txn_id
  tv_schema :: schema_struct
  tv_files :: "file_struct list"
  tv_properties :: table_properties
  tv_stats :: "table_stats_struct option"

record table_delta =
  td_from_transaction_id :: txn_id
  td_to_transaction_id :: txn_id
  td_added_files :: "file_struct list"
  td_removed_files :: "file_struct list"
  td_new_schema :: "schema_struct option"
  td_new_properties :: "table_properties option"

record txn_range_cursor =
  rc_from_exclusive :: "txn_id option"
  rc_to_inclusive :: txn_id

datatype (plugins only: code size) txn_file_change_kind = Added | Removed

record txn_file_change =
  ch_transaction_id :: txn_id
  ch_kind :: txn_file_change_kind
  ch_file :: file_struct

record txn_schema_change =
  sg_transaction_id :: txn_id
  sg_schema :: schema_struct

record txn_event =
  ev_transaction_id :: txn_id
  ev_file_changes :: "txn_file_change list"
  ev_schema_change :: "txn_schema_change option"

record commit_result =
  cr_transaction_id :: txn_id
  cr_table_view :: "table_view option"

record column_spec =
  cs_name :: string
  cs_column_type :: data_type
  cs_is_nullable :: bool

record schema_spec =
  ss_columns :: "column_spec list"

record file_spec =
  fs_file_uuid :: "uuid option"
  fs_file_format :: Format
  fs_file_path :: string
  fs_record_count :: i64
  fs_file_size_bytes :: i64
  fs_partition_values :: "json option"
  fs_format_options :: "json option"

datatype (plugins only: code size) mutation_op =
    AppendFiles "file_spec list"
  | DeleteFiles "uuid list"
  | UpdateSchema schema_spec
  | SetProperties table_properties
  | RemoveProperties "property_key list"

record mutation =
  mu_operations :: "mutation_op list"

end
