(* ===== verification/Database.thy ===== *)
theory Database
  imports DataModel Limits
begin

text \<open>
  The control-plane database: the tables of \<open>db/migrations\<close> as lists of rows in insertion
  order, and the SQL statements the catalog issues. An INSERT checks the primary key, the
  unique constraints and the foreign keys of the migration; an UPDATE checks the foreign keys
  of the columns it writes; the DELETE on \<open>tables\<close> is refused while a child row refers to the
  deleted row, since no foreign key of the migration cascades. UUID columns are kept decoded
  (theory \<open>Uuid\<close> shows that the 16-byte blobs carry exactly this information and order);
  JSON columns are kept as text and Arrow types as bytes, as stored.
\<close>

record table_row =
  t_table_uuid :: uuid
  t_table_name :: string
  t_namespace :: string
  t_location :: string
  t_current_schema_uuid :: "uuid option"
  t_current_transaction_id :: "uuid option"
  t_created_at :: timestamp
  t_properties :: "string option"
  t_min_reader_version :: i32
  t_min_writer_version :: i32

record txn_row =
  x_transaction_id :: uuid
  x_table_uuid :: uuid
  x_transaction_timestamp :: timestamp
  x_parent_transaction_id :: "uuid option"

record schema_row =
  s_schema_uuid :: uuid
  s_table_uuid :: uuid
  s_schema_version :: i32
  s_valid_from :: uuid
  s_valid_to :: "uuid option"
  s_created_at :: timestamp

record column_row =
  c_column_uuid :: uuid
  c_schema_uuid :: uuid
  c_column_name :: string
  c_column_type :: bytes
  c_ordinal_position :: i32
  c_is_nullable :: bool

record file_row =
  f_file_uuid :: uuid
  f_table_uuid :: uuid
  f_file_format :: string
  f_file_path :: string
  f_record_count :: i64
  f_file_size_bytes :: i64
  f_added_in :: uuid
  f_removed_in :: "uuid option"
  f_partition_values :: "string option"
  f_format_options :: "string option"

record stats_row =
  r_table_uuid :: uuid
  r_transaction_id :: uuid
  r_record_count :: i64
  r_file_size_bytes :: i64
  r_file_count :: i32
  r_last_updated :: timestamp

record db =
  db_tables :: "table_row list"
  db_transactions :: "txn_row list"
  db_schemas :: "schema_row list"
  db_columns :: "column_row list"
  db_files :: "file_row list"
  db_table_stats :: "stats_row list"

definition empty_db :: db where
  "empty_db = \<lparr>db_tables = [], db_transactions = [], db_schemas = [], db_columns = [],
     db_files = [], db_table_stats = []\<rparr>"

abbreviation table_ids :: "db \<Rightarrow> uuid set" where
  "table_ids d \<equiv> t_table_uuid ` set (db_tables d)"

abbreviation txn_ids :: "db \<Rightarrow> uuid set" where
  "txn_ids d \<equiv> x_transaction_id ` set (db_transactions d)"

abbreviation schema_ids :: "db \<Rightarrow> uuid set" where
  "schema_ids d \<equiv> s_schema_uuid ` set (db_schemas d)"

abbreviation column_ids :: "db \<Rightarrow> uuid set" where
  "column_ids d \<equiv> c_column_uuid ` set (db_columns d)"

abbreviation file_ids :: "db \<Rightarrow> uuid set" where
  "file_ids d \<equiv> f_file_uuid ` set (db_files d)"

abbreviation table_key :: "table_row \<Rightarrow> string \<times> string" where
  "table_key r \<equiv> (t_namespace r, t_table_name r)"

abbreviation column_key :: "column_row \<Rightarrow> uuid \<times> string" where
  "column_key r \<equiv> (c_schema_uuid r, c_column_name r)"

section \<open>INSERT\<close>

definition insert_table :: "table_row \<Rightarrow> db \<Rightarrow> sqlx_error + db" where
  "insert_table r d =
     (if t_table_uuid r \<in> table_ids d then Inl (PrimaryKeyViolation ''tables'')
      else if table_key r \<in> table_key ` set (db_tables d) then Inl (UniqueViolation ''tables'')
      else Inr (d\<lparr>db_tables := db_tables d @ [r]\<rparr>))"

definition insert_txn :: "txn_row \<Rightarrow> db \<Rightarrow> sqlx_error + db" where
  "insert_txn r d =
     (if x_transaction_id r \<in> txn_ids d then Inl (PrimaryKeyViolation ''transactions'')
      else if x_table_uuid r \<notin> table_ids d then Inl (ForeignKeyViolation ''transactions'')
      else if (case x_parent_transaction_id r of
                 Some p \<Rightarrow> p \<notin> txn_ids d \<and> p \<noteq> x_transaction_id r | None \<Rightarrow> False)
      then Inl (ForeignKeyViolation ''transactions'')
      else Inr (d\<lparr>db_transactions := db_transactions d @ [r]\<rparr>))"

definition insert_schema :: "schema_row \<Rightarrow> db \<Rightarrow> sqlx_error + db" where
  "insert_schema r d =
     (if s_schema_uuid r \<in> schema_ids d then Inl (PrimaryKeyViolation ''schemas'')
      else if s_table_uuid r \<notin> table_ids d \<or> s_valid_from r \<notin> txn_ids d
              \<or> (case s_valid_to r of Some t \<Rightarrow> t \<notin> txn_ids d | None \<Rightarrow> False)
      then Inl (ForeignKeyViolation ''schemas'')
      else Inr (d\<lparr>db_schemas := db_schemas d @ [r]\<rparr>))"

definition insert_column :: "column_row \<Rightarrow> db \<Rightarrow> sqlx_error + db" where
  "insert_column r d =
     (if c_column_uuid r \<in> column_ids d then Inl (PrimaryKeyViolation ''columns'')
      else if column_key r \<in> column_key ` set (db_columns d) then Inl (UniqueViolation ''columns'')
      else if c_schema_uuid r \<notin> schema_ids d then Inl (ForeignKeyViolation ''columns'')
      else Inr (d\<lparr>db_columns := db_columns d @ [r]\<rparr>))"

definition insert_file :: "file_row \<Rightarrow> db \<Rightarrow> sqlx_error + db" where
  "insert_file r d =
     (if f_file_uuid r \<in> file_ids d then Inl (PrimaryKeyViolation ''files'')
      else if f_table_uuid r \<notin> table_ids d \<or> f_added_in r \<notin> txn_ids d
              \<or> (case f_removed_in r of Some t \<Rightarrow> t \<notin> txn_ids d | None \<Rightarrow> False)
      then Inl (ForeignKeyViolation ''files'')
      else Inr (d\<lparr>db_files := db_files d @ [r]\<rparr>))"

text \<open>A multi-row INSERT inserts its rows in order.\<close>

definition insert_columns :: "column_row list \<Rightarrow> db \<Rightarrow> sqlx_error + db" where
  "insert_columns rows d = foldM (\<lambda>d r. insert_column r d) d rows"

definition insert_files :: "file_row list \<Rightarrow> db \<Rightarrow> sqlx_error + db" where
  "insert_files rows d = foldM (\<lambda>d r. insert_file r d) d rows"

section \<open>UPDATE and DELETE\<close>

definition update_table_heads :: "uuid \<Rightarrow> uuid \<Rightarrow> uuid \<Rightarrow> db \<Rightarrow> db" where
  "update_table_heads schema_uuid transaction_id table_uuid d =
     d\<lparr>db_tables := map (\<lambda>r. if t_table_uuid r = table_uuid
          then r\<lparr>t_current_schema_uuid := Some schema_uuid,
                 t_current_transaction_id := Some transaction_id\<rparr> else r) (db_tables d)\<rparr>"

definition update_table_commit :: "uuid \<Rightarrow> uuid option \<Rightarrow> string \<Rightarrow> uuid \<Rightarrow> db \<Rightarrow> db" where
  "update_table_commit transaction_id schema_uuid properties table_uuid d =
     d\<lparr>db_tables := map (\<lambda>r. if t_table_uuid r = table_uuid
          then r\<lparr>t_current_transaction_id := Some transaction_id,
                 t_current_schema_uuid := schema_uuid, t_properties := Some properties\<rparr>
          else r) (db_tables d)\<rparr>"

definition update_schema_valid_to :: "uuid \<Rightarrow> uuid \<Rightarrow> db \<Rightarrow> sqlx_error + db" where
  "update_schema_valid_to transaction_id schema_uuid d =
     (if schema_uuid \<in> schema_ids d \<and> transaction_id \<notin> txn_ids d
      then Inl (ForeignKeyViolation ''schemas'')
      else Inr (d\<lparr>db_schemas := map (\<lambda>r. if s_schema_uuid r = schema_uuid
                   then r\<lparr>s_valid_to := Some transaction_id\<rparr> else r) (db_schemas d)\<rparr>))"

definition file_removable :: "uuid \<Rightarrow> uuid list \<Rightarrow> file_row \<Rightarrow> bool" where
  "file_removable table_uuid uuids r \<longleftrightarrow>
     f_table_uuid r = table_uuid \<and> f_removed_in r = None \<and> f_file_uuid r \<in> set uuids"

definition update_files_removed :: "uuid \<Rightarrow> uuid \<Rightarrow> uuid list \<Rightarrow> db \<Rightarrow> sqlx_error + db" where
  "update_files_removed transaction_id table_uuid uuids d =
     (if transaction_id \<notin> txn_ids d \<and> list_ex (file_removable table_uuid uuids) (db_files d)
      then Inl (ForeignKeyViolation ''files'')
      else Inr (d\<lparr>db_files := map (\<lambda>r. if file_removable table_uuid uuids r
                   then r\<lparr>f_removed_in := Some transaction_id\<rparr> else r) (db_files d)\<rparr>))"

definition table_referenced :: "db \<Rightarrow> uuid \<Rightarrow> bool" where
  "table_referenced d u \<longleftrightarrow>
     list_ex (\<lambda>r. x_table_uuid r = u) (db_transactions d)
     \<or> list_ex (\<lambda>r. s_table_uuid r = u) (db_schemas d)
     \<or> list_ex (\<lambda>r. f_table_uuid r = u) (db_files d)
     \<or> list_ex (\<lambda>r. r_table_uuid r = u) (db_table_stats d)"

definition delete_tables :: "string \<Rightarrow> string \<Rightarrow> db \<Rightarrow> sqlx_error + nat \<times> db" where
  "delete_tables namespace name d =
     (let hit = (\<lambda>r. t_namespace r = namespace \<and> t_table_name r = name) in
      if list_ex (\<lambda>r. hit r \<and> table_referenced d (t_table_uuid r)) (db_tables d)
      then Inl (ForeignKeyViolation ''tables'')
      else Inr (length (filter hit (db_tables d)),
                d\<lparr>db_tables := filter (\<lambda>r. \<not> hit r) (db_tables d)\<rparr>))"

section \<open>SELECT\<close>

definition select_table :: "string \<Rightarrow> string \<Rightarrow> db \<Rightarrow> table_row option" where
  "select_table namespace name d =
     find (\<lambda>r. t_namespace r = namespace \<and> t_table_name r = name) (db_tables d)"

definition select_txn :: "uuid \<Rightarrow> uuid \<Rightarrow> db \<Rightarrow> txn_row option" where
  "select_txn table_uuid transaction_id d =
     find (\<lambda>r. x_table_uuid r = table_uuid \<and> x_transaction_id r = transaction_id) (db_transactions d)"

definition select_columns :: "uuid \<Rightarrow> db \<Rightarrow> column_row list" where
  "select_columns schema_uuid d = filter (\<lambda>r. c_schema_uuid r = schema_uuid) (db_columns d)"

section \<open>Inserted rows are found under their primary key\<close>

text \<open>The contract of a table with a primary key, as the catalog's INSERT statements use it:
  a successful insert appends exactly the given row, and only when its key is free.\<close>

locale keyed_table =
  fixes rows :: "'d \<Rightarrow> 'r list"
    and put :: "'r \<Rightarrow> 'd \<Rightarrow> sqlx_error + 'd"
    and key :: "'r \<Rightarrow> 'k"
  assumes put_rows: "put r d = Inr d' \<Longrightarrow> rows d' = rows d @ [r]"
    and put_fresh: "put r d = Inr d' \<Longrightarrow> key r \<notin> key ` set (rows d)"
begin

lemma put_distinct: "put r d = Inr d' \<Longrightarrow> distinct (map key (rows d)) \<Longrightarrow> distinct (map key (rows d'))"
  using put_rows put_fresh by simp

lemma puts_rows:
  "foldM (\<lambda>d r. put r d) d rs = Inr d' \<Longrightarrow> rows d' = rows d @ rs"
proof (induction rs arbitrary: d)
  case (Cons r rs)
  then obtain d1 where d1: "put r d = Inr d1" and "foldM (\<lambda>d r. put r d) d1 rs = Inr d'"
    by (auto simp: result_simps)
  then show ?case using Cons.IH [of d1] put_rows [OF d1] by simp
qed simp

lemma puts_distinct:
  "foldM (\<lambda>d r. put r d) d rs = Inr d' \<Longrightarrow> distinct (map key (rows d)) \<Longrightarrow> distinct (map key (rows d'))"
  by (erule foldM_invariant) (auto intro: put_distinct)

end

lemma insert_table_Inr: "insert_table r d = Inr d' \<Longrightarrow>
    d' = d\<lparr>db_tables := db_tables d @ [r]\<rparr> \<and> t_table_uuid r \<notin> table_ids d
    \<and> table_key r \<notin> table_key ` set (db_tables d)"
  by (auto simp: insert_table_def split: if_splits)

lemma insert_txn_Inr: "insert_txn r d = Inr d' \<Longrightarrow>
    d' = d\<lparr>db_transactions := db_transactions d @ [r]\<rparr> \<and> x_transaction_id r \<notin> txn_ids d
    \<and> x_table_uuid r \<in> table_ids d
    \<and> pred_option (\<lambda>p. p \<in> txn_ids d \<or> p = x_transaction_id r) (x_parent_transaction_id r)"
  by (auto simp: insert_txn_def split: if_splits option.splits)

lemma insert_schema_Inr: "insert_schema r d = Inr d' \<Longrightarrow>
    d' = d\<lparr>db_schemas := db_schemas d @ [r]\<rparr> \<and> s_schema_uuid r \<notin> schema_ids d
    \<and> s_table_uuid r \<in> table_ids d \<and> s_valid_from r \<in> txn_ids d
    \<and> pred_option (\<lambda>t. t \<in> txn_ids d) (s_valid_to r)"
  by (auto simp: insert_schema_def split: if_splits option.splits)

lemma insert_column_Inr: "insert_column r d = Inr d' \<Longrightarrow>
    d' = d\<lparr>db_columns := db_columns d @ [r]\<rparr> \<and> c_column_uuid r \<notin> column_ids d
    \<and> column_key r \<notin> column_key ` set (db_columns d) \<and> c_schema_uuid r \<in> schema_ids d"
  by (auto simp: insert_column_def split: if_splits)

lemma insert_file_Inr: "insert_file r d = Inr d' \<Longrightarrow>
    d' = d\<lparr>db_files := db_files d @ [r]\<rparr> \<and> f_file_uuid r \<notin> file_ids d
    \<and> f_table_uuid r \<in> table_ids d \<and> f_added_in r \<in> txn_ids d
    \<and> pred_option (\<lambda>t. t \<in> txn_ids d) (f_removed_in r)"
  by (auto simp: insert_file_def split: if_splits option.splits)

interpretation tables_by_id: keyed_table db_tables insert_table t_table_uuid
  by unfold_locales (auto dest: insert_table_Inr)

interpretation tables_by_name: keyed_table db_tables insert_table table_key
  by unfold_locales (auto dest!: insert_table_Inr)

interpretation txns_by_id: keyed_table db_transactions insert_txn x_transaction_id
  by unfold_locales (auto dest: insert_txn_Inr)

interpretation schemas_by_id: keyed_table db_schemas insert_schema s_schema_uuid
  by unfold_locales (auto dest: insert_schema_Inr)

interpretation columns_by_id: keyed_table db_columns insert_column c_column_uuid
  by unfold_locales (auto dest: insert_column_Inr)

interpretation columns_by_name: keyed_table db_columns insert_column column_key
  by unfold_locales (auto dest!: insert_column_Inr)

interpretation files_by_id: keyed_table db_files insert_file f_file_uuid
  by unfold_locales (auto dest: insert_file_Inr)

text \<open>The batch inserts write one table only.\<close>

lemma insert_columns_Inr:
  assumes "insert_columns rs d = Inr d'"
  shows "d' = d\<lparr>db_columns := db_columns d @ rs\<rparr>"
  using assms unfolding insert_columns_def
proof (induction rs arbitrary: d)
  case (Cons r rs)
  then obtain d1 where d1: "insert_column r d = Inr d1" and "foldM (\<lambda>d r. insert_column r d) d1 rs = Inr d'"
    by (auto simp: result_simps)
  then show ?case using Cons.IH [of d1] insert_column_Inr [OF d1] by simp
qed simp

lemma insert_files_Inr:
  assumes "insert_files rs d = Inr d'"
  shows "d' = d\<lparr>db_files := db_files d @ rs\<rparr>"
  using assms unfolding insert_files_def
proof (induction rs arbitrary: d)
  case (Cons r rs)
  then obtain d1 where d1: "insert_file r d = Inr d1" and "foldM (\<lambda>d r. insert_file r d) d1 rs = Inr d'"
    by (auto simp: result_simps)
  then show ?case using Cons.IH [of d1] insert_file_Inr [OF d1] by simp
qed simp

lemma select_table_Some:
  "select_table ns n d = Some r \<Longrightarrow> r \<in> set (db_tables d) \<and> t_namespace r = ns \<and> t_table_name r = n"
  unfolding select_table_def by (drule find_SomeD) simp

lemma select_txn_Some:
  "select_txn tu x d = Some r \<Longrightarrow> r \<in> set (db_transactions d) \<and> x_table_uuid r = tu \<and> x_transaction_id r = x"
  unfolding select_txn_def by (drule find_SomeD) simp

end
