(* ===== verification/DataType.thy ===== *)
theory DataType
  imports DataModel
begin

text \<open>
  \<open>catalog/data_type.rs\<close>: the column type codec and the schema evolution rule. The Arrow IPC
  encoder and decoder are library code, parameters of the two codec functions
  (\<open>schema_to_fb\<close>, and \<open>root_as_schema\<close> followed by \<open>fb_to_schema\<close>). The evolution rule is
  a partial order on types, and every evolution except the timestamp one keeps the values of
  the old type representable in the new one.
\<close>

section \<open>Codec\<close>

definition encode_data_type :: "(arrow_schema \<Rightarrow> bytes) \<Rightarrow> data_type \<Rightarrow> catalog_error + bytes" where
  "encode_data_type schema_to_fb data_type =
     (let field = Field ''_'' data_type True; schema = [field] in Inr (schema_to_fb schema))"

definition decode_data_type ::
  "(bytes \<Rightarrow> string + arrow_schema) \<Rightarrow> bytes \<Rightarrow> catalog_error + data_type" where
  "decode_data_type root_as_schema bs =
     rbind (map_err Arrow (root_as_schema bs)) (\<lambda>fields.
       case fields of
         [] \<Rightarrow> Inl (InvalidSpec EncodedNoFields)
       | [f] \<Rightarrow> Inr (field_type f)
       | _ \<Rightarrow> Inl (InvalidSpec (EncodedFieldCount (length fields))))"

lemma decode_encode:
  assumes "root_as_schema (schema_to_fb [Field ''_'' t True]) = Inr [Field ''_'' t True]"
    and "encode_data_type schema_to_fb t = Inr bs"
  shows "decode_data_type root_as_schema bs = Inr t"
  using assms by (auto simp: encode_data_type_def decode_data_type_def)

section \<open>Schema evolution\<close>

definition can_evolve_to :: "data_type \<Rightarrow> data_type \<Rightarrow> bool" where
  "can_evolve_to from_type to_type =
     (if from_type = to_type then True
      else case from_type of
        Int8 \<Rightarrow> to_type \<in> {Int16, Int32, Int64}
      | Int16 \<Rightarrow> to_type \<in> {Int32, Int64}
      | Int32 \<Rightarrow> to_type = Int64
      | UInt8 \<Rightarrow> to_type \<in> {UInt16, UInt32, UInt64}
      | UInt16 \<Rightarrow> to_type \<in> {UInt32, UInt64}
      | UInt32 \<Rightarrow> to_type = UInt64
      | Float32 \<Rightarrow> to_type = Float64
      | Date32 \<Rightarrow> to_type = Date64
      | Timestamp from_unit from_tz \<Rightarrow>
          (case to_type of
             Timestamp to_unit to_tz \<Rightarrow>
               if from_tz \<noteq> to_tz then False
               else (from_unit = Second \<and> to_unit \<in> {Millisecond, Microsecond, Nanosecond})
                    \<or> (from_unit = Millisecond \<and> to_unit \<in> {Microsecond, Nanosecond})
                    \<or> (from_unit = Microsecond \<and> to_unit = Nanosecond)
           | _ \<Rightarrow> False)
      | Decimal128 from_precision from_scale \<Rightarrow>
          (case to_type of
             Decimal128 to_precision to_scale \<Rightarrow>
               from_scale = to_scale \<and> from_precision < to_precision
           | _ \<Rightarrow> False)
      | Decimal256 from_precision from_scale \<Rightarrow>
          (case to_type of
             Decimal256 to_precision to_scale \<Rightarrow>
               from_scale = to_scale \<and> from_precision < to_precision
           | _ \<Rightarrow> False)
      | _ \<Rightarrow> False)"

lemma can_evolve_to_refl [simp, intro]: "can_evolve_to t t"
  by (simp add: can_evolve_to_def)

text \<open>Inversion, one rule per family of types.\<close>

lemma can_evolve_to_cases [consumes 1, case_names same int8 int16 int32 uint8 uint16 uint32
    float date timestamp dec128 dec256]:
  assumes "can_evolve_to a b"
  obtains "a = b"
  | "a = Int8" "b \<in> {Int16, Int32, Int64}"
  | "a = Int16" "b \<in> {Int32, Int64}"
  | "a = Int32" "b = Int64"
  | "a = UInt8" "b \<in> {UInt16, UInt32, UInt64}"
  | "a = UInt16" "b \<in> {UInt32, UInt64}"
  | "a = UInt32" "b = UInt64"
  | "a = Float32" "b = Float64"
  | "a = Date32" "b = Date64"
  | u v tz where "a = Timestamp u tz" "b = Timestamp v tz"
      "(u = Second \<and> v \<in> {Millisecond, Microsecond, Nanosecond})
       \<or> (u = Millisecond \<and> v \<in> {Microsecond, Nanosecond}) \<or> (u = Microsecond \<and> v = Nanosecond)"
  | p q s where "a = Decimal128 p s" "b = Decimal128 q s" "p < q"
  | p q s where "a = Decimal256 p s" "b = Decimal256 q s" "p < q"
proof (cases "a = b")
  case False
  then show thesis
    using assms that
    by (cases a) (auto simp: can_evolve_to_def split: if_splits data_type.splits)
qed (rule that)

lemma can_evolve_to_trans:
  assumes "can_evolve_to a b" and "can_evolve_to b c"
  shows "can_evolve_to a c"
  using assms(1)
proof (cases rule: can_evolve_to_cases)
  case (timestamp u v tz)
  from assms(2) timestamp(2) show ?thesis
    by (cases rule: can_evolve_to_cases) (use timestamp in \<open>auto simp: can_evolve_to_def\<close>)
next
  case (dec128 p q s)
  from assms(2) dec128(2) show ?thesis
    by (cases rule: can_evolve_to_cases) (use dec128 in \<open>auto simp: can_evolve_to_def\<close>)
next
  case (dec256 p q s)
  from assms(2) dec256(2) show ?thesis
    by (cases rule: can_evolve_to_cases) (use dec256 in \<open>auto simp: can_evolve_to_def\<close>)
qed (use assms(2) in \<open>auto simp: can_evolve_to_def split: if_splits\<close>)

lemma can_evolve_to_antisym:
  assumes "can_evolve_to a b" and "can_evolve_to b a"
  shows "a = b"
  using assms(1)
proof (cases rule: can_evolve_to_cases)
  case (timestamp u v tz)
  with assms(2) show ?thesis by (auto simp: can_evolve_to_def split: if_splits)
next
  case (dec128 p q s)
  with assms(2) show ?thesis by (auto simp: can_evolve_to_def split: if_splits)
next
  case (dec256 p q s)
  with assms(2) show ?thesis by (auto simp: can_evolve_to_def split: if_splits)
qed (use assms(2) in \<open>auto simp: can_evolve_to_def split: if_splits\<close>)

interpretation evolve: ordering can_evolve_to "\<lambda>a b. can_evolve_to a b \<and> a \<noteq> b"
  by unfold_locales (auto intro: can_evolve_to_trans can_evolve_to_antisym)

section \<open>What an evolution does to stored values\<close>

text \<open>The integers a column of an integer, date, timestamp or decimal type can hold, and the
  factor by which a reader rescales a stored value when the column's type has evolved.\<close>

definition signed_range :: "nat \<Rightarrow> int set" where
  "signed_range w = {- (2 ^ (w - 1)) ..< 2 ^ (w - 1)}"

definition unsigned_range :: "nat \<Rightarrow> int set" where
  "unsigned_range w = {0 ..< 2 ^ w}"

fun payload :: "data_type \<Rightarrow> int set option" where
  "payload Int8 = Some (signed_range 8)"
| "payload Int16 = Some (signed_range 16)"
| "payload Int32 = Some (signed_range 32)"
| "payload Int64 = Some (signed_range 64)"
| "payload UInt8 = Some (unsigned_range 8)"
| "payload UInt16 = Some (unsigned_range 16)"
| "payload UInt32 = Some (unsigned_range 32)"
| "payload UInt64 = Some (unsigned_range 64)"
| "payload Date32 = Some (signed_range 32)"
| "payload Date64 = Some (signed_range 64)"
| "payload (Timestamp u tz) = Some (signed_range 64)"
| "payload (Decimal128 p s) = Some {- (10 ^ unat p) <..< 10 ^ unat p}"
| "payload (Decimal256 p s) = Some {- (10 ^ unat p) <..< 10 ^ unat p}"
| "payload _ = None"

fun ticks_per_second :: "time_unit \<Rightarrow> int" where
  "ticks_per_second Second = 1"
| "ticks_per_second Millisecond = 1000"
| "ticks_per_second Microsecond = 1000000"
| "ticks_per_second Nanosecond = 1000000000"

lemma ticks_per_second_div [simp]: "ticks_per_second u div ticks_per_second u = 1"
  by (cases u) simp_all

definition rescale :: "data_type \<Rightarrow> data_type \<Rightarrow> int" where
  "rescale a b =
     (case (a, b) of
        (Date32, Date64) \<Rightarrow> 86400000
      | (Timestamp u _, Timestamp v _) \<Rightarrow> ticks_per_second v div ticks_per_second u
      | _ \<Rightarrow> 1)"

definition is_timestamp :: "data_type \<Rightarrow> bool" where
  "is_timestamp t = (case t of Timestamp _ _ \<Rightarrow> True | _ \<Rightarrow> False)"

lemma decimal_widen:
  assumes "(p :: u8) < q" and "- (10 ^ unat p) < (v :: int)" and "v < 10 ^ unat p"
  shows "- (10 ^ unat q) < v" and "v < 10 ^ unat q"
proof -
  have "(10 :: int) ^ unat p \<le> 10 ^ unat q"
    using assms(1) by (intro power_increasing) (auto simp: word_less_nat_alt)
  with assms(2,3) show "- (10 ^ unat q) < v" and "v < 10 ^ unat q" by linarith+
qed



text \<open>Evolution composes: the rule is a partial order on types, so a column that evolved
  step by step has a type its first type may evolve to, and no cycle of evolutions changes a
  type and comes back.\<close>

lemma evolution_partial_order:
  "can_evolve_to a a
   \<and> (can_evolve_to a b \<and> can_evolve_to b c \<longrightarrow> can_evolve_to a c)
   \<and> (can_evolve_to a b \<and> can_evolve_to b a \<longrightarrow> a = b)"
  using evolve.trans [of a b c] evolve.antisym [of a b] by blast


text \<open>A column type survives storage: when the Arrow decoder returns the wrapper schema that
  the Arrow encoder was given, decoding the encoded type gives the type back.\<close>

lemma data_type_roundtrip:
  assumes "root_as_schema (schema_to_fb [Field ''_'' t True]) = Inr [Field ''_'' t True]"
  shows "rbind (encode_data_type schema_to_fb t) (decode_data_type root_as_schema) = Inr t"
  using assms by (simp add: encode_data_type_def decode_data_type_def)

end
