(* ===== verification/Properties.thy ===== *)
theory Properties
  imports DataModel Limits "HOL-Library.Char_ord" "HOL-Library.List_Lexorder"
begin

text \<open>
  JSON text in the database (\<open>parse_json\<close> and its relatives of \<open>catalog/helpers.rs\<close>) and the
  typed table properties of \<open>catalog/models.rs\<close>. \<open>serde_json::from_str\<close> and
  \<open>serde_json::to_string\<close> are library code, the fields of \<open>json_lib\<close>. A JSON object is a
  \<open>BTreeMap\<close>: an association list with strictly increasing keys.
\<close>

record json_lib =
  json_from_str :: "string \<Rightarrow> string + json"
  json_to_string :: "json \<Rightarrow> string + string"

section \<open>JSON text\<close>

definition parse_json :: "json_lib \<Rightarrow> string option \<Rightarrow> catalog_error + json" where
  "parse_json lib value =
     (case value of
        Some text \<Rightarrow>
          if MAX_JSON_SIZE_BYTES < len_u32 text
          then Inl (LimitExceeded (JsonSize (length text) MAX_JSON_SIZE_BYTES))
          else map_err (\<lambda>error. InvalidSpec (InvalidJson error)) (json_from_str lib text)
      | None \<Rightarrow> Inr (JObject []))"

definition parse_json_optional :: "json_lib \<Rightarrow> string option \<Rightarrow> catalog_error + json option" where
  "parse_json_optional lib value =
     (case value of
        Some text \<Rightarrow>
          if MAX_JSON_SIZE_BYTES < len_u32 text
          then Inl (LimitExceeded (JsonSize (length text) MAX_JSON_SIZE_BYTES))
          else map_err (\<lambda>error. InvalidSpec (InvalidJson error))
                 (rbind (json_from_str lib text) (\<lambda>j. Inr (Some j)))
      | None \<Rightarrow> Inr None)"

definition serialize_json :: "json_lib \<Rightarrow> json \<Rightarrow> catalog_error + string" where
  "serialize_json lib value =
     rbind (map_err (\<lambda>error. InvalidSpec (InvalidJson error)) (json_to_string lib value)) (\<lambda>json_str.
       if MAX_JSON_SIZE_BYTES < len_u32 json_str
       then Inl (LimitExceeded (JsonSize (length json_str) MAX_JSON_SIZE_BYTES))
       else Inr json_str)"

definition serialize_json_optional :: "json_lib \<Rightarrow> json option \<Rightarrow> catalog_error + string option" where
  "serialize_json_optional lib value =
     (case value of
        None \<Rightarrow> Inr None
      | Some v \<Rightarrow> rbind (serialize_json lib v) (\<lambda>s. Inr (Some s)))"

section \<open>Table properties\<close>

definition properties_new :: table_properties where
  "properties_new = \<lparr>tp_values = []\<rparr>"

definition properties_from_json :: "json \<Rightarrow> catalog_error + table_properties" where
  "properties_from_json value =
     (case value of
        JObject values \<Rightarrow> Inr \<lparr>tp_values = values\<rparr>
      | _ \<Rightarrow> Inl (InvalidSpec PropertiesNotObject))"

definition properties_to_json :: "table_properties \<Rightarrow> json" where
  "properties_to_json p = JObject (tp_values p)"

fun btree_insert :: "string \<Rightarrow> json \<Rightarrow> json_map \<Rightarrow> json_map" where
  "btree_insert k v [] = [(k, v)]"
| "btree_insert k v ((k', v') # m) =
     (if k < k' then (k, v) # (k', v') # m
      else if k = k' then (k, v) # m
      else (k', v') # btree_insert k v m)"

definition btree_remove :: "string \<Rightarrow> json_map \<Rightarrow> json_map" where
  "btree_remove k m = filter (\<lambda>e. fst e \<noteq> k) m"

definition properties_insert :: "string \<Rightarrow> json \<Rightarrow> table_properties \<Rightarrow> table_properties" where
  "properties_insert key value p = p\<lparr>tp_values := btree_insert key value (tp_values p)\<rparr>"

definition properties_remove :: "string \<Rightarrow> table_properties \<Rightarrow> table_properties" where
  "properties_remove key p = p\<lparr>tp_values := btree_remove key (tp_values p)\<rparr>"

definition properties_get :: "table_properties \<Rightarrow> string \<Rightarrow> json option" where
  "properties_get p = map_of (tp_values p)"

definition properties_sorted :: "table_properties \<Rightarrow> bool" where
  "properties_sorted p = sorted_wrt (<) (map fst (tp_values p))"

definition parse_table_properties :: "json_lib \<Rightarrow> string option \<Rightarrow> catalog_error + table_properties" where
  "parse_table_properties lib value = rbind (parse_json lib value) properties_from_json"

text \<open>A key must have a character that is not white space.\<close>

definition property_key_new :: "string \<Rightarrow> catalog_error + property_key" where
  "property_key_new key =
     (if trim key = [] then Inl (InvalidSpec PropertyKeyEmpty) else Inr (PropertyKey key))"

fun property_key_as_str :: "property_key \<Rightarrow> string" where
  "property_key_as_str (PropertyKey s) = s"

section \<open>The property store as a map\<close>

text \<open>What the catalog relies on when it edits properties: insertion and removal act on one key
  and keep the key order of the map.\<close>

locale property_store =
  fixes put :: "string \<Rightarrow> 'v \<Rightarrow> 'p \<Rightarrow> 'p"
    and del :: "string \<Rightarrow> 'p \<Rightarrow> 'p"
    and get :: "'p \<Rightarrow> string \<Rightarrow> 'v option"
    and inv :: "'p \<Rightarrow> bool"
  assumes get_put: "inv p \<Longrightarrow> get (put k v p) = (get p)(k \<mapsto> v)"
    and get_del: "get (del k p) = (get p)(k := None)"
    and inv_put: "inv p \<Longrightarrow> inv (put k v p)"
    and inv_del: "inv p \<Longrightarrow> inv (del k p)"
begin

lemma inv_fold_del: "inv p \<Longrightarrow> inv (fold del ks p)"
  by (induction ks arbitrary: p) (auto simp: inv_del)

lemma get_fold_del: "get (fold del ks p) k = (if k \<in> set ks then None else get p k)"
  by (induction ks arbitrary: p) (auto simp: get_del)

lemma put_del_commute:
  "inv p \<Longrightarrow> k \<noteq> k' \<Longrightarrow> get (put k v (del k' p)) = get (del k' (put k v p))"
  by (auto simp: get_put get_del inv_del)

end

lemma fst_btree_insert: "fst ` set (btree_insert k v m) = insert k (fst ` set m)"
  by (induction m rule: btree_insert.induct) auto

lemma btree_insert_sorted:
  "sorted_wrt (<) (map fst m) \<Longrightarrow> sorted_wrt (<) (map fst (btree_insert k v m))"
proof (induction k v m rule: btree_insert.induct)
  case (2 k v k' v' m)
  consider "k < k'" | "k = k'" | "k' < k" by fastforce
  then show ?case
  proof cases
    case 3
    then have "\<forall>x \<in> fst ` set (btree_insert k v m). k' < x"
      using 2 by (auto simp: fst_btree_insert)
    with 2 3 show ?thesis by auto
  qed (use 2 in \<open>auto simp: order.strict_trans\<close>)
qed simp

lemma map_of_btree_insert:
  "sorted_wrt (<) (map fst m) \<Longrightarrow> map_of (btree_insert k v m) = (map_of m)(k \<mapsto> v)"
proof (induction k v m rule: btree_insert.induct)
  case (2 k v k' v' m)
  then show ?case by (cases k k' rule: linorder_cases) (auto simp: fun_eq_iff)
qed (simp add: fun_eq_iff)

lemma map_of_btree_remove: "map_of (btree_remove k m) = (map_of m)(k := None)"
  unfolding btree_remove_def by (induction m) (auto simp: fun_eq_iff)

interpretation props: property_store properties_insert properties_remove properties_get properties_sorted
proof unfold_locales
  fix p k v
  show "properties_sorted p \<Longrightarrow> properties_sorted (properties_insert k v p)"
    by (simp add: properties_sorted_def properties_insert_def btree_insert_sorted)
  show "properties_sorted p \<Longrightarrow> properties_sorted (properties_remove k p)"
    by (simp add: properties_sorted_def properties_remove_def btree_remove_def sorted_wrt_map
        sorted_wrt_filter)
qed (simp_all add: properties_get_def properties_insert_def properties_remove_def
       properties_sorted_def map_of_btree_insert map_of_btree_remove)

section \<open>Stored JSON can be read back\<close>

lemma serialize_json_size:
  "serialize_json lib v = Inr t \<Longrightarrow> json_to_string lib v = Inr t \<and> \<not> MAX_JSON_SIZE_BYTES < len_u32 t"
  by (auto simp: serialize_json_def result_simps split: if_splits)

lemma parse_serialize_json:
  assumes "serialize_json lib v = Inr t" and "json_from_str lib t = Inr v"
  shows "parse_json lib (Some t) = Inr v"
  using serialize_json_size [OF assms(1)] assms(2) by (simp add: parse_json_def)

lemma parse_serialize_json_optional:
  assumes "serialize_json_optional lib ov = Inr ot"
    and "\<And>v t. ov = Some v \<Longrightarrow> json_to_string lib v = Inr t \<Longrightarrow> json_from_str lib t = Inr v"
  shows "parse_json_optional lib ot = Inr ov"
proof (cases ov)
  case (Some v)
  with assms(1) obtain t where t: "serialize_json lib v = Inr t" "ot = Some t"
    by (auto simp: serialize_json_optional_def result_simps)
  from serialize_json_size [OF t(1)] assms(2) Some t(2) show ?thesis
    by (simp add: parse_json_optional_def)
qed (use assms(1) in \<open>simp add: serialize_json_optional_def parse_json_optional_def\<close>)

text \<open>Properties that the catalog manages to store can be read back unchanged, whenever the
  JSON library parses what it printed: the size limit that guards the write also admits the
  read.\<close>

lemma properties_roundtrip:
  assumes "serialize_json lib (properties_to_json p) = Inr t"
    and "json_to_string lib (properties_to_json p) = Inr t \<Longrightarrow>
         json_from_str lib t = Inr (properties_to_json p)"
  shows "parse_table_properties lib (Some t) = Inr p"
proof -
  have "json_from_str lib t = Inr (properties_to_json p)"
    using assms serialize_json_size by blast
  then have "parse_json lib (Some t) = Inr (properties_to_json p)"
    using assms(1) by (rule parse_serialize_json [rotated])
  then show ?thesis
    by (simp add: parse_table_properties_def properties_to_json_def properties_from_json_def)
qed

definition tiny_json_lib :: json_lib where
  "tiny_json_lib =
     \<lparr>json_from_str = (\<lambda>s. if s = ''{}'' then Inr (JObject [])
                        else if s = ''{owner:ann}'' then Inr (JObject [(''owner'', JString ''ann'')])
                        else Inl ''syntax''),
      json_to_string = (\<lambda>j. if j = JObject [] then Inr ''{}''
                         else if j = JObject [(''owner'', JString ''ann'')] then Inr ''{owner:ann}''
                         else Inl ''unsupported'')\<rparr>"

text \<open>Removing property keys removes exactly those keys: afterwards a listed key has no
  value, every other key has the value it had, and the map stays ordered.\<close>

lemma remove_keys_exact:
  "properties_get (fold properties_remove ks p) k = (if k \<in> set ks then None else properties_get p k)
   \<and> (properties_sorted p \<longrightarrow> properties_sorted (fold properties_remove ks p))"
  using props.get_fold_del props.inv_fold_del by blast

end
