(* ===== verification/FileFormats.thy ===== *)
theory FileFormats
  imports DataModel
begin

text \<open>
  Format names and writer options: \<open>storage/mod.rs\<close> (\<open>Format\<close>), \<open>storage/utils.rs\<close>,
  \<open>storage/file_format/mod.rs\<close> and the option parsers of \<open>parquet.rs\<close>, \<open>lance.rs\<close> and
  \<open>vortex.rs\<close>. The option structs of the format libraries (\<open>WriterProperties\<close>,
  \<open>WriteParams\<close>, \<open>VortexWriteOptions\<close>) are records of the settings the parsers make, \<open>None\<close>
  for a setting left at the library's default. The two enum parsers that belong to the
  libraries (\<open>WriterVersion::from_str\<close>, \<open>WriteMode::try_from\<close>) are parameters.
\<close>

section \<open>Format names\<close>

fun format_as_str :: "Format \<Rightarrow> string" where
  "format_as_str Parquet = ''parquet''"
| "format_as_str Lance = ''lance''"
| "format_as_str Vortex = ''vortex''"

definition format_from_str :: "string \<Rightarrow> storage_error + Format" where
  "format_from_str s =
     (let l = to_lowercase s in
      if l = ''parquet'' then Inr Parquet
      else if l = ''lance'' then Inr Lance
      else if l = ''vortex'' then Inr Vortex
      else Inl (Unsupported (FileFormatNotSupported s)))"

definition parse_usize :: "string \<Rightarrow> json \<Rightarrow> storage_error + 64 word" where
  "parse_usize key value = ok_or (Unsupported (MustBeInteger key)) (as_u64 value)"

definition parse_string :: "string \<Rightarrow> json \<Rightarrow> storage_error + string" where
  "parse_string key value = ok_or (Unsupported (MustBeString key)) (as_str value)"

definition parse_bool :: "string \<Rightarrow> json \<Rightarrow> storage_error + bool" where
  "parse_bool key value = ok_or (Unsupported (MustBeBool key)) (as_bool value)"

section \<open>Parquet\<close>

datatype compression = UNCOMPRESSED | SNAPPY | GZIP | BROTLI | LZ4 | ZSTD
datatype writer_version = PARQUET_1_0 | PARQUET_2_0
datatype bloom_filter_position = AfterRowGroup | BloomEnd

record writer_properties =
  wp_compression :: "compression option"
  wp_max_row_group_size :: "64 word option"
  wp_data_page_size_limit :: "64 word option"
  wp_data_page_row_count_limit :: "64 word option"
  wp_write_batch_size :: "64 word option"
  wp_writer_version :: "writer_version option"
  wp_bloom_filter_position :: "bloom_filter_position option"
  wp_created_by :: "string option"
  wp_offset_index_disabled :: "bool option"

definition writer_properties_default :: writer_properties where
  "writer_properties_default =
     \<lparr>wp_compression = None, wp_max_row_group_size = None, wp_data_page_size_limit = None,
      wp_data_page_row_count_limit = None, wp_write_batch_size = None, wp_writer_version = None,
      wp_bloom_filter_position = None, wp_created_by = None, wp_offset_index_disabled = None\<rparr>"

definition parse_compression :: "string \<Rightarrow> storage_error + compression" where
  "parse_compression value =
     (let l = to_lowercase value in
      if l = ''uncompressed'' \<or> l = ''none'' then Inr UNCOMPRESSED
      else if l = ''snappy'' then Inr SNAPPY
      else if l = ''gzip'' then Inr GZIP
      else if l = ''brotli'' then Inr BROTLI
      else if l = ''lz4'' then Inr LZ4
      else if l = ''zstd'' then Inr ZSTD
      else Inl (Unsupported (UnsupportedCompression l)))"

definition parse_writer_version ::
  "(string \<Rightarrow> string + writer_version) \<Rightarrow> string \<Rightarrow> storage_error + writer_version" where
  "parse_writer_version version_from_str value =
     map_err (\<lambda>err. Unsupported (ExternalMsg err)) (version_from_str value)"

definition parse_bloom_filter_position :: "string \<Rightarrow> storage_error + bloom_filter_position" where
  "parse_bloom_filter_position value =
     (let l = to_lowercase value in
      if l = ''afterrowgroup'' \<or> l = ''after_row_group'' then Inr AfterRowGroup
      else if l = ''end'' then Inr BloomEnd
      else Inl (Unsupported (UnsupportedBloomFilterPosition l)))"

definition parquet_option ::
  "(string \<Rightarrow> string + writer_version) \<Rightarrow> writer_properties \<Rightarrow> string \<times> json
   \<Rightarrow> storage_error + writer_properties" where
  "parquet_option version_from_str builder entry =
     (case entry of (key, value) \<Rightarrow>
      if key = ''compression'' then
        rbind (parse_string key value) (\<lambda>val.
        rbind (parse_compression val) (\<lambda>c. Inr (builder\<lparr>wp_compression := Some c\<rparr>)))
      else if key = ''max_row_group_size'' then
        rbind (parse_usize key value) (\<lambda>n. Inr (builder\<lparr>wp_max_row_group_size := Some n\<rparr>))
      else if key = ''data_page_size_limit'' then
        rbind (parse_usize key value) (\<lambda>n. Inr (builder\<lparr>wp_data_page_size_limit := Some n\<rparr>))
      else if key = ''data_page_row_count_limit'' then
        rbind (parse_usize key value) (\<lambda>n. Inr (builder\<lparr>wp_data_page_row_count_limit := Some n\<rparr>))
      else if key = ''write_batch_size'' then
        rbind (parse_usize key value) (\<lambda>n. Inr (builder\<lparr>wp_write_batch_size := Some n\<rparr>))
      else if key = ''writer_version'' then
        rbind (parse_string key value) (\<lambda>val.
        rbind (parse_writer_version version_from_str val) (\<lambda>v.
          Inr (builder\<lparr>wp_writer_version := Some v\<rparr>)))
      else if key = ''bloom_filter_position'' then
        rbind (parse_string key value) (\<lambda>val.
        rbind (parse_bloom_filter_position val) (\<lambda>p.
          Inr (builder\<lparr>wp_bloom_filter_position := Some p\<rparr>)))
      else if key = ''created_by'' then
        rbind (parse_string key value) (\<lambda>val. Inr (builder\<lparr>wp_created_by := Some val\<rparr>))
      else if key = ''offset_index_disabled'' then
        rbind (parse_bool key value) (\<lambda>val. Inr (builder\<lparr>wp_offset_index_disabled := Some val\<rparr>))
      else Inl (Unsupported (UnsupportedOption key ''parquet'')))"

definition parquet_parse_write_options ::
  "(string \<Rightarrow> string + writer_version) \<Rightarrow> json option \<Rightarrow> storage_error + writer_properties" where
  "parquet_parse_write_options version_from_str options =
     (case options of
        None \<Rightarrow> Inr writer_properties_default
      | Some options \<Rightarrow>
          rbind (ok_or (Unsupported OptionsNotObject) (as_object options)) (\<lambda>obj.
            foldM (parquet_option version_from_str) writer_properties_default obj))"

section \<open>Lance\<close>

datatype write_mode = ModeCreate | ModeAppend | ModeOverwrite

record write_params =
  lp_max_rows_per_file :: "64 word option"
  lp_max_rows_per_group :: "64 word option"
  lp_max_bytes_per_file :: "64 word option"
  lp_mode :: "write_mode option"
  lp_enable_stable_row_ids :: "bool option"
  lp_enable_v2_manifest_paths :: "bool option"

definition write_params_default :: write_params where
  "write_params_default =
     \<lparr>lp_max_rows_per_file = None, lp_max_rows_per_group = None, lp_max_bytes_per_file = None,
      lp_mode = None, lp_enable_stable_row_ids = None, lp_enable_v2_manifest_paths = None\<rparr>"

definition parse_write_mode ::
  "(string \<Rightarrow> write_mode option) \<Rightarrow> string \<Rightarrow> storage_error + write_mode" where
  "parse_write_mode mode_try_from value =
     ok_or (Unsupported (UnsupportedWriteMode value)) (mode_try_from value)"

definition lance_option ::
  "(string \<Rightarrow> write_mode option) \<Rightarrow> write_params \<Rightarrow> string \<times> json \<Rightarrow> storage_error + write_params" where
  "lance_option mode_try_from params entry =
     (case entry of (key, value) \<Rightarrow>
      if key = ''max_rows_per_file'' then
        rbind (parse_usize key value) (\<lambda>n. Inr (params\<lparr>lp_max_rows_per_file := Some n\<rparr>))
      else if key = ''max_rows_per_group'' then
        rbind (parse_usize key value) (\<lambda>n. Inr (params\<lparr>lp_max_rows_per_group := Some n\<rparr>))
      else if key = ''max_bytes_per_file'' then
        rbind (parse_usize key value) (\<lambda>n. Inr (params\<lparr>lp_max_bytes_per_file := Some n\<rparr>))
      else if key = ''mode'' then
        rbind (parse_string key value) (\<lambda>val.
        rbind (parse_write_mode mode_try_from val) (\<lambda>m. Inr (params\<lparr>lp_mode := Some m\<rparr>)))
      else if key = ''enable_stable_row_ids'' then
        rbind (parse_bool key value) (\<lambda>val. Inr (params\<lparr>lp_enable_stable_row_ids := Some val\<rparr>))
      else if key = ''enable_v2_manifest_paths'' then
        rbind (parse_bool key value) (\<lambda>val. Inr (params\<lparr>lp_enable_v2_manifest_paths := Some val\<rparr>))
      else Inl (Unsupported (UnsupportedOption key ''lance'')))"

definition lance_parse_write_options ::
  "(string \<Rightarrow> write_mode option) \<Rightarrow> json option \<Rightarrow> storage_error + write_params" where
  "lance_parse_write_options mode_try_from options =
     (case options of
        None \<Rightarrow> Inr write_params_default
      | Some options \<Rightarrow>
          rbind (ok_or (Unsupported OptionsNotObject) (as_object options)) (\<lambda>obj.
            foldM (lance_option mode_try_from) write_params_default obj))"

section \<open>Vortex\<close>

record vortex_write_options =
  vo_exclude_dtype :: bool

definition vortex_write_options_default :: vortex_write_options where
  "vortex_write_options_default = \<lparr>vo_exclude_dtype = False\<rparr>"

definition vortex_option ::
  "vortex_write_options \<Rightarrow> string \<times> json \<Rightarrow> storage_error + vortex_write_options" where
  "vortex_option parsed entry =
     (case entry of (key, value) \<Rightarrow>
      if key = ''exclude_dtype'' then
        rbind (parse_bool key value) (\<lambda>val.
          Inr (if val then parsed\<lparr>vo_exclude_dtype := True\<rparr> else parsed))
      else Inl (Unsupported (UnsupportedOption key ''vortex'')))"

definition vortex_parse_write_options :: "json option \<Rightarrow> storage_error + vortex_write_options" where
  "vortex_parse_write_options options =
     (case options of
        None \<Rightarrow> Inr vortex_write_options_default
      | Some options \<Rightarrow>
          rbind (ok_or (Unsupported OptionsNotObject) (as_object options)) (\<lambda>obj.
            foldM vortex_option vortex_write_options_default obj))"

section \<open>Validation of stored options\<close>

text \<open>The library parsers the validators need.\<close>

record format_lib =
  version_from_str :: "string \<Rightarrow> string + writer_version"
  mode_try_from :: "string \<Rightarrow> write_mode option"

definition validate_format_options :: "format_lib \<Rightarrow> string \<Rightarrow> json \<Rightarrow> storage_error + unit" where
  "validate_format_options lib file_format options =
     (let l = to_lowercase file_format in
      if l = ''parquet'' then
        rbind (parquet_parse_write_options (version_from_str lib) (Some options)) (\<lambda>_. Inr ())
      else if l = ''lance'' then
        rbind (lance_parse_write_options (mode_try_from lib) (Some options)) (\<lambda>_. Inr ())
      else if l = ''vortex'' then
        rbind (vortex_parse_write_options (Some options)) (\<lambda>_. Inr ())
      else Inl (Unsupported (UnsupportedFileFormat l)))"

section \<open>Option parsers accept exactly the entries they understand\<close>

text \<open>The contract of one entry of an options object: whether it is accepted does not depend
  on the settings made so far. Three parsers implement it.\<close>

locale option_parser =
  fixes step :: "'b \<Rightarrow> string \<times> json \<Rightarrow> storage_error + 'b"
    and entry_ok :: "string \<times> json \<Rightarrow> bool"
  assumes step_ok: "(\<exists>b'. step b e = Inr b') \<longleftrightarrow> entry_ok e"
begin

lemma step_rejects: "\<not> entry_ok e \<Longrightarrow> \<exists>err. step b e = Inl err"
  using step_ok [of b e] by (cases "step b e") auto

lemma fold_ok: "(\<exists>b'. foldM step b es = Inr b') \<longleftrightarrow> (\<forall>e \<in> set es. entry_ok e)"
proof (induction es arbitrary: b)
  case (Cons e es)
  show ?case
  proof (cases "step b e")
    case (Inl err)
    then have "\<not> entry_ok e" using step_ok [of b e] by simp
    with Inl show ?thesis by simp
  next
    case (Inr b')
    then have "entry_ok e" using step_ok [of b e] by blast
    with Inr Cons [of b'] show ?thesis by simp
  qed
qed simp

lemma object_ok:
  "(\<exists>b'. rbind (ok_or err (as_object options)) (\<lambda>m. foldM step b m) = Inr b')
     \<longleftrightarrow> (\<exists>m. options = JObject m \<and> (\<forall>e \<in> set m. entry_ok e))"
  by (cases options) (auto simp: fold_ok)

end

definition is_usize :: "json \<Rightarrow> bool" where
  "is_usize v = (case v of JNumber (PosInt _) \<Rightarrow> True | _ \<Rightarrow> False)"

definition is_string_in :: "(string \<Rightarrow> bool) \<Rightarrow> json \<Rightarrow> bool" where
  "is_string_in P v = (case v of JString s \<Rightarrow> P s | _ \<Rightarrow> False)"

definition is_bool :: "json \<Rightarrow> bool" where
  "is_bool v = (case v of JBool _ \<Rightarrow> True | _ \<Rightarrow> False)"

lemma parse_usize_ok: "(\<exists>n. parse_usize k v = Inr n) \<longleftrightarrow> is_usize v"
  by (auto simp: parse_usize_def is_usize_def result_simps split: json.splits json_number.splits
      elim: as_u64.elims)

lemma parse_string_ok: "(\<exists>s. parse_string k v = Inr s \<and> P s) \<longleftrightarrow> is_string_in P v"
  by (auto simp: parse_string_def is_string_in_def result_simps split: json.splits elim: as_str.elims)

lemma parse_bool_ok: "(\<exists>b. parse_bool k v = Inr b) \<longleftrightarrow> is_bool v"
  by (auto simp: parse_bool_def is_bool_def result_simps split: json.splits elim: as_bool.elims)

definition compression_names :: "string set" where
  "compression_names = {''uncompressed'', ''none'', ''snappy'', ''gzip'', ''brotli'', ''lz4'', ''zstd''}"

definition bloom_names :: "string set" where
  "bloom_names = {''afterrowgroup'', ''after_row_group'', ''end''}"

definition parquet_entry_ok :: "format_lib \<Rightarrow> string \<times> json \<Rightarrow> bool" where
  "parquet_entry_ok lib e =
     (case e of (k, v) \<Rightarrow>
        (k = ''compression'' \<and> is_string_in (\<lambda>s. to_lowercase s \<in> compression_names) v)
      \<or> (k \<in> {''max_row_group_size'', ''data_page_size_limit'', ''data_page_row_count_limit'',
               ''write_batch_size''} \<and> is_usize v)
      \<or> (k = ''writer_version'' \<and> is_string_in (\<lambda>s. \<exists>w. version_from_str lib s = Inr w) v)
      \<or> (k = ''bloom_filter_position'' \<and> is_string_in (\<lambda>s. to_lowercase s \<in> bloom_names) v)
      \<or> (k = ''created_by'' \<and> is_string_in (\<lambda>s. True) v)
      \<or> (k = ''offset_index_disabled'' \<and> is_bool v))"

definition lance_entry_ok :: "format_lib \<Rightarrow> string \<times> json \<Rightarrow> bool" where
  "lance_entry_ok lib e =
     (case e of (k, v) \<Rightarrow>
        (k \<in> {''max_rows_per_file'', ''max_rows_per_group'', ''max_bytes_per_file''} \<and> is_usize v)
      \<or> (k = ''mode'' \<and> is_string_in (\<lambda>s. mode_try_from lib s \<noteq> None) v)
      \<or> (k \<in> {''enable_stable_row_ids'', ''enable_v2_manifest_paths''} \<and> is_bool v))"

definition vortex_entry_ok :: "string \<times> json \<Rightarrow> bool" where
  "vortex_entry_ok e = (case e of (k, v) \<Rightarrow> k = ''exclude_dtype'' \<and> is_bool v)"

lemma parse_compression_ok: "(\<exists>c. parse_compression s = Inr c) \<longleftrightarrow> to_lowercase s \<in> compression_names"
  by (auto simp: parse_compression_def compression_names_def Let_def)

lemma parse_bloom_ok:
  "(\<exists>p. parse_bloom_filter_position s = Inr p) \<longleftrightarrow> to_lowercase s \<in> bloom_names"
  by (auto simp: parse_bloom_filter_position_def bloom_names_def Let_def)

lemma parse_version_ok:
  "(\<exists>w. parse_writer_version f s = Inr w) \<longleftrightarrow> (\<exists>w. f s = Inr w)"
  by (auto simp: parse_writer_version_def result_simps)

lemma parse_mode_ok: "(\<exists>m. parse_write_mode f s = Inr m) \<longleftrightarrow> f s \<noteq> None"
  by (auto simp: parse_write_mode_def result_simps)

lemmas parse_ok_simps =
  parse_usize_ok parse_bool_ok parse_string_ok [where P = "\<lambda>_. True", simplified]
  parse_compression_ok parse_bloom_ok parse_version_ok parse_mode_ok

text \<open>A two-stage entry: a string, then a parser of that string.\<close>

lemma parse_string_then:
  "(\<exists>b'. rbind (parse_string k v) (\<lambda>s. rbind (g s) (\<lambda>x. Inr (h x))) = Inr b')
     \<longleftrightarrow> is_string_in (\<lambda>s. \<exists>x. g s = Inr x) v"
  unfolding parse_string_ok [of k v, symmetric] by (auto simp: result_simps)

lemma rbind_then_ok: "(\<exists>b'. rbind m (\<lambda>x. Inr (h x)) = Inr b') \<longleftrightarrow> (\<exists>x. m = Inr x)"
  by (auto simp: result_simps)

lemmas entry_simps = parse_string_then rbind_then_ok parse_ok_simps

interpretation parquet_parser: option_parser "parquet_option (version_from_str lib)" "parquet_entry_ok lib"
  for lib
proof unfold_locales
  fix b e
  show "(\<exists>b'. parquet_option (version_from_str lib) b e = Inr b') \<longleftrightarrow> parquet_entry_ok lib e"
    by (cases e) (simp add: parquet_option_def parquet_entry_ok_def entry_simps)
qed

interpretation lance_parser: option_parser "lance_option (mode_try_from lib)" "lance_entry_ok lib"
  for lib
proof unfold_locales
  fix b e
  show "(\<exists>b'. lance_option (mode_try_from lib) b e = Inr b') \<longleftrightarrow> lance_entry_ok lib e"
    by (cases e) (simp add: lance_option_def lance_entry_ok_def entry_simps)
qed

interpretation vortex_parser: option_parser vortex_option vortex_entry_ok
proof unfold_locales
  fix b e
  show "(\<exists>b'. vortex_option b e = Inr b') \<longleftrightarrow> vortex_entry_ok e"
    by (cases e) (simp add: vortex_option_def vortex_entry_ok_def entry_simps)
qed

fun entry_ok :: "format_lib \<Rightarrow> Format \<Rightarrow> string \<times> json \<Rightarrow> bool" where
  "entry_ok lib Parquet = parquet_entry_ok lib"
| "entry_ok lib Lance = lance_entry_ok lib"
| "entry_ok lib Vortex = vortex_entry_ok"

lemma lowercase_format [simp]: "to_lowercase (format_as_str f) = format_as_str f"
  by (cases f) (simp_all add: to_lowercase_def lower_char_def)

lemma validate_dispatch:
  "validate_format_options lib (format_as_str f) options =
     (case f of
        Parquet \<Rightarrow> rbind (parquet_parse_write_options (version_from_str lib) (Some options)) (\<lambda>_. Inr ())
      | Lance \<Rightarrow> rbind (lance_parse_write_options (mode_try_from lib) (Some options)) (\<lambda>_. Inr ())
      | Vortex \<Rightarrow> rbind (vortex_parse_write_options (Some options)) (\<lambda>_. Inr ()))"
  unfolding validate_format_options_def lowercase_format by (cases f) simp_all

lemma rbind_unit_ok: "rbind m (\<lambda>_. Inr ()) = Inr () \<longleftrightarrow> (\<exists>x. m = Inr x)"
  by (auto simp: result_simps)

lemma validate_options_accepts:
  "validate_format_options lib (format_as_str f) options = Inr ()
     \<longleftrightarrow> (\<exists>m. options = JObject m \<and> list_all (entry_ok lib f) m)"
proof (cases f)
  case Parquet
  then show ?thesis
    unfolding validate_dispatch parquet_parse_write_options_def
    by (simp add: rbind_unit_ok parquet_parser.object_ok list_all_iff)
next
  case Lance
  then show ?thesis
    unfolding validate_dispatch lance_parse_write_options_def
    by (simp add: rbind_unit_ok lance_parser.object_ok list_all_iff)
next
  case Vortex
  then show ?thesis
    unfolding validate_dispatch vortex_parse_write_options_def
    by (simp add: rbind_unit_ok vortex_parser.object_ok list_all_iff)
qed

text \<open>Validation of stored writer options is exact: for every format, the options are
  accepted precisely when they are a JSON object all of whose entries are options of that
  format with a value of the right kind; the order of the entries and the settings made before
  an entry play no role.\<close>

lemma validate_format_options_iff:
  "validate_format_options lib (format_as_str f) options = Inr ()
     \<longleftrightarrow> (\<exists>m. options = JObject m \<and> list_all (entry_ok lib f) m)"
  by (rule validate_options_accepts)

text \<open>Format names round-trip and parse case-insensitively: a text parses to a format
  exactly when its lower-case form is that format's canonical name, so the canonical name
  parses to its format and no text parses to two formats.\<close>

lemma format_from_str_iff:
  "(format_from_str s = Inr f \<longleftrightarrow> to_lowercase s = format_as_str f)
   \<and> format_from_str (format_as_str f) = Inr f"
proof -
  have "format_from_str t = Inr f \<longleftrightarrow> to_lowercase t = format_as_str f" for t
    by (cases f) (auto simp: format_from_str_def Let_def)
  then show ?thesis by simp
qed

end
