(* ===== verification/Specs.thy ===== *)
theory Specs
  imports DataModel Limits Properties FileFormats
begin

text \<open>
  The request types of \<open>catalog/models.rs\<close> and their validators: \<open>ColumnSpec\<close>,
  \<open>SchemaSpec::validate\<close>, \<open>FileSpec::validate\<close>, \<open>Mutation::validate\<close>. Each validator is
  characterised by the conditions it enforces; the hash set of seen names or identifiers is a
  list of the elements met so far.
\<close>

definition table_ident_new :: "string \<Rightarrow> string \<Rightarrow> table_ident" where
  "table_ident_new namespace name = \<lparr>ti_namespace = namespace, ti_name = name\<rparr>"

definition table_ident_to_string :: "table_ident \<Rightarrow> string" where
  "table_ident_to_string ident = ti_namespace ident @ ''.'' @ ti_name ident"

definition column_spec_new :: "string \<Rightarrow> data_type \<Rightarrow> column_spec" where
  "column_spec_new name t = \<lparr>cs_name = name, cs_column_type = t, cs_is_nullable = False\<rparr>"

definition column_spec_nullable :: "column_spec \<Rightarrow> column_spec" where
  "column_spec_nullable c = c\<lparr>cs_is_nullable := True\<rparr>"

definition schema_spec_new :: schema_spec where
  "schema_spec_new = \<lparr>ss_columns = []\<rparr>"

definition with_column :: "schema_spec \<Rightarrow> column_spec \<Rightarrow> schema_spec" where
  "with_column s c = s\<lparr>ss_columns := ss_columns s @ [c]\<rparr>"

definition with_columns :: "schema_spec \<Rightarrow> column_spec list \<Rightarrow> schema_spec" where
  "with_columns s cs = s\<lparr>ss_columns := ss_columns s @ cs\<rparr>"

section \<open>Schema specifications\<close>

fun validate_columns :: "string list \<Rightarrow> column_spec list \<Rightarrow> catalog_error + unit" where
  "validate_columns seen [] = Inr ()"
| "validate_columns seen (column # rest) =
     (if trim (cs_name column) = [] then Inl (InvalidSpec ColumnNameEmpty)
      else if cs_name column \<in> set seen then Inl (InvalidSpec (DuplicateColumnName (cs_name column)))
      else validate_columns (cs_name column # seen) rest)"

definition schema_spec_validate :: "schema_spec \<Rightarrow> catalog_error + unit" where
  "schema_spec_validate s =
     (if ss_columns s = [] then Inl (InvalidSpec SchemaNoColumns)
      else if MAX_COLUMNS_PER_SCHEMA < len_u32 (ss_columns s)
      then Inl (LimitExceeded (SchemaColumnLimit (length (ss_columns s)) MAX_COLUMNS_PER_SCHEMA))
      else validate_columns [] (ss_columns s))"

section \<open>File specifications\<close>

definition file_spec_new :: "Format \<Rightarrow> string \<Rightarrow> i64 \<Rightarrow> i64 \<Rightarrow> file_spec" where
  "file_spec_new fmt path record_count file_size_bytes =
     \<lparr>fs_file_uuid = None, fs_file_format = fmt, fs_file_path = path,
      fs_record_count = record_count, fs_file_size_bytes = file_size_bytes,
      fs_partition_values = None, fs_format_options = None\<rparr>"

definition with_uuid :: "file_spec \<Rightarrow> uuid \<Rightarrow> file_spec" where
  "with_uuid f u = f\<lparr>fs_file_uuid := Some u\<rparr>"

definition with_partition_values :: "file_spec \<Rightarrow> json \<Rightarrow> file_spec" where
  "with_partition_values f v = f\<lparr>fs_partition_values := Some v\<rparr>"

definition with_format_options :: "file_spec \<Rightarrow> json \<Rightarrow> file_spec" where
  "with_format_options f v = f\<lparr>fs_format_options := Some v\<rparr>"

definition with_format_options_checked ::
  "format_lib \<Rightarrow> file_spec \<Rightarrow> json \<Rightarrow> catalog_error + file_spec" where
  "with_format_options_checked lib f options =
     rbind (map_err (\<lambda>err. InvalidSpec (FormatOptionsInvalid err))
              (validate_format_options lib (format_as_str (fs_file_format f)) options))
       (\<lambda>_. Inr (f\<lparr>fs_format_options := Some options\<rparr>))"

definition file_spec_validate :: "format_lib \<Rightarrow> file_spec \<Rightarrow> catalog_error + unit" where
  "file_spec_validate lib f =
     (if trim (fs_file_path f) = [] then Inl (InvalidSpec FilePathEmpty)
      else if sint (fs_record_count f) < 0 then Inl (InvalidSpec RecordCountNegative)
      else if sint (fs_file_size_bytes f) < 0 then Inl (InvalidSpec FileSizeNegative)
      else if (case fs_partition_values f of Some v \<Rightarrow> \<not> is_object v | None \<Rightarrow> False)
      then Inl (InvalidSpec PartitionValuesNotObject)
      else case fs_format_options f of
             Some options \<Rightarrow>
               if \<not> is_object options then Inl (InvalidSpec FormatOptionsNotObject)
               else map_err (\<lambda>err. InvalidSpec (FormatOptionsInvalid err))
                      (validate_format_options lib (format_as_str (fs_file_format f)) options)
           | None \<Rightarrow> Inr ())"

section \<open>Mutations\<close>

fun find_duplicate :: "'a list \<Rightarrow> 'a list \<Rightarrow> 'a option" where
  "find_duplicate seen [] = None"
| "find_duplicate seen (x # xs) = (if x \<in> set seen then Some x else find_duplicate (x # seen) xs)"

fun validate_ops :: "nat \<Rightarrow> nat \<Rightarrow> mutation_op list \<Rightarrow> catalog_error + unit" where
  "validate_ops update_schema_ops set_properties_ops [] = Inr ()"
| "validate_ops update_schema_ops set_properties_ops (op # ops) =
     (case op of
        UpdateSchema _ \<Rightarrow>
          if update_schema_ops + 1 > 1 then Inl (InvalidSpec MultipleUpdateSchema)
          else validate_ops (update_schema_ops + 1) set_properties_ops ops
      | SetProperties _ \<Rightarrow>
          if set_properties_ops + 1 > 1 then Inl (InvalidSpec MultipleSetProperties)
          else validate_ops update_schema_ops (set_properties_ops + 1) ops
      | DeleteFiles file_uuids \<Rightarrow>
          (case find_duplicate [] file_uuids of
             Some u \<Rightarrow> Inl (InvalidSpec (DuplicateFileUuid u))
           | None \<Rightarrow> validate_ops update_schema_ops set_properties_ops ops)
      | RemoveProperties keys \<Rightarrow>
          (case find_duplicate [] (map property_key_as_str keys) of
             Some k \<Rightarrow> Inl (InvalidSpec (DuplicatePropertyKey k))
           | None \<Rightarrow> validate_ops update_schema_ops set_properties_ops ops)
      | AppendFiles _ \<Rightarrow> validate_ops update_schema_ops set_properties_ops ops)"

definition mutation_validate :: "mutation \<Rightarrow> catalog_error + unit" where
  "mutation_validate m = validate_ops 0 0 (mu_operations m)"

section \<open>What the validators enforce\<close>

lemma validate_columns_ok:
  "validate_columns seen cs = Inr () \<longleftrightarrow>
     (\<forall>c \<in> set cs. trim (cs_name c) \<noteq> []) \<and> distinct (map cs_name cs)
     \<and> set (map cs_name cs) \<inter> set seen = {}"
  by (induction cs arbitrary: seen) auto

lemma find_duplicate_None: "find_duplicate seen xs = None \<longleftrightarrow> distinct xs \<and> set xs \<inter> set seen = {}"
  by (induction xs arbitrary: seen) auto

lemma find_duplicate_Some: "find_duplicate [] xs = Some x \<Longrightarrow> \<not> distinct xs"
  using find_duplicate_None [of "[]" xs] by auto

definition schema_spec_ok :: "schema_spec \<Rightarrow> bool" where
  "schema_spec_ok s \<longleftrightarrow> ss_columns s \<noteq> [] \<and> \<not> MAX_COLUMNS_PER_SCHEMA < len_u32 (ss_columns s)
     \<and> list_all (\<lambda>c. trim (cs_name c) \<noteq> []) (ss_columns s) \<and> distinct (map cs_name (ss_columns s))"

lemma schema_spec_validate_ok: "schema_spec_validate s = Inr () \<longleftrightarrow> schema_spec_ok s"
  by (auto simp: schema_spec_validate_def schema_spec_ok_def validate_columns_ok list_all_iff)

fun is_update_schema :: "mutation_op \<Rightarrow> bool" where
  "is_update_schema (UpdateSchema _) = True"
| "is_update_schema _ = False"

fun is_set_properties :: "mutation_op \<Rightarrow> bool" where
  "is_set_properties (SetProperties _) = True"
| "is_set_properties _ = False"

fun op_distinct :: "mutation_op \<Rightarrow> bool" where
  "op_distinct (DeleteFiles us) = distinct us"
| "op_distinct (RemoveProperties ks) = distinct (map property_key_as_str ks)"
| "op_distinct _ = True"

lemma validate_ops_ok:
  "validate_ops u s ops = Inr () \<longleftrightarrow>
     (length (filter is_update_schema ops) = 0 \<or> u + length (filter is_update_schema ops) \<le> 1)
     \<and> (length (filter is_set_properties ops) = 0 \<or> s + length (filter is_set_properties ops) \<le> 1)
     \<and> list_all op_distinct ops"
proof (induction ops arbitrary: u s)
  case (Cons op ops)
  show ?case
    by (cases op) (auto simp: Cons find_duplicate_None split: option.splits dest: find_duplicate_Some)
qed simp


text \<open>A mutation is accepted exactly when it updates the schema at most once, sets the
  properties at most once, and no delete or property removal lists an element twice.\<close>

lemma mutation_validate_iff:
  "mutation_validate m = Inr () \<longleftrightarrow>
     length (filter is_update_schema (mu_operations m)) \<le> 1
     \<and> length (filter is_set_properties (mu_operations m)) \<le> 1
     \<and> list_all op_distinct (mu_operations m)"
  by (auto simp: mutation_validate_def validate_ops_ok)

text \<open>A file specification is accepted exactly when its path is not blank, its counts are
  not negative as signed 64-bit integers, its partition values, if any, are a JSON object, and
  its writer options, if any, are an object of options its format understands.\<close>

lemma file_spec_validate_iff:
  "file_spec_validate lib f = Inr () \<longleftrightarrow>
     (\<exists>x \<in> set (fs_file_path f). \<not> is_whitespace x)
     \<and> 0 \<le> sint (fs_record_count f) \<and> 0 \<le> sint (fs_file_size_bytes f)
     \<and> pred_option is_object (fs_partition_values f)
     \<and> pred_option (\<lambda>v. \<exists>m. v = JObject m \<and> list_all (entry_ok lib (fs_file_format f)) m)
         (fs_format_options f)"
proof -
  have fmt: "map_err h (validate_format_options lib (format_as_str fm) v) = Inr () \<longleftrightarrow>
      (\<exists>m. v = JObject m \<and> list_all (entry_ok lib fm) m)" for h fm v
    by (simp add: map_err_eq_Inr validate_options_accepts)
  show ?thesis
    unfolding file_spec_validate_def
    by (auto simp: fmt trim_empty_iff split: option.splits elim: is_object.elims)
qed

end
