(* ===== verification/Batch.thy ===== *)
theory Batch
  imports Database DataType Specs "HOL-Library.Monad_Syntax"
begin

text \<open>
  The multi-row statements the catalog builds at run time: placeholder text in the two SQL
  dialects, positional binding, and the chunking of large inserts and deletes. A placeholder
  \<open>?\<close> of SQLite takes the number after the largest one assigned so far; \<open>?n\<close> and Postgres'
  \<open>$n\<close> name parameter \<open>n\<close>. The lemmas show that in both dialects every placeholder of a
  statement receives the value meant for it, that a statement never binds more parameters than
  its backend admits, and that a chunked insert has the effect of one insert of all rows, with
  ordinal positions running through the chunks.
\<close>

section \<open>Placeholders and binding\<close>

datatype (plugins only: code size) placeholder = Anon | Numbered nat

datatype (plugins only: code size) sql_value =
    VNull
  | VUuid uuid
  | VBytes bytes
  | VText string
  | VInt32 i32
  | VInt64 i64
  | VBool bool

fun assign :: "nat \<Rightarrow> placeholder list \<Rightarrow> nat list \<times> nat" where
  "assign hi [] = ([], hi)"
| "assign hi (Anon # ps) = (case assign (Suc hi) ps of (is, l) \<Rightarrow> (Suc hi # is, l))"
| "assign hi (Numbered n # ps) = (case assign (max hi n) ps of (is, l) \<Rightarrow> (n # is, l))"

fun assign_rows :: "nat \<Rightarrow> placeholder list list \<Rightarrow> nat list list" where
  "assign_rows hi [] = []"
| "assign_rows hi (g # gs) = (case assign hi g of (is, l) \<Rightarrow> is # assign_rows l gs)"

definition bound :: "'v list \<Rightarrow> nat \<Rightarrow> 'v option" where
  "bound binds i = (if 0 < i \<and> i \<le> length binds then Some (binds ! (i - 1)) else None)"

definition values_of :: "placeholder list list \<Rightarrow> 'v list \<Rightarrow> 'v option list list" where
  "values_of phs binds = map (map (bound binds)) (assign_rows 0 phs)"

definition sqlite_row_placeholders :: "nat \<Rightarrow> nat \<Rightarrow> placeholder list list" where
  "sqlite_row_placeholders k n = replicate n (replicate k Anon)"

fun pg_rows :: "nat \<Rightarrow> nat \<Rightarrow> nat \<Rightarrow> placeholder list list" where
  "pg_rows k param 0 = []"
| "pg_rows k param (Suc n) = map Numbered [param ..< param + k] # pg_rows k (param + k) n"

definition postgres_row_placeholders :: "nat \<Rightarrow> nat \<Rightarrow> placeholder list list" where
  "postgres_row_placeholders k n = pg_rows k 1 n"

fun row_placeholders :: "DbKind \<Rightarrow> nat \<Rightarrow> nat \<Rightarrow> placeholder list list" where
  "row_placeholders Sqlite = sqlite_row_placeholders"
| "row_placeholders Postgres = postgres_row_placeholders"

fun in_placeholders :: "DbKind \<Rightarrow> nat \<Rightarrow> placeholder list" where
  "in_placeholders Sqlite n = map (\<lambda>i. Numbered (i + 3)) [0 ..< n]"
| "in_placeholders Postgres n = map (\<lambda>i. Numbered (i + 2)) [1 ..< Suc n]"

section \<open>The dialect contract\<close>

text \<open>What a dialect's row placeholders promise: the \<open>i\<close>-th row of \<open>k\<close> placeholders stands
  for the \<open>i\<close>-th block of \<open>k\<close> bound values.\<close>

locale sql_dialect =
  fixes placeholders :: "nat \<Rightarrow> nat \<Rightarrow> placeholder list list"
  assumes assign_placeholders:
    "assign_rows 0 (placeholders k n) = map (\<lambda>i. [Suc (i * k) ..< Suc (i * k) + k]) [0 ..< n]"
begin

lemma values_of_placeholders:
  assumes len: "\<And>r. r \<in> set rows \<Longrightarrow> length r = k"
  shows "values_of (placeholders k (length rows)) (concat rows) = map (map Some) rows"
proof -
  have cl: "length (concat rows) = length rows * k"
    using len by (induction rows) auto
  have nth: "concat rs ! (i * k + j) = rs ! i ! j"
    if "\<And>r. r \<in> set rs \<Longrightarrow> length r = k" "i < length rs" "j < k" for rs :: "'a list list" and i j
    using that
  proof (induction rs arbitrary: i)
    case (Cons r rs)
    then show ?case by (cases i) (auto simp: nth_append)
  qed simp
  have row: "map (bound (concat rows)) [Suc (i * k) ..< Suc (i * k) + k] = map Some (rows ! i)"
    if i: "i < length rows" for i
  proof (rule nth_equalityI)
    show "length (map (bound (concat rows)) [Suc (i * k) ..< Suc (i * k) + k])
        = length (map Some (rows ! i))"
      using len i by (simp del: upt_Suc)
    fix j
    assume "j < length (map (bound (concat rows)) [Suc (i * k) ..< Suc (i * k) + k])"
    then have j: "j < k" by (simp del: upt_Suc)
    have "(i + 1) * k \<le> length rows * k"
      using i by (intro mult_le_mono1) simp
    with j have "i * k + j < length (concat rows)" by (simp add: cl)
    then show "map (bound (concat rows)) [Suc (i * k) ..< Suc (i * k) + k] ! j
        = map Some (rows ! i) ! j"
      using j i len by (simp add: bound_def nth del: upt_Suc)
  qed
  show ?thesis
    unfolding values_of_def assign_placeholders map_map
    by (rule nth_equalityI) (simp_all only: length_map length_upt nth_map nth_upt diff_zero add_0 comp_def row)
qed

end

lemma assign_Anon: "assign b (replicate k Anon) = ([Suc b ..< Suc b + k], b + k)"
  by (induction k arbitrary: b) (simp_all add: upt_conv_Cons)

lemma assign_Numbered:
  "assign b (map Numbered [Suc b ..< Suc b + k]) = ([Suc b ..< Suc b + k], b + k)"
proof (induction k arbitrary: b)
  case (Suc k)
  have "[Suc b ..< Suc b + Suc k] = Suc b # [Suc (Suc b) ..< Suc (Suc b) + k]"
    by (simp add: upt_conv_Cons)
  then show ?case using Suc [of "Suc b"] by simp
qed simp

lemma shift_upt: "map f [b ..< b + Suc n] = f b # map f [Suc b ..< Suc b + n]"
  by (simp add: upt_conv_Cons del: upt_Suc)

lemma assign_rows_sqlite:
  "assign_rows (b * k) (replicate n (replicate k Anon))
     = map (\<lambda>i. [Suc (i * k) ..< Suc (i * k) + k]) [b ..< b + n]"
proof (induction n arbitrary: b)
  case (Suc n)
  show ?case
    using Suc [of "Suc b"] unfolding shift_upt by (simp add: assign_Anon add.commute)
qed simp

lemma assign_rows_pg:
  "assign_rows (b * k) (pg_rows k (Suc (b * k)) n)
     = map (\<lambda>i. [Suc (i * k) ..< Suc (i * k) + k]) [b ..< b + n]"
proof (induction n arbitrary: b)
  case (Suc n)
  have eq: "assign (b * k) (map Numbered [Suc (b * k) ..< Suc (b * k) + k])
      = ([Suc (b * k) ..< Suc (b * k) + k], Suc b * k)"
    using assign_Numbered [of "b * k" k] by (simp add: add.commute)
  have next_param: "Suc (b * k) + k = Suc (Suc b * k)" by simp
  show ?case
    unfolding shift_upt pg_rows.simps assign_rows.simps eq prod.case
    using Suc [of "Suc b"] by (simp add: next_param [symmetric] del: mult_Suc)
qed simp

interpretation sqlite_dialect: sql_dialect sqlite_row_placeholders
  using assign_rows_sqlite [of 0] by unfold_locales (simp add: sqlite_row_placeholders_def)

interpretation postgres_dialect: sql_dialect postgres_row_placeholders
  using assign_rows_pg [of 0] by unfold_locales (simp add: postgres_row_placeholders_def)

lemma values_of_row_placeholders:
  assumes "\<And>r. r \<in> set rows \<Longrightarrow> length r = k"
  shows "values_of (row_placeholders db k (length rows)) (concat rows) = map (map Some) rows"
  using sqlite_dialect.values_of_placeholders [OF assms]
    postgres_dialect.values_of_placeholders [OF assms]
  by (cases db) simp_all

lemma in_placeholders_eq: "in_placeholders db n = map Numbered [3 ..< n + 3]"
  by (cases db) (rule nth_equalityI; simp del: upt_Suc)+

section \<open>Library code and random identifiers\<close>

text \<open>Third-party code the catalog calls: the option parsers of the file formats, the JSON
  parser and printer, and the Arrow IPC codec. \<open>Uuid::new_v4\<close> is a sequence of draws
  \<open>v4 :: nat \<Rightarrow> uuid\<close>; the code that draws threads the index of the next one.\<close>

record libs =
  lib_format :: format_lib
  lib_json :: json_lib
  lib_schema_to_fb :: "arrow_schema \<Rightarrow> bytes"
  lib_root_as_schema :: "bytes \<Rightarrow> string + arrow_schema"

section \<open>Typed columns of a bound row\<close>

fun uuid_val :: "sql_value option \<Rightarrow> uuid option" where
  "uuid_val (Some (VUuid u)) = Some u"
| "uuid_val _ = None"

fun text_val :: "sql_value option \<Rightarrow> string option" where
  "text_val (Some (VText s)) = Some s"
| "text_val _ = None"

fun nullable_text_val :: "sql_value option \<Rightarrow> string option option" where
  "nullable_text_val (Some (VText s)) = Some (Some s)"
| "nullable_text_val (Some VNull) = Some None"
| "nullable_text_val _ = None"

fun bytes_val :: "sql_value option \<Rightarrow> bytes option" where
  "bytes_val (Some (VBytes b)) = Some b"
| "bytes_val _ = None"

fun int32_val :: "sql_value option \<Rightarrow> i32 option" where
  "int32_val (Some (VInt32 n)) = Some n"
| "int32_val _ = None"

fun int64_val :: "sql_value option \<Rightarrow> i64 option" where
  "int64_val (Some (VInt64 n)) = Some n"
| "int64_val _ = None"

fun bool_val :: "sql_value option \<Rightarrow> bool option" where
  "bool_val (Some (VBool b)) = Some b"
| "bool_val _ = None"

fun bind_text :: "string option \<Rightarrow> sql_value" where
  "bind_text None = VNull"
| "bind_text (Some s) = VText s"

lemma nullable_text_val_bind [simp]: "nullable_text_val (Some (bind_text t)) = Some t"
  by (cases t) simp_all

section \<open>Batch insert of columns\<close>

type_synonym column_data = "uuid \<times> string \<times> bytes \<times> i32 \<times> bool"

fun bind_column :: "uuid \<Rightarrow> column_data \<Rightarrow> sql_value list" where
  "bind_column schema_uuid (column_uuid, name, encoded_type, ordinal_position, is_nullable) =
     [VUuid column_uuid, VUuid schema_uuid, VText name, VBytes encoded_type,
      VInt32 ordinal_position, VBool is_nullable]"

definition column_of_values :: "sql_value option list \<Rightarrow> column_row option" where
  "column_of_values vs =
     (if length vs \<noteq> 6 then None else do {
        u \<leftarrow> uuid_val (vs ! 0);
        s \<leftarrow> uuid_val (vs ! 1);
        n \<leftarrow> text_val (vs ! 2);
        t \<leftarrow> bytes_val (vs ! 3);
        p \<leftarrow> int32_val (vs ! 4);
        b \<leftarrow> bool_val (vs ! 5);
        Some \<lparr>c_column_uuid = u, c_schema_uuid = s, c_column_name = n, c_column_type = t,
              c_ordinal_position = p, c_is_nullable = b\<rparr>
      })"

definition execute_insert_columns ::
  "placeholder list list \<Rightarrow> sql_value list \<Rightarrow> db \<Rightarrow> sqlx_error + db" where
  "execute_insert_columns phs binds d =
     rbind (mapM (\<lambda>vs. ok_or (ColumnDecode ''columns'') (column_of_values vs))
              (values_of phs binds))
       (\<lambda>rows. insert_columns rows d)"

definition column_row_data ::
  "libs \<Rightarrow> (nat \<Rightarrow> uuid) \<Rightarrow> nat \<Rightarrow> nat \<Rightarrow> nat \<Rightarrow> column_spec list \<Rightarrow> catalog_error + column_data list" where
  "column_row_data lib v4 k col_chunk_size chunk_index col_chunk =
     mapM (\<lambda>(i, column).
        rbind (encode_data_type (lib_schema_to_fb lib) (cs_column_type column)) (\<lambda>encoded_type.
          Inr (v4 (k + i), cs_name column, encoded_type,
               word_of_nat (chunk_index * col_chunk_size + i + 1), cs_is_nullable column)))
       (enumerate 0 col_chunk)"

definition insert_column_chunk ::
  "libs \<Rightarrow> DbKind \<Rightarrow> (nat \<Rightarrow> uuid) \<Rightarrow> uuid \<Rightarrow> nat \<times> db \<Rightarrow> nat \<times> column_spec list
     \<Rightarrow> catalog_error + nat \<times> db" where
  "insert_column_chunk lib kind v4 schema_uuid s c =
     (case (s, c) of ((k, d), (chunk_index, col_chunk)) \<Rightarrow>
        rbind (column_row_data lib v4 k (unat (batch_insert_columns_chunk kind)) chunk_index col_chunk)
          (\<lambda>row_data.
             rbind (map_err Storage
                      (execute_insert_columns
                         (row_placeholders kind 6 (length row_data))
                         (concat (map (bind_column schema_uuid) row_data)) d))
               (\<lambda>d'. Inr (k + length col_chunk, d'))))"

definition insert_column_chunks ::
  "libs \<Rightarrow> DbKind \<Rightarrow> (nat \<Rightarrow> uuid) \<Rightarrow> uuid \<Rightarrow> column_spec list \<Rightarrow> nat \<times> db \<Rightarrow> catalog_error + nat \<times> db" where
  "insert_column_chunks lib kind v4 schema_uuid columns s =
     foldM (insert_column_chunk lib kind v4 schema_uuid) s
       (enumerate 0 (chunks (unat (batch_insert_columns_chunk kind)) columns))"

section \<open>Batch insert of files\<close>

type_synonym file_data =
  "uuid \<times> string \<times> string \<times> i64 \<times> i64 \<times> string option \<times> string option"

fun bind_file :: "uuid \<Rightarrow> uuid \<Rightarrow> file_data \<Rightarrow> sql_value list" where
  "bind_file table_uuid transaction_id (file_uuid, format, path, rc, bytes_size, part, format_opts) =
     [VUuid file_uuid, VUuid table_uuid, VText format, VText path, VInt64 rc, VInt64 bytes_size,
      VUuid transaction_id, bind_text part, bind_text format_opts]"

definition file_of_values :: "sql_value option list \<Rightarrow> file_row option" where
  "file_of_values vs =
     (if length vs \<noteq> 9 then None else do {
        u \<leftarrow> uuid_val (vs ! 0);
        t \<leftarrow> uuid_val (vs ! 1);
        f \<leftarrow> text_val (vs ! 2);
        p \<leftarrow> text_val (vs ! 3);
        c \<leftarrow> int64_val (vs ! 4);
        z \<leftarrow> int64_val (vs ! 5);
        a \<leftarrow> uuid_val (vs ! 6);
        pv \<leftarrow> nullable_text_val (vs ! 7);
        fo \<leftarrow> nullable_text_val (vs ! 8);
        Some \<lparr>f_file_uuid = u, f_table_uuid = t, f_file_format = f, f_file_path = p,
              f_record_count = c, f_file_size_bytes = z, f_added_in = a, f_removed_in = None,
              f_partition_values = pv, f_format_options = fo\<rparr>
      })"

definition execute_insert_files ::
  "placeholder list list \<Rightarrow> sql_value list \<Rightarrow> db \<Rightarrow> sqlx_error + db" where
  "execute_insert_files phs binds d =
     rbind (mapM (\<lambda>vs. ok_or (ColumnDecode ''files'') (file_of_values vs))
              (values_of phs binds))
       (\<lambda>rows. insert_files rows d)"

definition file_row_data ::
  "libs \<Rightarrow> (nat \<Rightarrow> uuid) \<Rightarrow> nat \<times> file_data list \<Rightarrow> file_spec \<Rightarrow> catalog_error + nat \<times> file_data list" where
  "file_row_data lib v4 s f =
     (case s of (k, row_data) \<Rightarrow>
        rbind (file_spec_validate (lib_format lib) f) (\<lambda>_.
        (let (file_uuid, k') = (case fs_file_uuid f of Some u \<Rightarrow> (u, k) | None \<Rightarrow> (v4 k, k + 1)) in
         rbind (serialize_json_optional (lib_json lib) (fs_partition_values f)) (\<lambda>partition_text.
         rbind (serialize_json_optional (lib_json lib) (fs_format_options f)) (\<lambda>format_text.
           Inr (k', row_data @ [(file_uuid, format_as_str (fs_file_format f), fs_file_path f,
                                 fs_record_count f, fs_file_size_bytes f, partition_text, format_text)]))))))"

definition insert_file_chunk ::
  "libs \<Rightarrow> DbKind \<Rightarrow> (nat \<Rightarrow> uuid) \<Rightarrow> uuid \<Rightarrow> uuid \<Rightarrow> nat \<times> db \<Rightarrow> file_spec list
     \<Rightarrow> catalog_error + nat \<times> db" where
  "insert_file_chunk lib kind v4 table_uuid transaction_id s chunk =
     (case s of (k, d) \<Rightarrow>
        rbind (foldM (file_row_data lib v4) (k, []) chunk) (\<lambda>(k', row_data).
          rbind (map_err Storage
                   (execute_insert_files (row_placeholders kind 9 (length row_data))
                      (concat (map (bind_file table_uuid transaction_id) row_data)) d))
            (\<lambda>d'. Inr (k', d'))))"

definition insert_file_chunks ::
  "libs \<Rightarrow> DbKind \<Rightarrow> (nat \<Rightarrow> uuid) \<Rightarrow> uuid \<Rightarrow> uuid \<Rightarrow> file_spec list \<Rightarrow> nat \<times> db
     \<Rightarrow> catalog_error + nat \<times> db" where
  "insert_file_chunks lib kind v4 table_uuid transaction_id files s =
     foldM (insert_file_chunk lib kind v4 table_uuid transaction_id) s
       (chunks (unat BATCH_INSERT_FILES_CHUNK) files)"

section \<open>Batch delete of files\<close>

definition execute_delete_files ::
  "placeholder list \<Rightarrow> sql_value list \<Rightarrow> db \<Rightarrow> sqlx_error + db" where
  "execute_delete_files phs binds d =
     (let value = (\<lambda>i. ok_or (ColumnDecode ''files'') (uuid_val (bound binds i))) in
      rbind (value 1) (\<lambda>transaction_id.
      rbind (value 2) (\<lambda>table_uuid.
      rbind (mapM value (fst (assign 2 phs))) (\<lambda>uuids.
        update_files_removed transaction_id table_uuid uuids d))))"

definition delete_file_chunk ::
  "DbKind \<Rightarrow> uuid \<Rightarrow> uuid \<Rightarrow> db \<Rightarrow> uuid list \<Rightarrow> catalog_error + db" where
  "delete_file_chunk kind table_uuid transaction_id d chunk =
     map_err Storage
       (execute_delete_files (in_placeholders kind (length chunk))
          ([VUuid transaction_id, VUuid table_uuid] @ map VUuid chunk) d)"

definition delete_file_chunks ::
  "DbKind \<Rightarrow> uuid \<Rightarrow> uuid \<Rightarrow> uuid list \<Rightarrow> db \<Rightarrow> catalog_error + db" where
  "delete_file_chunks kind table_uuid transaction_id file_uuids d =
     foldM (delete_file_chunk kind table_uuid transaction_id) d
       (chunks (unat BATCH_DELETE_FILES_CHUNK) file_uuids)"

section \<open>Bound rows arrive as meant\<close>

fun column_of_data :: "uuid \<Rightarrow> column_data \<Rightarrow> column_row" where
  "column_of_data schema_uuid (u, n, t, p, b) =
     \<lparr>c_column_uuid = u, c_schema_uuid = schema_uuid, c_column_name = n, c_column_type = t,
      c_ordinal_position = p, c_is_nullable = b\<rparr>"

fun file_of_data :: "uuid \<Rightarrow> uuid \<Rightarrow> file_data \<Rightarrow> file_row" where
  "file_of_data table_uuid transaction_id (u, fmt, path, rc, z, part, opts) =
     \<lparr>f_file_uuid = u, f_table_uuid = table_uuid, f_file_format = fmt, f_file_path = path,
      f_record_count = rc, f_file_size_bytes = z, f_added_in = transaction_id,
      f_removed_in = None, f_partition_values = part, f_format_options = opts\<rparr>"

lemma column_of_bound: "column_of_values (map Some (bind_column su r)) = Some (column_of_data su r)"
  by (cases r) (simp add: column_of_values_def)

lemma file_of_bound: "file_of_values (map Some (bind_file tu x r)) = Some (file_of_data tu x r)"
  by (cases r) (simp add: file_of_values_def)

lemma execute_insert_columns_bound:
  "execute_insert_columns (row_placeholders kind 6 (length rs)) (concat (map (bind_column su) rs)) d
     = insert_columns (map (column_of_data su) rs) d"
proof -
  have "values_of (row_placeholders kind 6 (length (map (bind_column su) rs)))
      (concat (map (bind_column su) rs)) = map (map Some) (map (bind_column su) rs)"
    by (rule values_of_row_placeholders) auto
  moreover have "mapM (\<lambda>vs. ok_or (ColumnDecode ''columns'') (column_of_values vs))
      (map (map Some) (map (bind_column su) rs)) = Inr (map (column_of_data su) rs)"
    by (induction rs) (simp_all add: column_of_bound)
  ultimately show ?thesis by (simp add: execute_insert_columns_def)
qed

lemma execute_insert_files_bound:
  "execute_insert_files (row_placeholders kind 9 (length rs)) (concat (map (bind_file tu x) rs)) d
     = insert_files (map (file_of_data tu x) rs) d"
proof -
  have "values_of (row_placeholders kind 9 (length (map (bind_file tu x) rs)))
      (concat (map (bind_file tu x) rs)) = map (map Some) (map (bind_file tu x) rs)"
    by (rule values_of_row_placeholders) auto
  moreover have "mapM (\<lambda>vs. ok_or (ColumnDecode ''files'') (file_of_values vs))
      (map (map Some) (map (bind_file tu x) rs)) = Inr (map (file_of_data tu x) rs)"
    by (induction rs) (simp_all add: file_of_bound)
  ultimately show ?thesis by (simp add: execute_insert_files_def)
qed

lemma assign_in_placeholders: "fst (assign 2 (in_placeholders kind n)) = [3 ..< n + 3]"
  using assign_Numbered [of 2 n] by (simp add: in_placeholders_eq add.commute numeral_3_eq_3 del: upt_Suc)

lemma execute_delete_files_bound:
  "execute_delete_files (in_placeholders kind (length us)) ([VUuid x, VUuid tu] @ map VUuid us) d
     = update_files_removed x tu us d"
proof -
  let ?binds = "[VUuid x, VUuid tu] @ map VUuid us"
  have "mapM (\<lambda>i. ok_or (ColumnDecode ''files'') (uuid_val (bound ?binds i))) [3 ..< length us + 3]
      = Inr (map (\<lambda>i. us ! (i - 3)) [3 ..< length us + 3])"
    by (rule mapM_total) (auto simp: bound_def nth_append numeral_3_eq_3 simp del: append_Cons)
  moreover have "map (\<lambda>i. us ! (i - 3)) [3 ..< length us + 3] = us"
    by (rule nth_equalityI) (simp_all del: upt_Suc)
  ultimately show ?thesis
    by (simp add: execute_delete_files_def assign_in_placeholders bound_def del: upt_Suc)
qed

section \<open>A chunked statement sequence acts like one statement\<close>

definition column_rows ::
  "libs \<Rightarrow> (nat \<Rightarrow> uuid) \<Rightarrow> uuid \<Rightarrow> nat \<Rightarrow> nat \<Rightarrow> column_spec list \<Rightarrow> column_row list" where
  "column_rows lib v4 schema_uuid k ord cs =
     map (\<lambda>(i, c). \<lparr>c_column_uuid = v4 (k + i), c_schema_uuid = schema_uuid,
        c_column_name = cs_name c,
        c_column_type = lib_schema_to_fb lib [Field ''_'' (cs_column_type c) True],
        c_ordinal_position = word_of_nat (ord + i + 1), c_is_nullable = cs_is_nullable c\<rparr>)
       (enumerate 0 cs)"

lemma column_rows_append:
  "column_rows lib v4 su k ord (xs @ ys)
     = column_rows lib v4 su k ord xs @ column_rows lib v4 su (k + length xs) (ord + length xs) ys"
proof -
  have "enumerate (length xs) ys = map (\<lambda>(i, c). (length xs + i, c)) (enumerate 0 ys)"
    by (rule nth_equalityI) (simp_all add: nth_enumerate_eq)
  then show ?thesis
    by (simp add: column_rows_def enumerate_append_eq split_def comp_def add.assoc)
qed

lemma column_row_data_eq:
  "\<exists>ds. column_row_data lib v4 k n ci cs = Inr ds \<and> length ds = length cs
     \<and> map (column_of_data su) ds = column_rows lib v4 su k (ci * n) cs"
proof -
  let ?f = "\<lambda>(i, c). (v4 (k + i), cs_name c, lib_schema_to_fb lib [Field ''_'' (cs_column_type c) True],
      word_of_nat (ci * n + i + 1) :: i32, cs_is_nullable c)"
  have "column_row_data lib v4 k n ci cs = Inr (map ?f (enumerate 0 cs))"
    unfolding column_row_data_def by (rule mapM_total) (auto simp: encode_data_type_def Let_def)
  moreover have "map (column_of_data su) (map ?f (enumerate 0 cs)) = column_rows lib v4 su k (ci * n) cs"
    by (auto simp: column_rows_def)
  ultimately show ?thesis by (intro exI [of _ "map ?f (enumerate 0 cs)"]) simp
qed

lemma insert_columns_append:
  "insert_columns (xs @ ys) d = rbind (insert_columns xs d) (insert_columns ys)"
  by (simp add: insert_columns_def [abs_def] foldM_append)

lemma insert_files_append: "insert_files (xs @ ys) d = rbind (insert_files xs d) (insert_files ys)"
  by (simp add: insert_files_def [abs_def] foldM_append)

lemma insert_column_chunk_eq:
  "insert_column_chunk lib kind v4 su (k, d) (ci, ch) =
     rbind (map_err Storage (insert_columns (column_rows lib v4 su k (ci * 1000) ch) d))
       (\<lambda>d'. Inr (k + length ch, d'))"
proof -
  obtain ds where ds: "column_row_data lib v4 k 1000 ci ch = Inr ds"
    "map (column_of_data su) ds = column_rows lib v4 su k (ci * 1000) ch"
    using column_row_data_eq by blast
  then show ?thesis
    by (simp add: insert_column_chunk_def execute_insert_columns_bound)
qed

lemma insert_column_chunks_eq:
  "insert_column_chunks lib kind v4 su cs (k, d) =
     rbind (map_err Storage (insert_columns (column_rows lib v4 su k 0 cs) d))
       (\<lambda>d'. Inr (k + length cs, d'))"
proof -
  have "foldM (insert_column_chunk lib kind v4 su) (k, d) (enumerate ci (chunks 1000 cs)) =
      rbind (map_err Storage (insert_columns (column_rows lib v4 su k (ci * 1000) cs) d))
        (\<lambda>d'. Inr (k + length cs, d'))" for ci
  proof (induction "1000::nat" cs arbitrary: k d ci rule: chunks.induct)
    case (1 xs)
    show ?case
    proof (cases "length xs \<le> 1000")
      case True
      then show ?thesis
        by (cases "xs = []")
           (simp_all add: chunks_single insert_column_chunk_eq column_rows_def insert_columns_def)
    next
      case False
      let ?h = "take 1000 xs" and ?t = "drop 1000 xs"
      have ne: "xs \<noteq> []" and len: "length ?h = 1000" using False by auto
      have rows: "column_rows lib v4 su k (ci * 1000) xs =
          column_rows lib v4 su k (ci * 1000) ?h @ column_rows lib v4 su (k + 1000) (Suc ci * 1000) ?t"
        using column_rows_append [of lib v4 su k "ci * 1000" ?h ?t] len by (simp add: add.commute)
      have IH: "foldM (insert_column_chunk lib kind v4 su) (k + 1000, d') (enumerate (Suc ci) (chunks 1000 ?t)) =
          rbind (map_err Storage (insert_columns (column_rows lib v4 su (k + 1000) (Suc ci * 1000) ?t) d'))
            (\<lambda>d''. Inr (k + 1000 + length ?t, d''))" for d'
        by (rule 1) (simp add: ne)
      have total: "k + 1000 + length ?t = k + length xs" using False by simp
      show ?thesis
        unfolding rows insert_columns_append
        using IH total len
        by (simp add: chunks_step [of 1000 xs] ne insert_column_chunk_eq map_err_def rbind_def
            split: sum.splits del: mult_Suc)
    qed
  qed
  from this [of 0] show ?thesis by (simp add: insert_column_chunks_def)
qed

definition file_rows ::
  "libs \<Rightarrow> (nat \<Rightarrow> uuid) \<Rightarrow> uuid \<Rightarrow> uuid \<Rightarrow> nat \<Rightarrow> file_spec list \<Rightarrow> catalog_error + nat \<times> file_row list" where
  "file_rows lib v4 table_uuid transaction_id k files =
     rbind (foldM (file_row_data lib v4) (k, []) files)
       (\<lambda>(k', ds). Inr (k', map (file_of_data table_uuid transaction_id) ds))"

lemma file_row_data_acc:
  "file_row_data lib v4 (k, ds) f
     = rbind (file_row_data lib v4 (k, []) f) (\<lambda>(k', es). Inr (k', ds @ es))"
  by (simp add: file_row_data_def rbind_def split: sum.splits option.splits)

lemma foldM_file_row_data_acc:
  "foldM (file_row_data lib v4) (k, ds) fs
     = rbind (foldM (file_row_data lib v4) (k, []) fs) (\<lambda>(k', es). Inr (k', ds @ es))"
proof (induction fs arbitrary: k ds)
  case (Cons f fs)
  show ?case
    by (cases "file_row_data lib v4 (k, []) f")
       (auto simp: file_row_data_acc [of lib v4 k ds] Cons [of _ "_ @ _"] Cons [of _ "_ # _"]
          rbind_assoc split_def intro!: rbind_cong [OF refl], subst Cons, auto simp: rbind_assoc split_def)
qed simp

lemma file_rows_append:
  "file_rows lib v4 tu x k (xs @ ys) =
     rbind (file_rows lib v4 tu x k xs) (\<lambda>(k1, r1).
       rbind (file_rows lib v4 tu x k1 ys) (\<lambda>(k2, r2). Inr (k2, r1 @ r2)))"
proof (cases "foldM (file_row_data lib v4) (k, []) xs")
  case (Inr r)
  obtain k1 ds where r: "r = (k1, ds)" by (cases r)
  show ?thesis
    by (simp add: file_rows_def foldM_append Inr r foldM_file_row_data_acc [of lib v4 k1 ds]
        rbind_assoc split_def)
qed (simp add: file_rows_def foldM_append)

lemma insert_file_chunk_eq:
  "insert_file_chunk lib kind v4 tu x (k, d) ch =
     rbind (file_rows lib v4 tu x k ch) (\<lambda>(k', rows).
       rbind (map_err Storage (insert_files rows d)) (\<lambda>d'. Inr (k', d')))"
  by (simp add: insert_file_chunk_def file_rows_def execute_insert_files_bound rbind_assoc split_def)

lemma foldM_insert_file_chunk:
  "foldM (insert_file_chunk lib kind v4 tu x) (k, d) chs = Inr (k', d') \<longleftrightarrow>
     (\<exists>rows. file_rows lib v4 tu x k (concat chs) = Inr (k', rows) \<and> insert_files rows d = Inr d')"
proof (induction chs arbitrary: k d)
  case Nil
  show ?case by (auto simp: file_rows_def insert_files_def)
next
  case (Cons ch chs)
  show ?case
    by (fastforce simp: Cons insert_file_chunk_eq file_rows_append result_simps insert_files_append)
qed

lemma insert_file_chunks_Inr:
  "insert_file_chunks lib kind v4 tu x files (k, d) = Inr (k', d') \<longleftrightarrow>
     (\<exists>rows. file_rows lib v4 tu x k files = Inr (k', rows) \<and> insert_files rows d = Inr d')"
  by (simp add: insert_file_chunks_def foldM_insert_file_chunk concat_chunks)

lemma update_files_removed_append:
  "update_files_removed x tu (us @ vs) d = rbind (update_files_removed x tu us d) (update_files_removed x tu vs)"
proof -
  let ?P = "file_removable tu us" and ?Q = "file_removable tu vs"
  let ?u = "\<lambda>p r. if p r then r\<lparr>f_removed_in := Some x\<rparr> else r"
  have PQ: "file_removable tu (us @ vs) = (\<lambda>r. ?P r \<or> ?Q r)"
    by (auto simp: file_removable_def fun_eq_iff)
  have two: "?u ?Q (?u ?P r) = ?u (\<lambda>r. ?P r \<or> ?Q r) r" for r
    by (simp add: file_removable_def)
  have ex: "list_ex (\<lambda>r. ?P r \<or> ?Q r) rs \<longleftrightarrow> list_ex ?P rs \<or> list_ex ?Q rs" for rs
    by (induction rs) auto
  have none: "\<not> list_ex p rs \<Longrightarrow> map (?u p) rs = rs" for p rs
    by (induction rs) auto
  show ?thesis
  proof (cases "x \<in> txn_ids d")
    case True
    then show ?thesis by (simp add: update_files_removed_def PQ two [abs_def] comp_def)
  next
    case False
    then show ?thesis
      by (cases "list_ex ?P (db_files d)") (simp_all add: update_files_removed_def PQ ex none)
  qed
qed

lemma delete_file_chunks_eq:
  "delete_file_chunks kind tu x us d = map_err Storage (update_files_removed x tu us d)"
proof -
  have step: "delete_file_chunk kind tu x d ch = map_err Storage (update_files_removed x tu ch d)" for d ch
    unfolding delete_file_chunk_def execute_delete_files_bound ..
  have "foldM (delete_file_chunk kind tu x) d chs = map_err Storage (update_files_removed x tu (concat chs) d)"
    for d chs
  proof (induction chs arbitrary: d)
    case Nil
    show ?case by (simp add: update_files_removed_def file_removable_def list_ex_iff)
  next
    case (Cons ch chs)
    show ?case
      by (cases "update_files_removed x tu ch d") (simp_all add: Cons [unfolded step [abs_def]] step update_files_removed_append)
  qed
  then show ?thesis by (simp add: delete_file_chunks_def concat_chunks)
qed

section \<open>Properties\<close>

text \<open>C33. Inserting the columns of a schema in chunks, with placeholders in either SQL dialect,
  has the effect of one insert of all columns: column \<open>i\<close> (from 0) gets the \<open>i\<close>-th fresh
  identifier and ordinal position \<open>i + 1\<close> across chunk boundaries, one draw is consumed per
  column, and a constraint violation is reported as a storage error.\<close>

theorem column_batches_exact:
  "insert_column_chunks lib kind v4 schema_uuid columns (k, d) =
     (case insert_columns (map (\<lambda>i. \<lparr>c_column_uuid = v4 (k + i), c_schema_uuid = schema_uuid,
          c_column_name = cs_name (columns ! i),
          c_column_type = lib_schema_to_fb lib [Field ''_'' (cs_column_type (columns ! i)) True],
          c_ordinal_position = word_of_nat (i + 1), c_is_nullable = cs_is_nullable (columns ! i)\<rparr>)
          [0 ..< length columns]) d of
        Inl e \<Rightarrow> Inl (Storage e) | Inr d' \<Rightarrow> Inr (k + length columns, d'))"
proof -
  have "enumerate 0 columns = map (\<lambda>i. (i, columns ! i)) [0 ..< length columns]"
    by (rule nth_equalityI) (simp_all add: nth_enumerate_eq)
  then show ?thesis
    by (simp add: insert_column_chunks_eq column_rows_def comp_def map_err_def rbind_def split: sum.split)
qed

text \<open>C34. Appending files in chunks succeeds exactly when every file specification can be turned
  into a row and one insert of all rows succeeds, and then the outcome is the same, in either
  SQL dialect; deleting files in chunks of 500 is one update over all given identifiers.\<close>

theorem file_batches_exact:
  "(insert_file_chunks lib kind v4 tu x files (k, d) = Inr (k', d') \<longleftrightarrow>
      (\<exists>ds. foldM (file_row_data lib v4) (k, []) files = Inr (k', ds)
          \<and> insert_files (map (file_of_data tu x) ds) d = Inr d'))
   \<and> delete_file_chunks kind tu x us d = map_err Storage (update_files_removed x tu us d)"
  by (auto simp: insert_file_chunks_Inr file_rows_def result_simps delete_file_chunks_eq)

lemma bind_lengths:
  "length (concat (map (bind_column su) cd)) = 6 * length cd"
  "length (concat (map (bind_file tu x) fd)) = 9 * length fd"
  by (induction cd; induction fd; auto)+

text \<open>C35. No statement the catalog builds binds more parameters than its backend admits: for
  every chunk of columns, of files to insert and of files to delete, the number of bound
  values is the one the bind-count formulas give, without wrapping, and at most the limit.\<close>

theorem bind_counts_bounded:
  "list_all (\<lambda>ch. 6 * length ch = unat (column_insert_bind_count (len_u32 ch))
        \<and> 6 * length ch \<le> unat (db_bind_limit kind))
     (chunks (unat (batch_insert_columns_chunk kind)) columns)
   \<and> list_all (\<lambda>ch. 9 * length ch = unat (file_insert_bind_count (len_u32 ch))
        \<and> 9 * length ch \<le> unat (db_bind_limit kind))
     (chunks (unat BATCH_INSERT_FILES_CHUNK) files)
   \<and> list_all (\<lambda>ch. length ([VUuid x, VUuid tu] @ map VUuid ch) = unat (delete_files_bind_count (len_u32 ch))
        \<and> length ch + 2 \<le> unat (db_bind_limit kind))
     (chunks (unat BATCH_DELETE_FILES_CHUNK) uuids)
   \<and> length (concat (map (bind_column su) column_data)) = 6 * length column_data
   \<and> length (concat (map (bind_file tu x) file_data)) = 9 * length file_data"
proof -
  have lim: "unat (db_bind_limit kind) \<ge> 32766"
    by (cases kind) (simp_all add: limit_defs)
  have small: "unat (len_u32 ch) = length ch" if "length ch \<le> 1000" for ch :: "'z list"
    using that by (simp only: unat_len_u32) simp
  have mul: "unat (len_u32 ch * (c :: u32)) = length ch * unat c" if "length ch \<le> 1000" "unat c \<le> 9"
    for ch :: "'z list" and c
  proof -
    have "length ch * unat c \<le> 1000 * 9" using that by (rule mult_le_mono)
    then show ?thesis using small [OF that(1)]
      by (simp add: unat_word_ariths)
  qed
  have add: "unat ((2 :: u32) + len_u32 ch) = 2 + length ch" if "length ch \<le> 1000" for ch :: "'z list"
    using that small [OF that] by (simp add: unat_word_ariths)
  show ?thesis
    using lim
    by (auto simp: list_all_iff bind_lengths column_insert_bind_count_def file_insert_bind_count_def
        delete_files_bind_count_def COLUMN_INSERT_PARAMS_PER_ROW_def FILE_INSERT_PARAMS_PER_ROW_def
        DELETE_FILES_FIXED_PARAMS_def mul add dest!: chunks_bound)
qed

end
