(* ===== verification/Catalog.thy ===== *)
theory Catalog
  imports Batch
begin

text \<open>
  The transactional operations of \<open>catalog/mod.rs\<close> that do not walk the history: table
  creation, lookup, listing, drop, the current head and \<open>commit\<close>. The two implementations of
  the \<open>Catalog\<close> trait differ in placeholders and batching only; one definition takes the
  backend as a parameter, and the instances at the end name the code of each backend. An
  operation that runs inside a database transaction is a function from the database to an
  error or a result with the new database; \<open>run_tx\<close> keeps the old database on an error, as
  dropping an sqlx transaction rolls it back. Each operation is one atomic step: SQLite holds
  the write lock (\<open>BEGIN IMMEDIATE\<close>), Postgres the row lock (\<open>FOR UPDATE\<close>), from the read of
  the table row to the commit. The values of the clock, of the UUIDv7 generator and of
  \<open>Uuid::new_v4\<close> that an operation draws are its \<open>draws\<close> argument.
\<close>

section \<open>Client, catalog and draws\<close>

record protocol_versions =
  pv_reader :: i32
  pv_writer :: i32

definition protocol_versions_default :: protocol_versions where
  "protocol_versions_default = \<lparr>pv_reader = 1, pv_writer = 1\<rparr>"

record sql_catalog =
  cat_kind :: DbKind
  cat_client :: protocol_versions
  cat_libs :: libs

definition catalog_new_with_protocol_versions ::
  "DbKind \<Rightarrow> libs \<Rightarrow> protocol_versions \<Rightarrow> sql_catalog" where
  "catalog_new_with_protocol_versions kind lib client_protocol =
     \<lparr>cat_kind = kind, cat_client = client_protocol, cat_libs = lib\<rparr>"

definition catalog_new :: "DbKind \<Rightarrow> libs \<Rightarrow> sql_catalog" where
  "catalog_new kind lib = catalog_new_with_protocol_versions kind lib protocol_versions_default"

definition reader_version :: "sql_catalog \<Rightarrow> i32" where
  "reader_version cat = pv_reader (cat_client cat)"

definition writer_version :: "sql_catalog \<Rightarrow> i32" where
  "writer_version cat = pv_writer (cat_client cat)"

definition ensure_reader_protocol_compatible ::
  "sql_catalog \<Rightarrow> table_ident \<Rightarrow> i32 \<Rightarrow> catalog_error + unit" where
  "ensure_reader_protocol_compatible cat ident required_min_version =
     (let client_version = reader_version cat in
      if sint client_version < sint required_min_version
      then Inl (ProtocolVersionIncompatible ''read'' ident client_version required_min_version)
      else Inr ())"

definition ensure_writer_protocol_compatible ::
  "sql_catalog \<Rightarrow> table_ident \<Rightarrow> i32 \<Rightarrow> catalog_error + unit" where
  "ensure_writer_protocol_compatible cat ident required_min_version =
     (let client_version = writer_version cat in
      if sint client_version < sint required_min_version
      then Inl (ProtocolVersionIncompatible ''write'' ident client_version required_min_version)
      else Inr ())"

record draws =
  dr_now :: timestamp
  dr_txn :: txn_id
  dr_v4 :: "nat \<Rightarrow> uuid"

record table_handle =
  th_catalog :: sql_catalog
  th_ident :: table_ident

definition run_tx :: "('d \<Rightarrow> 'e + 'a \<times> 'd) \<Rightarrow> 'd \<Rightarrow> ('e + 'a) \<times> 'd" where
  "run_tx body d = (case body d of Inl e \<Rightarrow> (Inl e, d) | Inr (x, d') \<Rightarrow> (Inr x, d'))"

section \<open>Creating, finding and dropping tables\<close>

definition INITIAL_SCHEMA_VERSION :: i32 where
  "INITIAL_SCHEMA_VERSION = 1"

definition create_table_body ::
  "sql_catalog \<Rightarrow> draws \<Rightarrow> table_ident \<Rightarrow> string \<Rightarrow> schema_spec \<Rightarrow> table_properties option
     \<Rightarrow> db \<Rightarrow> catalog_error + table_handle \<times> db" where
  "create_table_body cat dr ident location schema properties d =
     rbind (schema_spec_validate schema) (\<lambda>_.
     if select_table (ti_namespace ident) (ti_name ident) d \<noteq> None
     then Inl (Conflict (TableAlreadyExists (ti_namespace ident) (ti_name ident)))
     else
       let table_uuid = dr_v4 dr 0;
           created_at = dr_now dr;
           properties_value = (case properties of Some p \<Rightarrow> p | None \<Rightarrow> properties_new)
       in rbind (serialize_json (lib_json (cat_libs cat)) (properties_to_json properties_value))
            (\<lambda>properties_text.
          rbind (map_err Storage (insert_table
                   \<lparr>t_table_uuid = table_uuid, t_table_name = ti_name ident,
                    t_namespace = ti_namespace ident, t_location = location,
                    t_current_schema_uuid = None, t_current_transaction_id = None,
                    t_created_at = created_at, t_properties = Some properties_text,
                    t_min_reader_version = reader_version cat,
                    t_min_writer_version = writer_version cat\<rparr> d)) (\<lambda>d1.
          let transaction_id = dr_txn dr in
          rbind (map_err Storage (insert_txn
                   \<lparr>x_transaction_id = transaction_id, x_table_uuid = table_uuid,
                    x_transaction_timestamp = created_at, x_parent_transaction_id = None\<rparr> d1)) (\<lambda>d2.
          let schema_uuid = dr_v4 dr 1 in
          rbind (map_err Storage (insert_schema
                   \<lparr>s_schema_uuid = schema_uuid, s_table_uuid = table_uuid,
                    s_schema_version = INITIAL_SCHEMA_VERSION, s_valid_from = transaction_id,
                    s_valid_to = None, s_created_at = created_at\<rparr> d2)) (\<lambda>d3.
          rbind (insert_column_chunks (cat_libs cat) (cat_kind cat) (dr_v4 dr) schema_uuid
                   (ss_columns schema) (2, d3)) (\<lambda>(k, d4).
          Inr (\<lparr>th_catalog = cat, th_ident = ident\<rparr>,
               update_table_heads schema_uuid transaction_id table_uuid d4)))))))"

definition create_table ::
  "sql_catalog \<Rightarrow> draws \<Rightarrow> table_ident \<Rightarrow> string \<Rightarrow> schema_spec \<Rightarrow> table_properties option
     \<Rightarrow> db \<Rightarrow> (catalog_error + table_handle) \<times> db" where
  "create_table cat dr ident location schema properties =
     run_tx (create_table_body cat dr ident location schema properties)"

definition load_table :: "sql_catalog \<Rightarrow> table_ident \<Rightarrow> db \<Rightarrow> catalog_error + table_handle option" where
  "load_table cat ident d =
     (if select_table (ti_namespace ident) (ti_name ident) d = None then Inr None
      else Inr (Some \<lparr>th_catalog = cat, th_ident = ident\<rparr>))"

definition list_tables :: "sql_catalog \<Rightarrow> string option \<Rightarrow> db \<Rightarrow> catalog_error + table_ident list" where
  "list_tables cat namespace d =
     (let list_limit = unat MAX_TABLES_PER_LIST + 1;
          rows = (case namespace of
                    Some ns \<Rightarrow> take list_limit (filter (\<lambda>r. t_namespace r = ns) (db_tables d))
                  | None \<Rightarrow> take list_limit (db_tables d))
      in if unat MAX_TABLES_PER_LIST < length rows
         then Inl (LimitExceeded (TableCount MAX_TABLES_PER_LIST))
         else Inr (map (\<lambda>r. \<lparr>ti_namespace = t_namespace r, ti_name = t_table_name r\<rparr>) rows))"

definition drop_table_body :: "table_ident \<Rightarrow> db \<Rightarrow> catalog_error + unit \<times> db" where
  "drop_table_body ident d =
     rbind (map_err Storage (delete_tables (ti_namespace ident) (ti_name ident) d)) (\<lambda>(affected, d').
       if affected = 0 then Inl (NotFound (TableName (ti_namespace ident) (ti_name ident)))
       else Inr ((), d'))"

definition drop_table :: "sql_catalog \<Rightarrow> table_ident \<Rightarrow> db \<Rightarrow> (catalog_error + unit) \<times> db" where
  "drop_table cat ident = run_tx (drop_table_body ident)"

definition current_transaction_id :: "sql_catalog \<Rightarrow> table_ident \<Rightarrow> db \<Rightarrow> catalog_error + txn_id" where
  "current_transaction_id cat ident d =
     rbind (ok_or (NotFound (TableName (ti_namespace ident) (ti_name ident)))
              (select_table (ti_namespace ident) (ti_name ident) d)) (\<lambda>table_row.
       ok_or (InvalidState NoCurrentTransaction) (t_current_transaction_id table_row))"

section \<open>Commit: the operations of a mutation\<close>

text \<open>The variables the operation loop of \<open>commit\<close> updates: the database inside the
  transaction, the index of the next random identifier, the schema the table will point to
  and its properties.\<close>

record commit_state =
  cm_db :: db
  cm_v4 :: nat
  cm_new_schema_uuid :: "uuid option"
  cm_properties :: table_properties

definition append_files ::
  "sql_catalog \<Rightarrow> draws \<Rightarrow> uuid \<Rightarrow> txn_id \<Rightarrow> file_spec list \<Rightarrow> commit_state \<Rightarrow> catalog_error + commit_state" where
  "append_files cat dr table_uuid transaction_id files st =
     (if MAX_FILES_PER_APPEND < len_u32 files
      then Inl (LimitExceeded (AppendLimit (length files) MAX_FILES_PER_APPEND))
      else rbind (insert_file_chunks (cat_libs cat) (cat_kind cat) (dr_v4 dr) table_uuid transaction_id
                    files (cm_v4 st, cm_db st))
             (\<lambda>(k, d). Inr (st\<lparr>cm_v4 := k, cm_db := d\<rparr>)))"

definition delete_files ::
  "sql_catalog \<Rightarrow> uuid \<Rightarrow> txn_id \<Rightarrow> uuid list \<Rightarrow> commit_state \<Rightarrow> catalog_error + commit_state" where
  "delete_files cat table_uuid transaction_id file_uuids st =
     (if MAX_FILES_PER_DELETE < len_u32 file_uuids
      then Inl (LimitExceeded (DeleteLimit (length file_uuids) MAX_FILES_PER_DELETE))
      else rbind (delete_file_chunks (cat_kind cat) table_uuid transaction_id file_uuids (cm_db st))
             (\<lambda>d. Inr (st\<lparr>cm_db := d\<rparr>)))"

text \<open>The current columns by name. The hash map of the source is an association list in row
  order; column names of a schema are unique, so the two agree, and only which of several
  dropped columns an error names depends on the order.\<close>

definition current_schema_columns ::
  "libs \<Rightarrow> uuid \<Rightarrow> db \<Rightarrow> catalog_error + (string \<times> data_type \<times> bool) list" where
  "current_schema_columns lib schema_uuid d =
     mapM (\<lambda>row. rbind (decode_data_type (lib_root_as_schema lib) (c_column_type row))
                   (\<lambda>column_type. Inr (c_column_name row, column_type, c_is_nullable row)))
       (select_columns schema_uuid d)"

fun check_not_dropped :: "string list \<Rightarrow> string list \<Rightarrow> catalog_error + unit" where
  "check_not_dropped new_column_names [] = Inr ()"
| "check_not_dropped new_column_names (existing # rest) =
     (if existing \<notin> set new_column_names then Inl (InvalidState (CannotDropColumn existing))
      else check_not_dropped new_column_names rest)"

fun check_evolution ::
  "(string \<times> data_type \<times> bool) list \<Rightarrow> column_spec list \<Rightarrow> catalog_error + unit" where
  "check_evolution current_columns [] = Inr ()"
| "check_evolution current_columns (new_column # rest) =
     (case map_of current_columns (cs_name new_column) of
        Some (old_type, old_nullable) \<Rightarrow>
          if \<not> can_evolve_to old_type (cs_column_type new_column)
          then Inl (InvalidState (InvalidTypeEvolution (cs_name new_column) old_type
                     (cs_column_type new_column)))
          else if old_nullable \<and> \<not> cs_is_nullable new_column
          then Inl (InvalidState (InvalidNullEvolution (cs_name new_column)))
          else check_evolution current_columns rest
      | None \<Rightarrow> check_evolution current_columns rest)"

definition select_schema_version :: "uuid \<Rightarrow> db \<Rightarrow> sqlx_error + i32" where
  "select_schema_version schema_uuid d =
     rbind (ok_or RowNotFound (find (\<lambda>r. s_schema_uuid r = schema_uuid) (db_schemas d)))
       (\<lambda>r. Inr (s_schema_version r))"

definition update_schema ::
  "sql_catalog \<Rightarrow> draws \<Rightarrow> uuid \<Rightarrow> txn_id \<Rightarrow> uuid option \<Rightarrow> schema_spec \<Rightarrow> commit_state
     \<Rightarrow> catalog_error + commit_state" where
  "update_schema cat dr table_uuid transaction_id current_schema spec st =
     rbind (schema_spec_validate spec) (\<lambda>_.
     rbind (ok_or (InvalidState NoCurrentSchema) current_schema) (\<lambda>current_schema_uuid.
     rbind (map_err Storage (select_schema_version current_schema_uuid (cm_db st)))
       (\<lambda>current_schema_version.
     rbind (current_schema_columns (cat_libs cat) current_schema_uuid (cm_db st)) (\<lambda>current_columns.
     rbind (check_not_dropped (map cs_name (ss_columns spec)) (map fst current_columns)) (\<lambda>_.
     rbind (check_evolution current_columns (ss_columns spec)) (\<lambda>_.
       let schema_uuid = dr_v4 dr (cm_v4 st);
           schema_version = current_schema_version + 1
       in
     rbind (map_err Storage (insert_schema
              \<lparr>s_schema_uuid = schema_uuid, s_table_uuid = table_uuid,
               s_schema_version = schema_version, s_valid_from = transaction_id,
               s_valid_to = None, s_created_at = dr_now dr\<rparr> (cm_db st))) (\<lambda>d1.
     rbind (map_err Storage (update_schema_valid_to transaction_id current_schema_uuid d1)) (\<lambda>d2.
     rbind (insert_column_chunks (cat_libs cat) (cat_kind cat) (dr_v4 dr) schema_uuid
              (ss_columns spec) (cm_v4 st + 1, d2)) (\<lambda>(k, d3).
       Inr (st\<lparr>cm_db := d3, cm_v4 := k, cm_new_schema_uuid := Some schema_uuid\<rparr>))))))))))"

definition set_properties :: "table_properties \<Rightarrow> commit_state \<Rightarrow> catalog_error + commit_state" where
  "set_properties properties st = Inr (st\<lparr>cm_properties := properties\<rparr>)"

definition remove_properties :: "property_key list \<Rightarrow> commit_state \<Rightarrow> catalog_error + commit_state" where
  "remove_properties keys st =
     (if keys = [] then Inr st
      else if MAX_PROPERTY_KEYS_TO_REMOVE < len_u32 keys
      then Inl (LimitExceeded (RemoveKeyLimit (length keys) MAX_PROPERTY_KEYS_TO_REMOVE))
      else Inr (st\<lparr>cm_properties :=
             fold (\<lambda>key p. properties_remove (property_key_as_str key) p) keys (cm_properties st)\<rparr>))"

definition apply_op ::
  "sql_catalog \<Rightarrow> draws \<Rightarrow> uuid \<Rightarrow> txn_id \<Rightarrow> uuid option \<Rightarrow> commit_state \<Rightarrow> mutation_op
     \<Rightarrow> catalog_error + commit_state" where
  "apply_op cat dr table_uuid transaction_id current_schema st op =
     (case op of
        AppendFiles files \<Rightarrow> append_files cat dr table_uuid transaction_id files st
      | DeleteFiles file_uuids \<Rightarrow> delete_files cat table_uuid transaction_id file_uuids st
      | UpdateSchema spec \<Rightarrow> update_schema cat dr table_uuid transaction_id current_schema spec st
      | SetProperties properties \<Rightarrow> set_properties properties st
      | RemoveProperties keys \<Rightarrow> remove_properties keys st)"

section \<open>Commit\<close>

definition commit_precheck :: "mutation \<Rightarrow> catalog_error + unit" where
  "commit_precheck m =
     (if mu_operations m = [] then Inl (InvalidState MutationEmpty)
      else if MAX_OPERATIONS_PER_MUTATION < len_u32 (mu_operations m)
      then Inl (LimitExceeded (MutationOpLimit (length (mu_operations m)) MAX_OPERATIONS_PER_MUTATION))
      else mutation_validate m)"

definition commit_head ::
  "sql_catalog \<Rightarrow> table_ident \<Rightarrow> txn_id \<Rightarrow> db \<Rightarrow> catalog_error + table_row \<times> table_properties" where
  "commit_head cat ident base_transaction_id d =
     (case select_table (ti_namespace ident) (ti_name ident) d of
        None \<Rightarrow> Inl (NotFound (TableName (ti_namespace ident) (ti_name ident)))
      | Some table_row \<Rightarrow>
          rbind (parse_table_properties (lib_json (cat_libs cat)) (t_properties table_row))
            (\<lambda>properties_value.
          rbind (ensure_writer_protocol_compatible cat ident (t_min_writer_version table_row)) (\<lambda>_.
          rbind (ok_or (InvalidState NoCurrentTransaction) (t_current_transaction_id table_row))
            (\<lambda>current_txn.
          if current_txn \<noteq> base_transaction_id
          then Inl (Conflict (BaseMismatch base_transaction_id current_txn))
          else Inr (table_row, properties_value)))))"

definition commit_body ::
  "sql_catalog \<Rightarrow> draws \<Rightarrow> table_ident \<Rightarrow> txn_id \<Rightarrow> mutation \<Rightarrow> db \<Rightarrow> catalog_error + commit_result \<times> db" where
  "commit_body cat dr ident base_transaction_id m d =
     rbind (commit_precheck m) (\<lambda>_.
     rbind (commit_head cat ident base_transaction_id d) (\<lambda>(table_row, properties_value).
       let table_uuid = t_table_uuid table_row;
           current_schema = t_current_schema_uuid table_row;
           transaction_id = dr_txn dr
       in
     rbind (map_err Storage (insert_txn
              \<lparr>x_transaction_id = transaction_id, x_table_uuid = table_uuid,
               x_transaction_timestamp = dr_now dr,
               x_parent_transaction_id = t_current_transaction_id table_row\<rparr> d)) (\<lambda>d1.
     rbind (foldM (apply_op cat dr table_uuid transaction_id current_schema)
              \<lparr>cm_db = d1, cm_v4 = 0, cm_new_schema_uuid = current_schema,
               cm_properties = properties_value\<rparr> (mu_operations m)) (\<lambda>st.
       let schema_uuid_to_set =
             (case cm_new_schema_uuid st of Some u \<Rightarrow> Some u | None \<Rightarrow> current_schema)
       in
     rbind (serialize_json (lib_json (cat_libs cat)) (properties_to_json (cm_properties st)))
       (\<lambda>properties_text.
       Inr (\<lparr>cr_transaction_id = transaction_id, cr_table_view = None\<rparr>,
            update_table_commit transaction_id schema_uuid_to_set properties_text table_uuid
              (cm_db st)))))))"

definition commit ::
  "sql_catalog \<Rightarrow> draws \<Rightarrow> table_ident \<Rightarrow> txn_id \<Rightarrow> mutation \<Rightarrow> db
     \<Rightarrow> (catalog_error + commit_result) \<times> db" where
  "commit cat dr ident base_transaction_id m = run_tx (commit_body cat dr ident base_transaction_id m)"

section \<open>The two backends\<close>

text \<open>The implementations of the trait for \<open>SqlCatalog<Sqlite>\<close> and \<open>SqlCatalog<Postgres>\<close>:
  the operations above with the backend's chunk sizes and placeholders.\<close>

abbreviation sqlite :: "libs \<Rightarrow> protocol_versions \<Rightarrow> sql_catalog" where
  "sqlite \<equiv> catalog_new_with_protocol_versions Sqlite"

abbreviation postgres :: "libs \<Rightarrow> protocol_versions \<Rightarrow> sql_catalog" where
  "postgres \<equiv> catalog_new_with_protocol_versions Postgres"

definition sqlite_create_table where "sqlite_create_table lib pv = create_table (sqlite lib pv)"
definition sqlite_commit where "sqlite_commit lib pv = commit (sqlite lib pv)"

definition postgres_create_table where "postgres_create_table lib pv = create_table (postgres lib pv)"
definition postgres_load_table where "postgres_load_table lib pv = load_table (postgres lib pv)"
definition postgres_list_tables where "postgres_list_tables lib pv = list_tables (postgres lib pv)"
definition postgres_drop_table where "postgres_drop_table lib pv = drop_table (postgres lib pv)"
definition postgres_current_transaction_id where
  "postgres_current_transaction_id lib pv = current_transaction_id (postgres lib pv)"
definition postgres_append_files where "postgres_append_files lib pv = append_files (postgres lib pv)"
definition postgres_delete_files where "postgres_delete_files lib pv = delete_files (postgres lib pv)"
definition postgres_update_schema where "postgres_update_schema lib pv = update_schema (postgres lib pv)"
definition postgres_commit_head where "postgres_commit_head lib pv = commit_head (postgres lib pv)"
definition postgres_commit where "postgres_commit lib pv = commit (postgres lib pv)"

lemma insert_file_chunks_kind: "insert_file_chunks lib k1 = insert_file_chunks lib k2"
proof -
  have "insert_file_chunk lib k1 = insert_file_chunk lib k2"
    by (simp add: fun_eq_iff insert_file_chunk_eq)
  then show ?thesis by (simp only: insert_file_chunks_def [abs_def])
qed

lemma insert_column_chunks_kind: "insert_column_chunks lib k1 = insert_column_chunks lib k2"
  by (simp add: fun_eq_iff insert_column_chunks_eq)

lemma delete_file_chunks_kind: "delete_file_chunks k1 = delete_file_chunks k2"
  by (simp add: fun_eq_iff delete_file_chunks_eq)

lemma apply_op_libs:
  assumes "cat_libs a = cat_libs b"
  shows "apply_op a = apply_op b"
  by (simp add: fun_eq_iff apply_op_def append_files_def delete_files_def update_schema_def assms
      insert_file_chunks_kind [of _ "cat_kind a" "cat_kind b"] insert_column_chunks_kind [of _ "cat_kind a" "cat_kind b"]
      delete_file_chunks_kind [of "cat_kind a" "cat_kind b"] split: mutation_op.split)

text \<open>A commit depends on the catalog only through its libraries and the check of its head.\<close>

lemma commit_body_libs:
  assumes "cat_libs a = cat_libs b" and "commit_head a ident base d = commit_head b ident base d"
  shows "commit_body a dr ident base m d = commit_body b dr ident base m d"
  unfolding commit_body_def assms apply_op_libs [OF assms(1)] ..

lemma commit_body_kind: "commit_body (postgres lib pv) = commit_body (sqlite lib pv)"
  unfolding fun_eq_iff
  by (intro allI commit_body_libs)
     (simp_all add: commit_head_def catalog_new_with_protocol_versions_def
        ensure_writer_protocol_compatible_def writer_version_def split: option.split)


section \<open>Inversion\<close>

lemma run_tx_Inl: "fst (run_tx f d) = Inl e \<longleftrightarrow> f d = Inl e"
  by (auto simp: run_tx_def split: sum.split prod.split)

lemma run_tx_Inr: "run_tx f d = (Inr x, d') \<longleftrightarrow> f d = Inr (x, d')"
  by (auto simp: run_tx_def split: sum.split prod.split)

lemma run_tx_error: "run_tx f d = (Inl e, d') \<Longrightarrow> d' = d"
  by (auto simp: run_tx_def split: sum.splits prod.splits)

lemma commit_head_Inr:
  "commit_head cat ident base d = Inr (r, p) \<longleftrightarrow>
     select_table (ti_namespace ident) (ti_name ident) d = Some r
     \<and> parse_table_properties (lib_json (cat_libs cat)) (t_properties r) = Inr p
     \<and> sint (t_min_writer_version r) \<le> sint (writer_version cat)
     \<and> t_current_transaction_id r = Some base"
  by (auto simp: commit_head_def ensure_writer_protocol_compatible_def Let_def result_simps
      split: option.splits if_splits)

text \<open>A successful commit: what was read, the new transaction row, the operations and the
  final update of the table row.\<close>

lemma commit_body_Inr:
  assumes "commit_body cat dr ident base m d = Inr (res, d')"
  obtains r p d1 st props_text where
    "commit_precheck m = Inr ()"
    "select_table (ti_namespace ident) (ti_name ident) d = Some r"
    "parse_table_properties (lib_json (cat_libs cat)) (t_properties r) = Inr p"
    "sint (t_min_writer_version r) \<le> sint (writer_version cat)"
    "t_current_transaction_id r = Some base"
    "insert_txn \<lparr>x_transaction_id = dr_txn dr, x_table_uuid = t_table_uuid r,
       x_transaction_timestamp = dr_now dr, x_parent_transaction_id = Some base\<rparr> d = Inr d1"
    "foldM (apply_op cat dr (t_table_uuid r) (dr_txn dr) (t_current_schema_uuid r))
       \<lparr>cm_db = d1, cm_v4 = 0, cm_new_schema_uuid = t_current_schema_uuid r, cm_properties = p\<rparr>
       (mu_operations m) = Inr st"
    "serialize_json (lib_json (cat_libs cat)) (properties_to_json (cm_properties st)) = Inr props_text"
    "res = \<lparr>cr_transaction_id = dr_txn dr, cr_table_view = None\<rparr>"
    "d' = update_table_commit (dr_txn dr)
       (case cm_new_schema_uuid st of Some u \<Rightarrow> Some u | None \<Rightarrow> t_current_schema_uuid r)
       props_text (t_table_uuid r) (cm_db st)"
  using assms
  by (fastforce simp: commit_body_def commit_head_Inr Let_def result_simps)

end
