(* ===== verification/Effects.thy ===== *)
theory Effects
  imports Catalog
begin

text \<open>
  What a mutation does to the database. Each operation of \<open>commit\<close> is described by the rows it
  writes; the relation \<open>files_step\<close> says how the file rows of the database may change within
  one transaction, and \<open>live_step\<close> is the abstract effect of an operation on the list of live
  files of the table, which the loop of \<open>commit\<close> refines.
\<close>

section \<open>Single operations\<close>

lemma file_rows_written:
  assumes "file_rows lib v4 tu x k files = Inr (k', rows)"
  shows "list_all (\<lambda>r. f_table_uuid r = tu \<and> f_added_in r = x \<and> f_removed_in r = None) rows"
  using assms by (auto simp: file_rows_def result_simps list_all_iff)

lemma append_files_effect:
  assumes "append_files cat dr tu x files st = Inr st'"
  obtains k rows where
    "\<not> MAX_FILES_PER_APPEND < len_u32 files"
    "file_rows (cat_libs cat) (dr_v4 dr) tu x (cm_v4 st) files = Inr (k, rows)"
    "insert_files rows (cm_db st) = Inr (cm_db st')"
    "st' = st\<lparr>cm_v4 := k, cm_db := (cm_db st)\<lparr>db_files := db_files (cm_db st) @ rows\<rparr>\<rparr>"
proof -
  from assms obtain k d where lim: "\<not> MAX_FILES_PER_APPEND < len_u32 files"
    and ins: "insert_file_chunks (cat_libs cat) (cat_kind cat) (dr_v4 dr) tu x files (cm_v4 st, cm_db st)
        = Inr (k, d)" and st': "st' = st\<lparr>cm_v4 := k, cm_db := d\<rparr>"
    by (auto simp: append_files_def result_simps split: if_splits)
  from ins obtain rows where rows: "file_rows (cat_libs cat) (dr_v4 dr) tu x (cm_v4 st) files = Inr (k, rows)"
    and d: "insert_files rows (cm_db st) = Inr d"
    by (auto simp: insert_file_chunks_Inr)
  show thesis
    by (rule that [OF lim rows]) (use d st' insert_files_Inr [OF d] in simp_all)
qed

abbreviation mark_removed :: "uuid \<Rightarrow> txn_id \<Rightarrow> uuid list \<Rightarrow> file_row \<Rightarrow> file_row" where
  "mark_removed tu x us r \<equiv> if file_removable tu us r then r\<lparr>f_removed_in := Some x\<rparr> else r"

lemma delete_files_effect:
  assumes "delete_files cat tu x us st = Inr st'"
  shows "\<not> MAX_FILES_PER_DELETE < len_u32 us"
    and "st' = st\<lparr>cm_db := (cm_db st)\<lparr>db_files := map (mark_removed tu x us) (db_files (cm_db st))\<rparr>\<rparr>"
  using assms
  by (auto simp: delete_files_def delete_file_chunks_eq update_files_removed_def result_simps
      split: if_splits)

lemma check_not_dropped_ok: "check_not_dropped ns es = Inr () \<longleftrightarrow> set es \<subseteq> set ns"
  by (induction es) auto

lemma check_evolution_ok:
  "check_evolution cur cs = Inr () \<longleftrightarrow>
     (\<forall>c \<in> set cs. \<forall>t n. map_of cur (cs_name c) = Some (t, n) \<longrightarrow>
        can_evolve_to t (cs_column_type c) \<and> (n \<longrightarrow> cs_is_nullable c))"
  by (induction cs) (auto split: option.split)

lemma update_schema_effect:
  assumes "update_schema cat dr tu x cs spec st = Inr st'"
  obtains cur ver cols d1 d2 where
    "schema_spec_ok spec"
    "cs = Some cur"
    "select_schema_version cur (cm_db st) = Inr ver"
    "current_schema_columns (cat_libs cat) cur (cm_db st) = Inr cols"
    "set (map fst cols) \<subseteq> set (map cs_name (ss_columns spec))"
    "check_evolution cols (ss_columns spec) = Inr ()"
    "insert_schema \<lparr>s_schema_uuid = dr_v4 dr (cm_v4 st), s_table_uuid = tu,
       s_schema_version = ver + 1, s_valid_from = x, s_valid_to = None, s_created_at = dr_now dr\<rparr>
       (cm_db st) = Inr d1"
    "update_schema_valid_to x cur d1 = Inr d2"
    "insert_columns (column_rows (cat_libs cat) (dr_v4 dr) (dr_v4 dr (cm_v4 st)) (cm_v4 st + 1) 0
       (ss_columns spec)) d2 = Inr (cm_db st')"
    "st' = st\<lparr>cm_db := cm_db st', cm_v4 := cm_v4 st + 1 + length (ss_columns spec),
       cm_new_schema_uuid := Some (dr_v4 dr (cm_v4 st))\<rparr>"
  using assms
  by (auto simp: update_schema_def Let_def result_simps insert_column_chunks_eq
      schema_spec_validate_ok check_not_dropped_ok)

lemma select_schema_version_in:
  "select_schema_version u d = Inr v \<Longrightarrow> u \<in> schema_ids d"
  by (auto simp: select_schema_version_def result_simps find_Some_iff)

text \<open>The rows a schema update writes: the current schema is closed, one schema row and its
  columns are appended, nothing else changes.\<close>

definition spec_extends :: "libs \<Rightarrow> db \<Rightarrow> uuid \<Rightarrow> column_spec list \<Rightarrow> bool" where
  "spec_extends lib d cur cs \<longleftrightarrow>
     (\<exists>cols. current_schema_columns lib cur d = Inr cols \<and> set (map fst cols) \<subseteq> set (map cs_name cs)
        \<and> check_evolution cols cs = Inr ())"

lemma update_schema_db:
  assumes "update_schema cat dr tu x cs spec st = Inr st'"
  obtains cur ver where
    "cs = Some cur" "cur \<in> schema_ids (cm_db st)" "schema_spec_ok spec"
    "dr_v4 dr (cm_v4 st) \<notin> schema_ids (cm_db st)"
    "select_schema_version cur (cm_db st) = Inr ver"
    "cm_db st' = (cm_db st)\<lparr>
       db_schemas := map (\<lambda>r. if s_schema_uuid r = cur then r\<lparr>s_valid_to := Some x\<rparr> else r) (db_schemas (cm_db st))
         @ [\<lparr>s_schema_uuid = dr_v4 dr (cm_v4 st), s_table_uuid = tu, s_schema_version = ver + 1,
             s_valid_from = x, s_valid_to = None, s_created_at = dr_now dr\<rparr>],
       db_columns := db_columns (cm_db st)
         @ column_rows (cat_libs cat) (dr_v4 dr) (dr_v4 dr (cm_v4 st)) (cm_v4 st + 1) 0 (ss_columns spec)\<rparr>"
    "spec_extends (cat_libs cat) (cm_db st) cur (ss_columns spec)"
proof -
  from assms obtain cur ver d1 d2 cols where *: "schema_spec_ok spec" "cs = Some cur"
    "select_schema_version cur (cm_db st) = Inr ver"
    and ext: "current_schema_columns (cat_libs cat) cur (cm_db st) = Inr cols"
      "set (map fst cols) \<subseteq> set (map cs_name (ss_columns spec))" "check_evolution cols (ss_columns spec) = Inr ()"
    and ins: "insert_schema \<lparr>s_schema_uuid = dr_v4 dr (cm_v4 st), s_table_uuid = tu,
       s_schema_version = ver + 1, s_valid_from = x, s_valid_to = None, s_created_at = dr_now dr\<rparr>
       (cm_db st) = Inr d1"
    and upd: "update_schema_valid_to x cur d1 = Inr d2"
    and cols: "insert_columns (column_rows (cat_libs cat) (dr_v4 dr) (dr_v4 dr (cm_v4 st)) (cm_v4 st + 1) 0
       (ss_columns spec)) d2 = Inr (cm_db st')"
    by (rule update_schema_effect)
  have cur: "cur \<in> schema_ids (cm_db st)" using *(3) by (rule select_schema_version_in)
  have fresh: "dr_v4 dr (cm_v4 st) \<notin> schema_ids (cm_db st)"
    using insert_schema_Inr [OF ins] by simp
  have ne: "dr_v4 dr (cm_v4 st) \<noteq> cur" using cur fresh by blast
  have d2: "d2 = (cm_db st)\<lparr>
      db_schemas := map (\<lambda>r. if s_schema_uuid r = cur then r\<lparr>s_valid_to := Some x\<rparr> else r) (db_schemas (cm_db st))
         @ [\<lparr>s_schema_uuid = dr_v4 dr (cm_v4 st), s_table_uuid = tu, s_schema_version = ver + 1,
             s_valid_from = x, s_valid_to = None, s_created_at = dr_now dr\<rparr>]\<rparr>"
    using insert_schema_Inr [OF ins] upd ne
    by (auto simp: update_schema_valid_to_def split: if_splits)
  show thesis
    by (rule that [OF *(2) cur *(1) fresh *(3)])
       (use insert_columns_Inr [OF cols] d2 ext in \<open>auto simp: spec_extends_def\<close>)
qed

lemma set_properties_effect: "set_properties p st = Inr st' \<Longrightarrow> st' = st\<lparr>cm_properties := p\<rparr>"
  by (simp add: set_properties_def)

lemma remove_properties_effect:
  "remove_properties ks st = Inr st' \<Longrightarrow>
     st' = st\<lparr>cm_properties := fold properties_remove (map property_key_as_str ks) (cm_properties st)\<rparr>"
  by (auto simp: remove_properties_def fold_map comp_def split: if_splits)

section \<open>Tables, transactions and statistics are untouched by the operations\<close>

lemma apply_op_frame:
  assumes "apply_op cat dr tu x cs st op = Inr st'"
  shows "db_tables (cm_db st') = db_tables (cm_db st)"
    and "db_transactions (cm_db st') = db_transactions (cm_db st)"
    and "db_table_stats (cm_db st') = db_table_stats (cm_db st)"
proof -
  have "db_tables (cm_db st') = db_tables (cm_db st)
      \<and> db_transactions (cm_db st') = db_transactions (cm_db st)
      \<and> db_table_stats (cm_db st') = db_table_stats (cm_db st)"
  proof (cases op)
    case (AppendFiles fs)
    with assms have "append_files cat dr tu x fs st = Inr st'" by (simp add: apply_op_def)
    then show ?thesis by (rule append_files_effect) simp
  next
    case (DeleteFiles us)
    with assms have "delete_files cat tu x us st = Inr st'" by (simp add: apply_op_def)
    from delete_files_effect(2) [OF this] show ?thesis by simp
  next
    case (UpdateSchema spec)
    with assms have "update_schema cat dr tu x cs spec st = Inr st'" by (simp add: apply_op_def)
    then show ?thesis by (rule update_schema_db) simp
  next
    case (SetProperties p)
    with assms show ?thesis by (auto simp: apply_op_def dest: set_properties_effect)
  next
    case (RemoveProperties ks)
    with assms show ?thesis by (auto simp: apply_op_def dest: remove_properties_effect)
  qed
  then show "db_tables (cm_db st') = db_tables (cm_db st)"
    "db_transactions (cm_db st') = db_transactions (cm_db st)"
    "db_table_stats (cm_db st') = db_table_stats (cm_db st)" by blast+
qed

lemma apply_ops_frame:
  assumes "foldM (apply_op cat dr tu x cs) st ops = Inr st'"
  shows "db_tables (cm_db st') = db_tables (cm_db st) \<and> db_transactions (cm_db st') = db_transactions (cm_db st)
     \<and> db_table_stats (cm_db st') = db_table_stats (cm_db st)"
  by (rule foldM_invariant [OF assms]) (auto dest: apply_op_frame)

section \<open>File rows within one transaction\<close>

definition file_step :: "uuid \<Rightarrow> txn_id \<Rightarrow> file_row \<Rightarrow> file_row \<Rightarrow> bool" where
  "file_step tu x r r' \<longleftrightarrow>
     r' = r \<or> (f_table_uuid r = tu \<and> f_removed_in r = None \<and> r' = r\<lparr>f_removed_in := Some x\<rparr>)"

definition file_written :: "uuid \<Rightarrow> txn_id \<Rightarrow> file_row \<Rightarrow> bool" where
  "file_written tu x r \<longleftrightarrow> f_table_uuid r = tu \<and> f_added_in r = x \<and> f_removed_in r \<in> {None, Some x}"

definition files_step :: "uuid \<Rightarrow> txn_id \<Rightarrow> file_row list \<Rightarrow> file_row list \<Rightarrow> bool" where
  "files_step tu x fs fs' \<longleftrightarrow>
     (\<exists>mid new. fs' = mid @ new \<and> list_all2 (file_step tu x) fs mid \<and> list_all (file_written tu x) new)"

lemma file_step_refl [simp, intro]: "file_step tu x r r"
  by (simp add: file_step_def)

lemma file_step_trans: "file_step tu x r s \<Longrightarrow> file_step tu x s t \<Longrightarrow> file_step tu x r t"
  by (auto simp: file_step_def)

lemma file_step_written: "file_written tu x r \<Longrightarrow> file_step tu x r s \<Longrightarrow> file_written tu x s"
  by (auto simp: file_step_def file_written_def)

lemma files_step_refl: "files_step tu x fs fs"
  by (auto simp: files_step_def list_all2_refl intro: exI [of _ fs] exI [of _ "[]"])

lemma files_step_trans:
  assumes "files_step tu x fs gs" and "files_step tu x gs hs"
  shows "files_step tu x fs hs"
proof -
  from assms(1) obtain m1 n1 where 1: "gs = m1 @ n1" "list_all2 (file_step tu x) fs m1"
    "list_all (file_written tu x) n1" by (auto simp: files_step_def)
  from assms(2) obtain m2 n2 where 2: "hs = m2 @ n2" "list_all2 (file_step tu x) gs m2"
    "list_all (file_written tu x) n2" by (auto simp: files_step_def)
  from 1(1) 2(2) obtain a b where ab: "m2 = a @ b" "list_all2 (file_step tu x) m1 a"
    "list_all2 (file_step tu x) n1 b" by (auto simp: list_all2_append1)
  have "list_all2 (file_step tu x) fs a"
    by (rule list_all2_trans [OF _ 1(2) ab(2)]) (rule file_step_trans)
  moreover have "list_all (file_written tu x) b"
    using 1(3) ab(3) file_step_written
    by (auto simp: list_all_length list_all2_conv_all_nth)
  ultimately show ?thesis using ab 2 unfolding files_step_def
    by (intro exI [of _ a] exI [of _ "b @ n2"]) simp
qed

lemma apply_op_files:
  assumes "apply_op cat dr tu x cs st op = Inr st'"
  shows "files_step tu x (db_files (cm_db st)) (db_files (cm_db st'))"
proof (cases op)
  case (AppendFiles fs)
  with assms have "append_files cat dr tu x fs st = Inr st'" by (simp add: apply_op_def)
  then obtain k rows where rows: "file_rows (cat_libs cat) (dr_v4 dr) tu x (cm_v4 st) fs = Inr (k, rows)"
    and st': "st' = st\<lparr>cm_v4 := k, cm_db := (cm_db st)\<lparr>db_files := db_files (cm_db st) @ rows\<rparr>\<rparr>"
    by (rule append_files_effect)
  have "list_all (file_written tu x) rows"
    using file_rows_written [OF rows] by (auto simp: list_all_iff file_written_def)
  then show ?thesis unfolding files_step_def st'
    by (intro exI [of _ "db_files (cm_db st)"] exI [of _ rows]) (simp add: list_all2_refl)
next
  case (DeleteFiles us)
  with assms have "delete_files cat tu x us st = Inr st'" by (simp add: apply_op_def)
  from delete_files_effect(2) [OF this]
  have "db_files (cm_db st') = map (mark_removed tu x us) (db_files (cm_db st))" by simp
  then show ?thesis unfolding files_step_def
    by (intro exI [of _ "db_files (cm_db st')"] exI [of _ "[]"])
       (auto simp: list_all2_conv_all_nth file_step_def file_removable_def)
next
  case (UpdateSchema spec)
  with assms have "update_schema cat dr tu x cs spec st = Inr st'" by (simp add: apply_op_def)
  then show ?thesis by (rule update_schema_db) (simp add: files_step_refl)
qed (use assms in \<open>auto simp: apply_op_def files_step_refl dest!: set_properties_effect remove_properties_effect\<close>)

lemma apply_ops_files:
  assumes "foldM (apply_op cat dr tu x cs) st ops = Inr st'"
  shows "files_step tu x (db_files (cm_db st)) (db_files (cm_db st'))"
  by (rule foldM_invariant [OF assms, where P = "\<lambda>s. files_step tu x (db_files (cm_db st)) (db_files (cm_db s))"])
     (auto simp: files_step_refl intro: files_step_trans apply_op_files)

section \<open>Live files: the abstract effect of a mutation\<close>

definition live :: "uuid \<Rightarrow> db \<Rightarrow> file_row list" where
  "live tu d = filter (\<lambda>r. f_table_uuid r = tu \<and> f_removed_in r = None) (db_files d)"

fun live_step :: "libs \<Rightarrow> (nat \<Rightarrow> uuid) \<Rightarrow> uuid \<Rightarrow> txn_id \<Rightarrow> mutation_op \<Rightarrow> nat \<times> file_row list \<Rightarrow> nat \<times> file_row list" where
  "live_step lib v4 tu x (AppendFiles fs) (k, l) =
     (case file_rows lib v4 tu x k fs of Inr (k', rows) \<Rightarrow> (k', l @ rows) | Inl _ \<Rightarrow> (k, l))"
| "live_step lib v4 tu x (DeleteFiles us) (k, l) = (k, filter (\<lambda>r. f_file_uuid r \<notin> set us) l)"
| "live_step lib v4 tu x (UpdateSchema spec) (k, l) = (k + 1 + length (ss_columns spec), l)"
| "live_step lib v4 tu x (SetProperties p) (k, l) = (k, l)"
| "live_step lib v4 tu x (RemoveProperties ks) (k, l) = (k, l)"

definition abs_live :: "uuid \<Rightarrow> commit_state \<Rightarrow> nat \<times> file_row list" where
  "abs_live tu st = (cm_v4 st, live tu (cm_db st))"

lemma live_mark_removed:
  "filter (\<lambda>r. f_table_uuid r = tu \<and> f_removed_in r = None) (map (mark_removed tu x us) fs)
     = filter (\<lambda>r. f_file_uuid r \<notin> set us) (filter (\<lambda>r. f_table_uuid r = tu \<and> f_removed_in r = None) fs)"
  by (induction fs) (auto simp: file_removable_def)

lemma apply_op_live:
  assumes "apply_op cat dr tu x cs st op = Inr st'"
  shows "abs_live tu st' = live_step (cat_libs cat) (dr_v4 dr) tu x op (abs_live tu st)"
proof (cases op)
  case (AppendFiles fs)
  with assms have "append_files cat dr tu x fs st = Inr st'" by (simp add: apply_op_def)
  then obtain k rows where rows: "file_rows (cat_libs cat) (dr_v4 dr) tu x (cm_v4 st) fs = Inr (k, rows)"
    and st': "st' = st\<lparr>cm_v4 := k, cm_db := (cm_db st)\<lparr>db_files := db_files (cm_db st) @ rows\<rparr>\<rparr>"
    by (rule append_files_effect)
  have "filter (\<lambda>r. f_table_uuid r = tu \<and> f_removed_in r = None) rows = rows"
    using file_rows_written [OF rows] by (auto simp: list_all_iff filter_id_conv)
  then show ?thesis using rows AppendFiles by (simp add: abs_live_def live_def st')
next
  case (DeleteFiles us)
  with assms have "delete_files cat tu x us st = Inr st'" by (simp add: apply_op_def)
  from delete_files_effect(2) [OF this] DeleteFiles show ?thesis
    by (simp add: abs_live_def live_def live_mark_removed)
next
  case (UpdateSchema spec)
  with assms have us: "update_schema cat dr tu x cs spec st = Inr st'" by (simp add: apply_op_def)
  then have "cm_v4 st' = cm_v4 st + 1 + length (ss_columns spec)"
    by (rule update_schema_effect) (metis commit_state.select_convs(2) commit_state.simps(6,7,8) commit_state.surjective)
  moreover from us have "db_files (cm_db st') = db_files (cm_db st)"
    by (rule update_schema_db) simp
  ultimately show ?thesis using UpdateSchema by (simp add: abs_live_def live_def)
qed (use assms in \<open>auto simp: apply_op_def abs_live_def dest!: set_properties_effect remove_properties_effect\<close>)

lemma apply_ops_live:
  assumes "foldM (apply_op cat dr tu x cs) st ops = Inr st'"
  shows "abs_live tu st' = fold (live_step (cat_libs cat) (dr_v4 dr) tu x) ops (abs_live tu st)"
  using assms
proof (induction ops arbitrary: st)
  case (Cons op ops)
  then show ?case by (auto simp: result_simps apply_op_live)
qed simp

section \<open>Schemas within one transaction\<close>

lemma apply_op_no_schema:
  assumes "apply_op cat dr tu x cs st op = Inr st'" and "\<not> is_update_schema op"
  shows "db_schemas (cm_db st') = db_schemas (cm_db st) \<and> db_columns (cm_db st') = db_columns (cm_db st)
     \<and> cm_new_schema_uuid st' = cm_new_schema_uuid st"
proof (cases op)
  case (AppendFiles fs)
  with assms have "append_files cat dr tu x fs st = Inr st'" by (simp add: apply_op_def)
  then show ?thesis by (rule append_files_effect) simp
next
  case (DeleteFiles us)
  with assms have "delete_files cat tu x us st = Inr st'" by (simp add: apply_op_def)
  from delete_files_effect(2) [OF this] show ?thesis by simp
qed (use assms in \<open>auto simp: apply_op_def dest!: set_properties_effect remove_properties_effect\<close>)

lemma apply_ops_no_schema:
  assumes "foldM (apply_op cat dr tu x cs) st ops = Inr st'" and "filter is_update_schema ops = []"
  shows "db_schemas (cm_db st') = db_schemas (cm_db st) \<and> db_columns (cm_db st') = db_columns (cm_db st)
     \<and> cm_new_schema_uuid st' = cm_new_schema_uuid st"
  using assms
proof (induction ops arbitrary: st)
  case (Cons op ops)
  then obtain s1 where s1: "apply_op cat dr tu x cs st op = Inr s1"
    and "foldM (apply_op cat dr tu x cs) s1 ops = Inr st'" and "\<not> is_update_schema op"
    by (auto simp: result_simps split: if_splits)
  with Cons.IH [of s1] Cons.prems(2) apply_op_no_schema [OF s1] show ?case by simp
qed simp

text \<open>A mutation with one schema update: the operations around it do not see the schemas, so
  there is one state in which the update ran and whose schemas are those of the start.\<close>

lemma apply_ops_one_schema:
  assumes run: "foldM (apply_op cat dr tu x cs) st ops = Inr st'"
    and one: "filter is_update_schema ops = [UpdateSchema spec]"
  obtains s1 s2 where "update_schema cat dr tu x cs spec s1 = Inr s2"
    "db_schemas (cm_db s1) = db_schemas (cm_db st)" "db_columns (cm_db s1) = db_columns (cm_db st)"
    "db_schemas (cm_db st') = db_schemas (cm_db s2)" "db_columns (cm_db st') = db_columns (cm_db s2)"
    "cm_new_schema_uuid st' = cm_new_schema_uuid s2"
    "db_tables (cm_db s1) = db_tables (cm_db st)" "db_transactions (cm_db s1) = db_transactions (cm_db st)"
proof -
  from one obtain as bs where ops: "ops = as @ UpdateSchema spec # bs"
    and as: "filter is_update_schema as = []" and bs: "filter is_update_schema bs = []"
    by (auto simp: filter_eq_Cons_iff filter_empty_conv eq_commute [of "[]" "filter _ _"])
  from run ops obtain s1 s2 where 1: "foldM (apply_op cat dr tu x cs) st as = Inr s1"
    and 2: "apply_op cat dr tu x cs s1 (UpdateSchema spec) = Inr s2"
    and 3: "foldM (apply_op cat dr tu x cs) s2 bs = Inr st'"
    by (auto simp: foldM_append result_simps)
  show thesis
    by (rule that [of s1 s2])
       (use 2 apply_ops_no_schema [OF 1 as] apply_ops_no_schema [OF 3 bs] apply_ops_frame [OF 1]
        in \<open>simp_all add: apply_op_def\<close>)
qed

end
