(* ===== verification/History.thy ===== *)
theory History
  imports Catalog
begin

text \<open>
  The reading half of the catalog: snapshots, the event log and deltas. The two loops that
  follow \<open>parent_transaction_id\<close> stop on a repeated transaction, so they are total functions:
  the number of transaction rows not yet visited decreases. A read operation is a function of
  one database state here; \<open>Queries\<close> and \<open>Atomicity\<close> justify it. A query without \<open>ORDER BY\<close> returns rows in insertion order here; the
  hash maps of \<open>project_delta_range\<close> are association lists in order of last insertion.
\<close>

text \<open>\<open>LIMIT m + 1\<close>: the queries fetch one row more than the limit they enforce.\<close>

definition limit_rows :: "u32 \<Rightarrow> 'a list \<Rightarrow> 'a list" where
  "limit_rows m rows = take (unat m + 1) rows"

section \<open>Decoding rows\<close>

definition file_struct_of_row :: "libs \<Rightarrow> file_row \<Rightarrow> catalog_error + file_struct" where
  "file_struct_of_row lib row =
     rbind (parse_json_optional (lib_json lib) (f_partition_values row)) (\<lambda>partition_values.
     rbind (parse_json_optional (lib_json lib) (f_format_options row)) (\<lambda>format_options.
       Inr \<lparr>fi_file_uuid = f_file_uuid row, fi_table_uuid = f_table_uuid row,
            fi_file_format = f_file_format row, fi_file_path = f_file_path row,
            fi_record_count = f_record_count row, fi_file_size_bytes = f_file_size_bytes row,
            fi_added_in_transaction_id = f_added_in row,
            fi_removed_in_transaction_id = f_removed_in row,
            fi_partition_values = partition_values, fi_format_options = format_options\<rparr>))"

definition column_struct_of_row :: "libs \<Rightarrow> column_row \<Rightarrow> catalog_error + column_struct" where
  "column_struct_of_row lib row =
     rbind (decode_data_type (lib_root_as_schema lib) (c_column_type row)) (\<lambda>column_type.
       Inr \<lparr>co_column_uuid = c_column_uuid row, co_schema_uuid = c_schema_uuid row,
            co_column_name = c_column_name row, co_column_type = column_type,
            co_ordinal_position = c_ordinal_position row, co_is_nullable = c_is_nullable row\<rparr>)"

definition schema_struct_of_row :: "schema_row \<Rightarrow> column_struct list \<Rightarrow> schema_struct" where
  "schema_struct_of_row row columns =
     \<lparr>sc_schema_uuid = s_schema_uuid row, sc_table_uuid = s_table_uuid row,
      sc_schema_version = s_schema_version row, sc_valid_from_transaction_id = s_valid_from row,
      sc_valid_to_transaction_id = s_valid_to row, sc_created_at = s_created_at row,
      sc_columns = columns\<rparr>"

definition stats_struct_of_row :: "stats_row \<Rightarrow> table_stats_struct" where
  "stats_struct_of_row row =
     \<lparr>st_table_uuid = r_table_uuid row, st_transaction_id = r_transaction_id row,
      st_record_count = r_record_count row, st_file_size_bytes = r_file_size_bytes row,
      st_file_count = r_file_count row, st_last_updated = r_last_updated row\<rparr>"

definition schema_columns ::
  "libs \<Rightarrow> limit_msg \<Rightarrow> uuid \<Rightarrow> db \<Rightarrow> catalog_error + column_struct list" where
  "schema_columns lib over_limit schema_uuid d =
     (let column_rows = limit_rows MAX_COLUMNS_PER_SCHEMA
            (sort_key (\<lambda>r. sint (c_ordinal_position r)) (select_columns schema_uuid d))
      in if unat MAX_COLUMNS_PER_SCHEMA < length column_rows then Inl (LimitExceeded over_limit)
         else mapM (column_struct_of_row lib) column_rows)"

section \<open>Following the parent chain\<close>

text \<open>The loop of \<open>list_transaction_events\<close>. The list of the transactions met so far serves as
  the \<open>visited\<close> set too: the source adds each transaction to both.\<close>

function walk_events ::
  "db \<Rightarrow> uuid \<Rightarrow> txn_id option \<Rightarrow> txn_id list \<Rightarrow> txn_id \<Rightarrow> catalog_error + txn_id list \<times> bool" where
  "walk_events d table_uuid from_exclusive txn_ids_desc cursor_txn =
     (if cursor_txn \<in> set txn_ids_desc then Inl (InvalidState ChainCycle)
      else case select_txn table_uuid cursor_txn d of
        None \<Rightarrow> Inl (InvalidState RequestedTxnMissing)
      | Some row \<Rightarrow>
          (let desc' = txn_ids_desc @ [cursor_txn] in
           if unat MAX_TRANSACTIONS_PER_SCAN < length desc'
           then Inl (LimitExceeded (TransactionScan MAX_TRANSACTIONS_PER_SCAN))
           else case x_parent_transaction_id row of
             Some parent_id \<Rightarrow>
               if Some parent_id = from_exclusive then Inr (desc', True)
               else walk_events d table_uuid from_exclusive desc' parent_id
           | None \<Rightarrow> Inr (desc', from_exclusive = None)))"
  by pat_completeness auto

lemma unvisited_decreases:
  assumes "select_txn tu c d = Some row" and "c \<notin> set vs"
  shows "card (txn_ids d - insert c (set vs)) < card (txn_ids d - set vs)"
proof -
  have "c \<in> txn_ids d" using select_txn_Some [OF assms(1)] by auto
  with assms(2) show ?thesis by (intro psubset_card_mono) auto
qed

termination walk_events
  by (relation "measure (\<lambda>(d, tu, f, desc, c). card (txn_ids d - set desc))")
     (auto simp: unvisited_decreases)

text \<open>The loop of \<open>read_table\<close>: is the target an ancestor of the cursor?\<close>

function walk_history ::
  "db \<Rightarrow> uuid \<Rightarrow> txn_id \<Rightarrow> txn_id list \<Rightarrow> txn_id \<Rightarrow> catalog_error + bool" where
  "walk_history d table_uuid target visited cursor_txn =
     (if cursor_txn \<in> set visited then Inl (InvalidState ChainCycle)
      else if cursor_txn = target then Inr True
      else case select_txn table_uuid cursor_txn d of
        None \<Rightarrow> Inl (InvalidState ChainBroken)
      | Some row \<Rightarrow>
          (case x_parent_transaction_id row of
             Some parent_id \<Rightarrow> walk_history d table_uuid target (cursor_txn # visited) parent_id
           | None \<Rightarrow> Inr False))"
  by pat_completeness auto
termination walk_history
  by (relation "measure (\<lambda>(d, tu, t, vs, c). card (txn_ids d - set vs))")
     (auto simp: unvisited_decreases)

declare walk_events.simps [simp del] walk_history.simps [simp del]

section \<open>The event log\<close>

definition added_change ::
  "libs \<Rightarrow> nat \<times> txn_file_change list \<Rightarrow> file_row \<Rightarrow> catalog_error + nat \<times> txn_file_change list" where
  "added_change lib s row =
     (let added_file_events = fst s + 1 in
      if unat MAX_FILES_PER_QUERY < added_file_events
      then Inl (LimitExceeded (AddedFileEvents MAX_FILES_PER_QUERY))
      else rbind (file_struct_of_row lib row) (\<lambda>file.
        Inr (added_file_events,
             snd s @ [\<lparr>ch_transaction_id = f_added_in row, ch_kind = Added, ch_file = file\<rparr>])))"

definition removed_change ::
  "libs \<Rightarrow> nat \<times> txn_file_change list \<Rightarrow> file_row \<Rightarrow> catalog_error + nat \<times> txn_file_change list" where
  "removed_change lib s row =
     (let removed_file_events = fst s + 1 in
      if unat MAX_FILES_PER_QUERY < removed_file_events
      then Inl (LimitExceeded (RemovedFileEvents MAX_FILES_PER_QUERY))
      else rbind (ok_or (InvalidState MissingRemovedTxn) (f_removed_in row)) (\<lambda>removed_in.
           rbind (file_struct_of_row lib row) (\<lambda>file.
             Inr (removed_file_events,
                  snd s @ [\<lparr>ch_transaction_id = removed_in, ch_kind = Removed,
                            ch_file = file\<lparr>fi_removed_in_transaction_id := Some removed_in\<rparr>\<rparr>]))))"

definition schema_event ::
  "libs \<Rightarrow> db \<Rightarrow> uuid \<Rightarrow> nat \<Rightarrow> txn_id \<Rightarrow> catalog_error + nat \<times> txn_schema_change option" where
  "schema_event lib d table_uuid schema_change_events transaction_id =
     (let schema_rows = take 2 (filter (\<lambda>r. s_table_uuid r = table_uuid
                                        \<and> s_valid_from r = transaction_id) (db_schemas d))
      in if 1 < length schema_rows then Inl (InvalidState MultipleSchemas)
         else case schema_rows of
           [] \<Rightarrow> Inr (schema_change_events, None)
         | schema_row # _ \<Rightarrow>
             let n = schema_change_events + 1 in
             if unat MAX_SCHEMA_CHANGES_PER_SCAN < n
             then Inl (LimitExceeded (SchemaChangeEvents MAX_SCHEMA_CHANGES_PER_SCAN))
             else rbind (schema_columns lib (SchemaChangeColumns MAX_COLUMNS_PER_SCHEMA)
                           (s_schema_uuid schema_row) d) (\<lambda>columns.
               Inr (n, Some \<lparr>sg_transaction_id = s_valid_from schema_row,
                             sg_schema = schema_struct_of_row schema_row columns\<rparr>)))"

record event_counts =
  n_added :: nat
  n_removed :: nat
  n_schema :: nat

definition transaction_event ::
  "libs \<Rightarrow> db \<Rightarrow> uuid \<Rightarrow> event_counts \<times> txn_event list \<Rightarrow> txn_id
     \<Rightarrow> catalog_error + event_counts \<times> txn_event list" where
  "transaction_event lib d table_uuid s transaction_id =
     (case s of (n, events) \<Rightarrow>
        let added_rows = limit_rows MAX_FILES_PER_QUERY (filter (\<lambda>r. f_table_uuid r = table_uuid
                           \<and> f_added_in r = transaction_id) (db_files d));
            removed_rows = limit_rows MAX_FILES_PER_QUERY (filter (\<lambda>r. f_table_uuid r = table_uuid
                             \<and> f_removed_in r = Some transaction_id) (db_files d))
        in rbind (foldM (added_change lib) (n_added n, []) added_rows) (\<lambda>(a, changes1).
           rbind (foldM (removed_change lib) (n_removed n, changes1) removed_rows) (\<lambda>(b, changes2).
           rbind (schema_event lib d table_uuid (n_schema n) transaction_id) (\<lambda>(c, schema_change).
             Inr (\<lparr>n_added = a, n_removed = b, n_schema = c\<rparr>,
                  events @ [\<lparr>ev_transaction_id = transaction_id, ev_file_changes = changes2,
                             ev_schema_change = schema_change\<rparr>])))))"

definition events_of ::
  "libs \<Rightarrow> db \<Rightarrow> uuid \<Rightarrow> txn_id list \<Rightarrow> catalog_error + txn_event list" where
  "events_of lib d table_uuid txns =
     rbind (foldM (transaction_event lib d table_uuid) (\<lparr>n_added = 0, n_removed = 0, n_schema = 0\<rparr>, []) txns)
       (\<lambda>(_, events). Inr events)"

definition event_range ::
  "sql_catalog \<Rightarrow> table_ident \<Rightarrow> txn_range_cursor \<Rightarrow> db \<Rightarrow> catalog_error + uuid \<times> txn_id list" where
  "event_range cat ident cursor d =
     rbind (ok_or (NotFound (TableName (ti_namespace ident) (ti_name ident)))
              (select_table (ti_namespace ident) (ti_name ident) d)) (\<lambda>table_row.
     rbind (ok_or (InvalidState NoCurrentTransaction) (t_current_transaction_id table_row)) (\<lambda>current_txn.
     if current_txn \<noteq> rc_to_inclusive cursor
        \<and> select_txn (t_table_uuid table_row) (rc_to_inclusive cursor) d = None
     then Inl (InvalidState RequestedTxnMissing)
     else rbind (walk_events d (t_table_uuid table_row) (rc_from_exclusive cursor) [] (rc_to_inclusive cursor))
       (\<lambda>(txn_ids_desc, reached_from_boundary).
          if \<not> reached_from_boundary then Inl (InvalidState NotAncestor)
          else Inr (t_table_uuid table_row, rev txn_ids_desc))))"

definition list_transaction_events ::
  "sql_catalog \<Rightarrow> table_ident \<Rightarrow> txn_range_cursor \<Rightarrow> db \<Rightarrow> catalog_error + txn_event list" where
  "list_transaction_events cat ident cursor d =
     rbind (event_range cat ident cursor d) (\<lambda>(table_uuid, txns). events_of (cat_libs cat) d table_uuid txns)"

section \<open>Snapshots\<close>

definition schema_valid_at :: "uuid \<Rightarrow> txn_id \<Rightarrow> schema_row \<Rightarrow> bool" where
  "schema_valid_at table_uuid t r \<longleftrightarrow>
     s_table_uuid r = table_uuid \<and> s_valid_from r \<le> t
     \<and> (case s_valid_to r of None \<Rightarrow> True | Some v \<Rightarrow> t < v)"

definition file_visible_at :: "uuid \<Rightarrow> txn_id \<Rightarrow> file_row \<Rightarrow> bool" where
  "file_visible_at table_uuid t r \<longleftrightarrow>
     f_table_uuid r = table_uuid \<and> f_added_in r \<le> t
     \<and> (case f_removed_in r of None \<Rightarrow> True | Some v \<Rightarrow> t < v)"

definition read_schema ::
  "libs \<Rightarrow> table_ident \<Rightarrow> uuid \<Rightarrow> txn_id \<Rightarrow> db \<Rightarrow> catalog_error + schema_struct" where
  "read_schema lib ident table_uuid t d =
     rbind (ok_or (NotFound (NoSchemaAt (ti_namespace ident) (ti_name ident) t))
              (find (schema_valid_at table_uuid t) (db_schemas d))) (\<lambda>schema_row.
     rbind (schema_columns lib (ColumnCount MAX_COLUMNS_PER_SCHEMA) (s_schema_uuid schema_row) d)
       (\<lambda>columns. Inr (schema_struct_of_row schema_row columns)))"

definition read_files :: "libs \<Rightarrow> uuid \<Rightarrow> txn_id \<Rightarrow> db \<Rightarrow> catalog_error + file_struct list" where
  "read_files lib table_uuid t d =
     (let file_rows = limit_rows MAX_FILES_PER_QUERY (filter (file_visible_at table_uuid t) (db_files d))
      in if unat MAX_FILES_PER_QUERY < length file_rows
         then Inl (LimitExceeded (FileCount MAX_FILES_PER_QUERY))
         else mapM (file_struct_of_row lib) file_rows)"

definition read_stats :: "uuid \<Rightarrow> txn_id \<Rightarrow> db \<Rightarrow> table_stats_struct option" where
  "read_stats table_uuid t d =
     map_option stats_struct_of_row
       (find (\<lambda>r. r_table_uuid r = table_uuid \<and> r_transaction_id r = t) (db_table_stats d))"

definition read_head ::
  "sql_catalog \<Rightarrow> table_ident \<Rightarrow> db \<Rightarrow> catalog_error + table_row \<times> table_properties \<times> txn_id" where
  "read_head cat ident d =
     (case select_table (ti_namespace ident) (ti_name ident) d of
        None \<Rightarrow> Inl (NotFound (TableName (ti_namespace ident) (ti_name ident)))
      | Some table_row \<Rightarrow>
          rbind (parse_table_properties (lib_json (cat_libs cat)) (t_properties table_row)) (\<lambda>properties.
          rbind (ensure_reader_protocol_compatible cat ident (t_min_reader_version table_row)) (\<lambda>_.
          rbind (ok_or (InvalidState NoCurrentTransaction) (t_current_transaction_id table_row))
            (\<lambda>current_txn. Inr (table_row, properties, current_txn)))))"

definition check_in_history :: "uuid \<Rightarrow> txn_id \<Rightarrow> txn_id \<Rightarrow> db \<Rightarrow> catalog_error + unit" where
  "check_in_history table_uuid current_txn effective d =
     (if effective = current_txn then Inr ()
      else rbind (walk_history d table_uuid effective [] current_txn) (\<lambda>found.
        if found then Inr () else Inl (InvalidState NotInHistory)))"

definition read_table ::
  "sql_catalog \<Rightarrow> table_ident \<Rightarrow> txn_id option \<Rightarrow> db \<Rightarrow> catalog_error + table_view" where
  "read_table cat ident at_transaction_id d =
     rbind (read_head cat ident d) (\<lambda>(table_row, properties, current_txn).
       let table_uuid = t_table_uuid table_row;
           effective = (case at_transaction_id of Some t \<Rightarrow> t | None \<Rightarrow> current_txn)
       in
     rbind (check_in_history table_uuid current_txn effective d) (\<lambda>_.
     rbind (read_schema (cat_libs cat) ident table_uuid effective d) (\<lambda>schema.
     rbind (read_files (cat_libs cat) table_uuid effective d) (\<lambda>files.
       Inr \<lparr>tv_ident = ident, tv_table_uuid = table_uuid, tv_transaction_id = effective,
            tv_schema = schema, tv_files = files, tv_properties = properties,
            tv_stats = read_stats table_uuid effective d\<rparr>))))"

section \<open>Deltas\<close>

definition hash_remove :: "'k \<Rightarrow> ('k \<times> 'v) list \<Rightarrow> ('k \<times> 'v) list" where
  "hash_remove k m = filter (\<lambda>e. fst e \<noteq> k) m"

definition hash_insert :: "'k \<Rightarrow> 'v \<Rightarrow> ('k \<times> 'v) list \<Rightarrow> ('k \<times> 'v) list" where
  "hash_insert k v m = hash_remove k m @ [(k, v)]"

type_synonym file_map = "(uuid \<times> file_struct) list"

definition project_change :: "txn_file_change \<Rightarrow> file_map \<times> file_map \<Rightarrow> file_map \<times> file_map" where
  "project_change change s =
     (case s of (added, removed) \<Rightarrow>
        let file_uuid = fi_file_uuid (ch_file change) in
        case ch_kind change of
          Added \<Rightarrow> (hash_insert file_uuid (ch_file change) added, hash_remove file_uuid removed)
        | Removed \<Rightarrow>
            (if map_of added file_uuid = None
             then (added, hash_insert file_uuid (ch_file change) removed)
             else (hash_remove file_uuid added, removed)))"

definition project_delta_range ::
  "txn_id \<Rightarrow> txn_id \<Rightarrow> txn_event list \<Rightarrow> schema_struct option \<Rightarrow> table_properties option \<Rightarrow> table_delta" where
  "project_delta_range from_id to_id events new_schema new_properties =
     (let (added, removed) = fold (\<lambda>event. fold project_change (ev_file_changes event)) events ([], [])
      in \<lparr>td_from_transaction_id = from_id, td_to_transaction_id = to_id,
          td_added_files = map snd added, td_removed_files = map snd removed,
          td_new_schema = new_schema, td_new_properties = new_properties\<rparr>)"

definition diff_table ::
  "sql_catalog \<Rightarrow> table_ident \<Rightarrow> txn_id \<Rightarrow> txn_id \<Rightarrow> db \<Rightarrow> catalog_error + table_delta" where
  "diff_table cat ident from_id to_id d =
     rbind (list_transaction_events cat ident \<lparr>rc_from_exclusive = Some from_id, rc_to_inclusive = to_id\<rparr> d)
       (\<lambda>events.
     rbind (read_table cat ident (Some from_id) d) (\<lambda>from_view.
     rbind (read_table cat ident (Some to_id) d) (\<lambda>to_view.
       let new_schema = (if sc_schema_uuid (tv_schema from_view) \<noteq> sc_schema_uuid (tv_schema to_view)
                         then Some (tv_schema to_view) else None);
           new_properties = (if tv_properties from_view \<noteq> tv_properties to_view
                             then Some (tv_properties to_view) else None)
       in Inr (project_delta_range from_id to_id events new_schema new_properties))))"

text \<open>Evaluation without building the row limit in unary.\<close>

lemma limited_rows:
  "(if unat m < length (limit_rows m xs) then a else f (limit_rows m xs)) = (if unat m < length xs then a else f xs)"
  by (cases "unat m < length xs") (simp_all add: limit_rows_def)

lemma unat_less_int: "unat m < n \<longleftrightarrow> uint m < int n"
  by (simp only: uint_nat of_nat_less_iff)

lemma read_files_code [code]:
  "read_files lib table_uuid t d =
     (let file_rows = filter (file_visible_at table_uuid t) (db_files d)
      in if uint MAX_FILES_PER_QUERY < int (length file_rows)
         then Inl (LimitExceeded (FileCount MAX_FILES_PER_QUERY))
         else mapM (file_struct_of_row lib) file_rows)"
  unfolding read_files_def Let_def unat_less_int [symmetric] by (rule limited_rows)

lemma schema_columns_code [code]:
  "schema_columns lib over_limit schema_uuid d =
     (let column_rows = sort_key (\<lambda>r. sint (c_ordinal_position r)) (select_columns schema_uuid d)
      in if uint MAX_COLUMNS_PER_SCHEMA < int (length column_rows) then Inl (LimitExceeded over_limit)
         else mapM (column_struct_of_row lib) column_rows)"
  unfolding schema_columns_def Let_def unat_less_int [symmetric] by (rule limited_rows)

lemma limit_rows_code [code]:
  "limit_rows m xs = (if int (length xs) \<le> uint m + 1 then xs else take (unat m + 1) xs)"
proof -
  have "int (length xs) \<le> uint m + 1 \<longleftrightarrow> length xs \<le> unat m + 1"
    unfolding uint_nat by linarith
  then show ?thesis by (simp add: limit_rows_def)
qed

lemma walk_events_code [code]:
  "walk_events d table_uuid from_exclusive txn_ids_desc cursor_txn =
     (if cursor_txn \<in> set txn_ids_desc then Inl (InvalidState ChainCycle)
      else case select_txn table_uuid cursor_txn d of
        None \<Rightarrow> Inl (InvalidState RequestedTxnMissing)
      | Some row \<Rightarrow>
          (let desc' = txn_ids_desc @ [cursor_txn] in
           if uint MAX_TRANSACTIONS_PER_SCAN < int (length desc')
           then Inl (LimitExceeded (TransactionScan MAX_TRANSACTIONS_PER_SCAN))
           else case x_parent_transaction_id row of
             Some parent_id \<Rightarrow>
               if Some parent_id = from_exclusive then Inr (desc', True)
               else walk_events d table_uuid from_exclusive desc' parent_id
           | None \<Rightarrow> Inr (desc', from_exclusive = None)))"
  unfolding unat_less_int [symmetric] by (rule walk_events.simps)

lemmas added_change_code [code] = added_change_def [unfolded unat_less_int]
lemmas removed_change_code [code] = removed_change_def [unfolded unat_less_int]
lemmas schema_event_code [code] = schema_event_def [unfolded unat_less_int]

definition postgres_event_range where "postgres_event_range lib pv = event_range (postgres lib pv)"
definition postgres_transaction_event where
  "postgres_transaction_event lib pv = transaction_event (cat_libs (postgres lib pv))"
definition postgres_list_transaction_events where
  "postgres_list_transaction_events lib pv = list_transaction_events (postgres lib pv)"
definition postgres_read_head where "postgres_read_head lib pv = read_head (postgres lib pv)"
definition postgres_read_table where "postgres_read_table lib pv = read_table (postgres lib pv)"
definition postgres_read_files where
  "postgres_read_files lib pv = read_files (cat_libs (postgres lib pv))"
definition postgres_diff_table where "postgres_diff_table lib pv = diff_table (postgres lib pv)"

end
