(* ===== verification/Invariant.thy ===== *)
theory Invariant
  imports Effects History
begin

text \<open>
  The well-formedness of the control-plane database and its preservation by every operation
  that writes. Per table: the transactions form one line, each the parent of the next, with
  increasing identifiers, the last one being the head of the table; the schemas partition that
  line into consecutive validity ranges, the last one open and current; every file was added,
  and possibly removed, by transactions of the line. \<open>reachable\<close> is the step relation of the
  catalog: any clients, on either backend, in any order. The only assumption on the
  environment is that a new transaction identifier (a UUIDv7) is greater than the head it
  builds on.
\<close>

section \<open>Keys and references\<close>

definition keys_ok :: "db \<Rightarrow> bool" where
  "keys_ok d \<longleftrightarrow> distinct (map t_table_uuid (db_tables d)) \<and> distinct (map table_key (db_tables d))
     \<and> distinct (map x_transaction_id (db_transactions d))
     \<and> distinct (map s_schema_uuid (db_schemas d))
     \<and> distinct (map c_column_uuid (db_columns d)) \<and> distinct (map column_key (db_columns d))
     \<and> distinct (map f_file_uuid (db_files d))"

definition refs_ok :: "db \<Rightarrow> bool" where
  "refs_ok d \<longleftrightarrow> list_all (\<lambda>r. x_table_uuid r \<in> table_ids d) (db_transactions d)
     \<and> list_all (\<lambda>r. s_table_uuid r \<in> table_ids d) (db_schemas d)
     \<and> list_all (\<lambda>r. f_table_uuid r \<in> table_ids d) (db_files d)
     \<and> list_all (\<lambda>r. c_schema_uuid r \<in> schema_ids d) (db_columns d)
     \<and> db_table_stats d = []"

section \<open>The history of one table\<close>

definition table_txns :: "uuid \<Rightarrow> db \<Rightarrow> txn_row list" where
  "table_txns tu d = filter (\<lambda>r. x_table_uuid r = tu) (db_transactions d)"

definition table_schemas :: "uuid \<Rightarrow> db \<Rightarrow> schema_row list" where
  "table_schemas tu d = filter (\<lambda>r. s_table_uuid r = tu) (db_schemas d)"

definition table_files :: "uuid \<Rightarrow> db \<Rightarrow> file_row list" where
  "table_files tu d = filter (\<lambda>r. f_table_uuid r = tu) (db_files d)"

definition history_ok :: "table_row \<Rightarrow> txn_row list \<Rightarrow> bool" where
  "history_ok r xs \<longleftrightarrow> xs \<noteq> []
     \<and> map x_parent_transaction_id xs = None # map (\<lambda>x. Some (x_transaction_id x)) (butlast xs)
     \<and> sorted_wrt (<) (map x_transaction_id xs)
     \<and> t_current_transaction_id r = Some (x_transaction_id (last xs))"

definition schemas_ok :: "table_row \<Rightarrow> txn_row list \<Rightarrow> schema_row list \<Rightarrow> bool" where
  "schemas_ok r xs ss \<longleftrightarrow> ss \<noteq> []
     \<and> t_current_schema_uuid r = Some (s_schema_uuid (last ss))
     \<and> map s_valid_to ss = map (\<lambda>s. Some (s_valid_from s)) (tl ss) @ [None]
     \<and> sorted_wrt (<) (map s_valid_from ss)
     \<and> s_valid_from (hd ss) = x_transaction_id (hd xs)
     \<and> set (map s_valid_from ss) \<subseteq> set (map x_transaction_id xs)
     \<and> map s_schema_version ss = map (\<lambda>n. word_of_nat (Suc n)) [0 ..< length ss]"

definition file_in_history :: "txn_id set \<Rightarrow> file_row \<Rightarrow> bool" where
  "file_in_history ids f \<longleftrightarrow> f_added_in f \<in> ids
     \<and> (case f_removed_in f of None \<Rightarrow> True | Some y \<Rightarrow> y \<in> ids \<and> f_added_in f \<le> y)"

definition table_ok :: "db \<Rightarrow> table_row \<Rightarrow> bool" where
  "table_ok d r \<longleftrightarrow>
     (let tu = t_table_uuid r; xs = table_txns tu d
      in history_ok r xs \<and> schemas_ok r xs (table_schemas tu d)
         \<and> list_all (file_in_history (set (map x_transaction_id xs))) (table_files tu d))"

definition wf_db :: "db \<Rightarrow> bool" where
  "wf_db d \<longleftrightarrow> keys_ok d \<and> refs_ok d \<and> list_all (table_ok d) (db_tables d)"

lemma wf_empty: "wf_db empty_db"
  by (simp add: wf_db_def keys_ok_def refs_ok_def empty_db_def)

lemma wf_dest:
  assumes "wf_db d" and "r \<in> set (db_tables d)"
  shows "history_ok r (table_txns (t_table_uuid r) d)"
    and "schemas_ok r (table_txns (t_table_uuid r) d) (table_schemas (t_table_uuid r) d)"
    and "list_all (file_in_history (set (map x_transaction_id (table_txns (t_table_uuid r) d))))
           (table_files (t_table_uuid r) d)"
  using assms by (simp_all add: wf_db_def table_ok_def list_all_iff Let_def)

section \<open>Operations keep keys and references\<close>

lemma mark_removed_keys:
  "map f_file_uuid (map (mark_removed tu x us) fs) = map f_file_uuid fs"
  "map f_table_uuid (map (mark_removed tu x us) fs) = map f_table_uuid fs"
  by (induction fs) auto

lemma list_all_map_conv: "list_all (\<lambda>r. f r \<in> A) xs \<longleftrightarrow> set (map f xs) \<subseteq> A"
  by (auto simp: list_all_iff)

lemma insert_columns_keys:
  assumes "insert_columns rows d = Inr d'"
  shows "distinct (map c_column_uuid (db_columns d)) \<Longrightarrow> distinct (map c_column_uuid (db_columns d'))"
    and "distinct (map column_key (db_columns d)) \<Longrightarrow> distinct (map column_key (db_columns d'))"
  using assms columns_by_id.puts_distinct columns_by_name.puts_distinct
  unfolding insert_columns_def by blast+

lemma column_rows_schema: "r \<in> set (column_rows lib v4 su k ord cs) \<Longrightarrow> c_schema_uuid r = su"
  by (auto simp: column_rows_def)

lemma update_schema_keys:
  assumes us: "update_schema cat dr tu x cs spec st = Inr st'" and "tu \<in> table_ids (cm_db st)"
    and ok: "keys_ok (cm_db st)" "refs_ok (cm_db st)"
  shows "keys_ok (cm_db st') \<and> refs_ok (cm_db st')"
proof -
  let ?u = "dr_v4 dr (cm_v4 st)"
  let ?cols = "column_rows (cat_libs cat) (dr_v4 dr) ?u (cm_v4 st + 1) 0 (ss_columns spec)"
  from us obtain d2 where ins: "insert_columns ?cols d2 = Inr (cm_db st')"
    and "\<exists>d1 row cur. insert_schema row (cm_db st) = Inr d1 \<and> update_schema_valid_to x cur d1 = Inr d2"
    by (rule update_schema_effect) blast
  then have d2: "db_columns d2 = db_columns (cm_db st)"
    by (auto simp: update_schema_valid_to_def split: if_splits dest!: insert_schema_Inr)
  from us obtain cur ver where cur: "?u \<notin> schema_ids (cm_db st)"
    and db: "cm_db st' = (cm_db st)\<lparr>
       db_schemas := map (\<lambda>r. if s_schema_uuid r = cur then r\<lparr>s_valid_to := Some x\<rparr> else r) (db_schemas (cm_db st))
         @ [\<lparr>s_schema_uuid = ?u, s_table_uuid = tu, s_schema_version = ver + 1,
             s_valid_from = x, s_valid_to = None, s_created_at = dr_now dr\<rparr>],
       db_columns := db_columns (cm_db st) @ ?cols\<rparr>"
    by (rule update_schema_db)
  let ?close = "\<lambda>r. if s_schema_uuid r = cur then r\<lparr>s_valid_to := Some x\<rparr> else r"
  have ids: "map s_schema_uuid (map ?close ss) = map s_schema_uuid ss"
    "map s_table_uuid (map ?close ss) = map s_table_uuid ss" for ss
    by (induction ss) auto
  have sids: "schema_ids (cm_db st') = insert ?u (schema_ids (cm_db st))"
  proof -
    have "map s_schema_uuid (db_schemas (cm_db st')) = map s_schema_uuid (db_schemas (cm_db st)) @ [?u]"
      using ids(1) [of "db_schemas (cm_db st)"] by (simp add: db del: map_map)
    from arg_cong [OF this, of set] show ?thesis by simp
  qed
  have "keys_ok (cm_db st')"
    using ok(1) cur ids(1) [of "db_schemas (cm_db st)"] insert_columns_keys [OF ins]
    by (simp add: keys_ok_def d2 db del: map_map flip: set_map)
  moreover have "refs_ok (cm_db st')"
    using ok(2) assms(2) ids(2) [of "db_schemas (cm_db st)"] sids
    unfolding refs_ok_def list_all_map_conv
    by (auto simp: db column_rows_schema simp del: map_map)
  ultimately show ?thesis ..
qed

lemma apply_op_keys:
  assumes "apply_op cat dr tu x cs st op = Inr st'" and tu: "tu \<in> table_ids (cm_db st)"
    and ok: "keys_ok (cm_db st)" "refs_ok (cm_db st)"
  shows "keys_ok (cm_db st') \<and> refs_ok (cm_db st')"
proof (cases op)
  case (AppendFiles fs)
  with assms have "append_files cat dr tu x fs st = Inr st'" by (simp add: apply_op_def)
  then obtain k rows where rows: "file_rows (cat_libs cat) (dr_v4 dr) tu x (cm_v4 st) fs = Inr (k, rows)"
    and ins: "insert_files rows (cm_db st) = Inr (cm_db st')"
    by (rule append_files_effect)
  have "distinct (map f_file_uuid (db_files (cm_db st')))"
    using ins ok(1) files_by_id.puts_distinct unfolding insert_files_def keys_ok_def by blast
  then show ?thesis
    using insert_files_Inr [OF ins] file_rows_written [OF rows] ok tu
    by (auto simp: keys_ok_def refs_ok_def list_all_iff)
next
  case (DeleteFiles us)
  with assms have "delete_files cat tu x us st = Inr st'" by (simp add: apply_op_def)
  from delete_files_effect(2) [OF this] ok show ?thesis
    by (simp add: keys_ok_def refs_ok_def mark_removed_keys list_all_map_conv del: map_map set_map)
next
  case (UpdateSchema spec)
  with assms update_schema_keys show ?thesis by (simp add: apply_op_def)
qed (use assms in \<open>auto simp: apply_op_def dest!: set_properties_effect remove_properties_effect\<close>)

lemma apply_ops_keys:
  assumes "foldM (apply_op cat dr tu x cs) st ops = Inr st'" and "tu \<in> table_ids (cm_db st)"
    and "keys_ok (cm_db st)" "refs_ok (cm_db st)"
  shows "keys_ok (cm_db st') \<and> refs_ok (cm_db st')"
  using assms
proof (induction ops arbitrary: st)
  case (Cons op ops)
  then obtain s1 where s1: "apply_op cat dr tu x cs st op = Inr s1"
    and run: "foldM (apply_op cat dr tu x cs) s1 ops = Inr st'"
    by (auto simp: result_simps)
  have "keys_ok (cm_db s1) \<and> refs_ok (cm_db s1)"
    using apply_op_keys [OF s1] Cons.prems by blast
  then show ?case using Cons.IH [OF run] apply_op_frame(1) [OF s1] Cons.prems(2) by simp
qed simp

section \<open>One more transaction on a table\<close>

lemma sorted_le_last: "sorted_wrt (<) (ids :: txn_id list) \<Longrightarrow> y \<in> set ids \<Longrightarrow> y \<le> last ids"
  by (induction ids) (auto intro: less_imp_le)

lemma history_ok_last:
  assumes "history_ok r xs" and "t_current_transaction_id r = Some base" and "y \<in> x_transaction_id ` set xs"
  shows "y \<le> base"
proof -
  have "xs \<noteq> []" "sorted_wrt (<) (map x_transaction_id xs)" "base = x_transaction_id (last xs)"
    using assms(1,2) by (auto simp: history_ok_def)
  with sorted_le_last [of "map x_transaction_id xs" y] assms(3) show ?thesis by (simp add: last_map)
qed

lemma history_ok_snoc:
  assumes ok: "history_ok r xs" and base: "t_current_transaction_id r = Some base"
    and less: "base < x_transaction_id new" and parent: "x_parent_transaction_id new = Some base"
    and head: "t_current_transaction_id r' = Some (x_transaction_id new)"
  shows "history_ok r' (xs @ [new])"
proof -
  have xs: "xs \<noteq> []" "base = x_transaction_id (last xs)" using ok base by (auto simp: history_ok_def)
  have "\<forall>y \<in> set (map x_transaction_id xs). y < x_transaction_id new"
    using history_ok_last [OF ok base] less by (fastforce simp: image_iff)
  moreover have "map x_parent_transaction_id (xs @ [new])
      = None # map (\<lambda>x. Some (x_transaction_id x)) (butlast (xs @ [new]))"
  proof -
    have "map (\<lambda>x. Some (x_transaction_id x)) (butlast xs) @ [Some (x_transaction_id (last xs))]
        = map (\<lambda>x. Some (x_transaction_id x)) xs"
      using arg_cong [OF append_butlast_last_id [OF xs(1)], of "map (\<lambda>x. Some (x_transaction_id x))"]
      by simp
    then show ?thesis using ok xs parent by (simp add: history_ok_def)
  qed
  ultimately show ?thesis using ok head by (auto simp: history_ok_def sorted_wrt_append)
qed

lemma schemas_ok_keep:
  assumes "schemas_ok r xs ss" and "xs \<noteq> []" and "t_current_schema_uuid r' = t_current_schema_uuid r"
  shows "schemas_ok r' (xs @ [new]) ss"
  using assms by (auto simp: schemas_ok_def)

lemma schemas_ok_snoc:
  assumes ok: "schemas_ok r xs ss" and xs: "xs \<noteq> []" and dist: "distinct (map s_schema_uuid ss)"
    and cur: "t_current_schema_uuid r = Some cur" and ver: "s_schema_version (last ss) = ver"
    and above: "\<And>y. y \<in> x_transaction_id ` set xs \<Longrightarrow> y < x" and x: "x = x_transaction_id xnew"
    and new: "s_valid_from new = x" "s_valid_to new = None" "s_schema_version new = ver + 1"
    and r': "t_current_schema_uuid r' = Some (s_schema_uuid new)"
  shows "schemas_ok r' (xs @ [xnew])
     (map (\<lambda>r. if s_schema_uuid r = cur then r\<lparr>s_valid_to := Some x\<rparr> else r) ss @ [new])"
proof -
  let ?close = "\<lambda>r. if s_schema_uuid r = cur then r\<lparr>s_valid_to := Some x\<rparr> else r"
  from ok have "ss \<noteq> []" by (simp add: schemas_ok_def)
  then obtain init l where ss: "ss = init @ [l]" by (metis append_butlast_last_id)
  have l: "s_schema_uuid l = cur" "s_schema_version l = ver"
    using ok cur ver ss by (auto simp: schemas_ok_def)
  have "map ?close init = init"
    using dist l ss by (intro map_idI) (auto simp: image_iff)
  then have closed: "map ?close ss = init @ [l\<lparr>s_valid_to := Some x\<rparr>]" using ss l by simp
  have v: "map s_schema_version init @ [ver] = map (\<lambda>n. word_of_nat (Suc n)) [0 ..< Suc (length init)]"
    and vt: "map s_valid_to init @ [s_valid_to l] = map (\<lambda>s. Some (s_valid_from s)) (tl ss) @ [None]"
    and srt: "sorted_wrt (<) (map s_valid_from init @ [s_valid_from l])"
    and hd: "s_valid_from (hd ss) = x_transaction_id (hd xs)"
    and sub: "set (map s_valid_from ss) \<subseteq> set (map x_transaction_id xs)"
    using ok l unfolding schemas_ok_def ss by simp_all
  have ver': "ver = word_of_nat (Suc (length init))" using v by simp
  have "s_valid_from y < x" if "y \<in> set ss" for y
    using above that sub by (auto simp: image_subset_iff)
  then have srt': "sorted_wrt (<) (map s_valid_from init @ [s_valid_from l, x])"
    using srt ss by (auto simp: sorted_wrt_append)
  have tl: "map (\<lambda>s. Some (s_valid_from s)) (tl (init @ [l\<lparr>s_valid_to := Some x\<rparr>, new]))
      = map (\<lambda>s. Some (s_valid_from s)) (tl ss) @ [Some x]"
    using new by (cases init) (simp_all add: ss)
  have vt': "map s_valid_to init = map (\<lambda>s. Some (s_valid_from s)) (tl ss)" using vt by simp
  have hd': "s_valid_from (hd (init @ [l\<lparr>s_valid_to := Some x\<rparr>, new])) = x_transaction_id (hd (xs @ [xnew]))"
    using hd xs by (cases init) (simp_all add: ss)
  show ?thesis
    unfolding schemas_ok_def closed append_assoc append.simps
    using r' new srt' tl vt' hd' sub x v ver' l by (auto simp: ss)
qed

lemma file_step_table: "file_step tu x r r' \<Longrightarrow> f_table_uuid r' = f_table_uuid r"
  by (auto simp: file_step_def)

lemma file_step_other: "file_step tu x r r' \<Longrightarrow> f_table_uuid r \<noteq> tu \<Longrightarrow> r' = r"
  by (auto simp: file_step_def)

lemma files_step_other:
  assumes "files_step tu x fs fs'" and "tu' \<noteq> tu"
  shows "filter (\<lambda>r. f_table_uuid r = tu') fs' = filter (\<lambda>r. f_table_uuid r = tu') fs"
proof -
  from assms(1) obtain mid new where fs': "fs' = mid @ new" and mid: "list_all2 (file_step tu x) fs mid"
    and new: "list_all (file_written tu x) new" by (auto simp: files_step_def)
  from mid have "filter (\<lambda>r. f_table_uuid r = tu') mid = filter (\<lambda>r. f_table_uuid r = tu') fs"
  proof (induction rule: list_all2_induct)
    case (Cons r rs r' rs')
    then show ?case
      using file_step_table [OF Cons(1)] file_step_other [OF Cons(1)] assms(2) by auto
  qed simp
  moreover have "filter (\<lambda>r. f_table_uuid r = tu') new = []"
    using new assms(2) by (auto simp: filter_empty_conv list_all_iff file_written_def)
  ultimately show ?thesis by (simp add: fs')
qed

lemma files_step_history:
  assumes step: "files_step tu x fs fs'" and above: "\<And>y. y \<in> ids \<Longrightarrow> y \<le> x"
    and ok: "list_all (file_in_history ids) (filter (\<lambda>r. f_table_uuid r = tu) fs)"
  shows "list_all (file_in_history (insert x ids)) (filter (\<lambda>r. f_table_uuid r = tu) fs')"
proof -
  from step obtain mid new where fs': "fs' = mid @ new" and mid: "list_all2 (file_step tu x) fs mid"
    and new: "list_all (file_written tu x) new" by (auto simp: files_step_def)
  have keep: "file_in_history (insert x ids) r'" if "file_step tu x r r'" "file_in_history ids r" for r r'
    using that above by (auto simp: file_step_def file_in_history_def split: option.splits)
  from mid ok have "list_all (file_in_history (insert x ids)) (filter (\<lambda>r. f_table_uuid r = tu) mid)"
  proof (induction rule: list_all2_induct)
    case (Cons r rs r' rs')
    then show ?case
      using file_step_table [OF Cons(1)] keep [OF Cons(1)] by (cases "f_table_uuid r = tu") simp_all
  qed simp
  moreover have "list_all (file_in_history (insert x ids)) new"
    using new by (auto simp: list_all_iff file_written_def file_in_history_def)
  ultimately show ?thesis by (auto simp: fs' list_all_iff)
qed

section \<open>A successful commit\<close>

abbreviation close_schema :: "uuid \<Rightarrow> txn_id \<Rightarrow> schema_row \<Rightarrow> schema_row" where
  "close_schema cur x r \<equiv> if s_schema_uuid r = cur then r\<lparr>s_valid_to := Some x\<rparr> else r"

abbreviation committed_row :: "txn_id \<Rightarrow> uuid option \<Rightarrow> string \<Rightarrow> table_row \<Rightarrow> table_row" where
  "committed_row x su p r \<equiv>
     r\<lparr>t_current_transaction_id := Some x, t_current_schema_uuid := su, t_properties := Some p\<rparr>"

text \<open>What a commit does to the schemas: nothing, or it closes the current schema and appends
  the next version with the columns of the mutation's schema update.\<close>

definition schema_effect :: "libs \<Rightarrow> draws \<Rightarrow> mutation \<Rightarrow> table_row \<Rightarrow> db \<Rightarrow> db \<Rightarrow> uuid option \<Rightarrow> bool" where
  "schema_effect lib dr m r d D su \<longleftrightarrow>
     (db_schemas D = db_schemas d \<and> db_columns D = db_columns d \<and> su = t_current_schema_uuid r
        \<and> filter is_update_schema (mu_operations m) = [])
     \<or> (\<exists>cur ver u k spec. t_current_schema_uuid r = Some cur \<and> select_schema_version cur d = Inr ver
          \<and> u \<notin> schema_ids d \<and> su = Some u \<and> schema_spec_ok spec
          \<and> db_schemas D = map (close_schema cur (dr_txn dr)) (db_schemas d)
              @ [\<lparr>s_schema_uuid = u, s_table_uuid = t_table_uuid r, s_schema_version = ver + 1,
                  s_valid_from = dr_txn dr, s_valid_to = None, s_created_at = dr_now dr\<rparr>]
          \<and> db_columns D = db_columns d @ column_rows lib (dr_v4 dr) u k 0 (ss_columns spec)
          \<and> spec_extends lib d cur (ss_columns spec)
          \<and> filter is_update_schema (mu_operations m) = [UpdateSchema spec])"

lemma one_update_schema:
  assumes "commit_precheck m = Inr ()"
  shows "filter is_update_schema (mu_operations m) = []
     \<or> (\<exists>spec. filter is_update_schema (mu_operations m) = [UpdateSchema spec])"
proof (cases "filter is_update_schema (mu_operations m)")
  case (Cons op ops)
  from assms have "length (filter is_update_schema (mu_operations m)) \<le> 1"
    by (auto simp: commit_precheck_def mutation_validate_def validate_ops_ok split: if_splits)
  with Cons have "filter is_update_schema (mu_operations m) = [op]" by simp
  moreover have "op \<in> set (filter is_update_schema (mu_operations m))" unfolding Cons by simp
  then have "is_update_schema op" by simp
  ultimately show ?thesis by (cases op) auto
qed simp

lemma apply_ops_schema_effect:
  assumes run: "foldM (apply_op cat dr (t_table_uuid r) (dr_txn dr) (t_current_schema_uuid r))
       \<lparr>cm_db = d, cm_v4 = 0, cm_new_schema_uuid = t_current_schema_uuid r, cm_properties = p\<rparr>
       (mu_operations m) = Inr st"
    and pre: "commit_precheck m = Inr ()"
  shows "schema_effect (cat_libs cat) dr m r d (cm_db st)
     (case cm_new_schema_uuid st of Some u \<Rightarrow> Some u | None \<Rightarrow> t_current_schema_uuid r)"
  using one_update_schema [OF pre]
proof
  assume none: "filter is_update_schema (mu_operations m) = []"
  from apply_ops_no_schema [OF run none] none show ?thesis
    by (auto simp: schema_effect_def split: option.split)
next
  assume "\<exists>spec. filter is_update_schema (mu_operations m) = [UpdateSchema spec]"
  then obtain spec where one: "filter is_update_schema (mu_operations m) = [UpdateSchema spec]" ..
  with run obtain s1 s2 where us: "update_schema cat dr (t_table_uuid r) (dr_txn dr)
        (t_current_schema_uuid r) spec s1 = Inr s2"
    and eqs: "db_schemas (cm_db s1) = db_schemas d" "db_columns (cm_db s1) = db_columns d"
      "db_schemas (cm_db st) = db_schemas (cm_db s2)" "db_columns (cm_db st) = db_columns (cm_db s2)"
      "cm_new_schema_uuid st = cm_new_schema_uuid s2"
    by (rule apply_ops_one_schema) simp
  from us have new: "cm_new_schema_uuid s2 = Some (dr_v4 dr (cm_v4 s1))"
    by (rule update_schema_effect) (metis commit_state.select_convs(3) commit_state.surjective commit_state.update_convs(3))
  from us show ?thesis
  proof (rule update_schema_db)
    fix cur ver
    assume *: "t_current_schema_uuid r = Some cur" "schema_spec_ok spec"
      "dr_v4 dr (cm_v4 s1) \<notin> schema_ids (cm_db s1)" "select_schema_version cur (cm_db s1) = Inr ver"
    assume db: "cm_db s2 = (cm_db s1)\<lparr>
       db_schemas := map (close_schema cur (dr_txn dr)) (db_schemas (cm_db s1))
         @ [\<lparr>s_schema_uuid = dr_v4 dr (cm_v4 s1), s_table_uuid = t_table_uuid r, s_schema_version = ver + 1,
             s_valid_from = dr_txn dr, s_valid_to = None, s_created_at = dr_now dr\<rparr>],
       db_columns := db_columns (cm_db s1)
         @ column_rows (cat_libs cat) (dr_v4 dr) (dr_v4 dr (cm_v4 s1)) (cm_v4 s1 + 1) 0 (ss_columns spec)\<rparr>"
    assume "spec_extends (cat_libs cat) (cm_db s1) cur (ss_columns spec)"
    then have "spec_extends (cat_libs cat) d cur (ss_columns spec)"
      by (simp add: spec_extends_def current_schema_columns_def select_columns_def eqs)
    moreover have "select_schema_version cur d = Inr ver" using *(4) by (simp add: select_schema_version_def eqs)
    ultimately show ?thesis
      unfolding schema_effect_def using * new eqs one
      by (intro disjI2 exI [of _ cur] exI [of _ ver] exI [of _ "dr_v4 dr (cm_v4 s1)"]
          exI [of _ "cm_v4 s1 + 1"] exI [of _ spec]) (simp add: db)
  qed
qed

lemma commit_summary:
  assumes wf: "wf_db d" and ok: "commit_body cat dr ident base m d = Inr (res, d')"
  obtains r D su props_text where
    "select_table (ti_namespace ident) (ti_name ident) d = Some r"
    "t_current_transaction_id r = Some base"
    "res = \<lparr>cr_transaction_id = dr_txn dr, cr_table_view = None\<rparr>"
    "d' = update_table_commit (dr_txn dr) su props_text (t_table_uuid r) D"
    "db_tables D = db_tables d" "db_table_stats D = []"
    "dr_txn dr \<notin> txn_ids d"
    "db_transactions D = db_transactions d @ [\<lparr>x_transaction_id = dr_txn dr,
       x_table_uuid = t_table_uuid r, x_transaction_timestamp = dr_now dr,
       x_parent_transaction_id = Some base\<rparr>]"
    "files_step (t_table_uuid r) (dr_txn dr) (db_files d) (db_files D)"
    "schema_effect (cat_libs cat) dr m r d D su"
    "keys_ok D" "refs_ok D"
    "\<exists>k. (k, live (t_table_uuid r) D) = fold (live_step (cat_libs cat) (dr_v4 dr) (t_table_uuid r) (dr_txn dr))
       (mu_operations m) (0, live (t_table_uuid r) d)"
    "\<exists>p. serialize_json (lib_json (cat_libs cat)) (properties_to_json p) = Inr props_text"
proof -
  from ok obtain r p d1 st props_text where
    pre: "commit_precheck m = Inr ()"
    and sel: "select_table (ti_namespace ident) (ti_name ident) d = Some r"
    and cur: "t_current_transaction_id r = Some base"
    and txn: "insert_txn \<lparr>x_transaction_id = dr_txn dr, x_table_uuid = t_table_uuid r,
       x_transaction_timestamp = dr_now dr, x_parent_transaction_id = Some base\<rparr> d = Inr d1"
    and run: "foldM (apply_op cat dr (t_table_uuid r) (dr_txn dr) (t_current_schema_uuid r))
       \<lparr>cm_db = d1, cm_v4 = 0, cm_new_schema_uuid = t_current_schema_uuid r, cm_properties = p\<rparr>
       (mu_operations m) = Inr st"
    and ser: "serialize_json (lib_json (cat_libs cat)) (properties_to_json (cm_properties st)) = Inr props_text"
    and res: "res = \<lparr>cr_transaction_id = dr_txn dr, cr_table_view = None\<rparr>"
    and d': "d' = update_table_commit (dr_txn dr)
       (case cm_new_schema_uuid st of Some u \<Rightarrow> Some u | None \<Rightarrow> t_current_schema_uuid r)
       props_text (t_table_uuid r) (cm_db st)"
    by (rule commit_body_Inr)
  note d1 = insert_txn_Inr [OF txn]
  have base: "keys_ok d1" "refs_ok d1" "t_table_uuid r \<in> table_ids d1"
    using wf d1 by (auto simp: wf_db_def keys_ok_def refs_ok_def list_all_iff)
  have keys: "keys_ok (cm_db st) \<and> refs_ok (cm_db st)"
    using apply_ops_keys [OF run] base by simp
  have eff: "schema_effect (cat_libs cat) dr m r d (cm_db st)
     (case cm_new_schema_uuid st of Some u \<Rightarrow> Some u | None \<Rightarrow> t_current_schema_uuid r)"
    using apply_ops_schema_effect [OF run pre] d1
    by (simp add: schema_effect_def select_schema_version_def spec_extends_def current_schema_columns_def select_columns_def)
  have lv: "(cm_v4 st, live (t_table_uuid r) (cm_db st)) =
      fold (live_step (cat_libs cat) (dr_v4 dr) (t_table_uuid r) (dr_txn dr))
       (mu_operations m) (0, live (t_table_uuid r) d)"
    using apply_ops_live [OF run] d1 by (simp add: abs_live_def live_def)
  show thesis
    by (rule that [OF sel cur res d' _ _ _ _ _ eff])
       (use apply_ops_frame [OF run] apply_ops_files [OF run] d1 keys lv wf ser in \<open>auto simp: wf_db_def refs_ok_def\<close>)
qed

section \<open>Every operation preserves well-formedness\<close>

lemma update_table_commit_tables:
  "db_tables (update_table_commit x su p tu D)
     = map (\<lambda>r. if t_table_uuid r = tu then committed_row x su p r else r) (db_tables D)"
  "db_transactions (update_table_commit x su p tu D) = db_transactions D"
  "db_schemas (update_table_commit x su p tu D) = db_schemas D"
  "db_columns (update_table_commit x su p tu D) = db_columns D"
  "db_files (update_table_commit x su p tu D) = db_files D"
  "db_table_stats (update_table_commit x su p tu D) = db_table_stats D"
  by (auto simp: update_table_commit_def)

lemma table_rows_map:
  "map t_table_uuid (map (\<lambda>r. if t_table_uuid r = tu then committed_row x su p r else r) rs) = map t_table_uuid rs"
  "map table_key (map (\<lambda>r. if t_table_uuid r = tu then committed_row x su p r else r) rs) = map table_key rs"
  by (induction rs) auto

lemma update_table_commit_keys:
  assumes "keys_ok D" and "refs_ok D"
  shows "keys_ok (update_table_commit x su p tu D) \<and> refs_ok (update_table_commit x su p tu D)"
proof -
  have "table_ids (update_table_commit x su p tu D) = table_ids D"
    using arg_cong [OF table_rows_map(1) [where rs = "db_tables D" and x = x and su = su and p = p and tu = tu], of set]
    by (simp only: update_table_commit_tables set_map)
  then show ?thesis
    using assms
    by (simp add: keys_ok_def refs_ok_def update_table_commit_tables table_rows_map del: map_map)
qed

lemma schema_effect_other:
  assumes "schema_effect lib dr m r d D su" and "keys_ok d" and "tu \<noteq> t_table_uuid r"
    and cur: "\<And>c s. t_current_schema_uuid r = Some c \<Longrightarrow> s \<in> set (db_schemas d) \<Longrightarrow> s_schema_uuid s = c
           \<Longrightarrow> s_table_uuid s = t_table_uuid r"
  shows "table_schemas tu D = table_schemas tu d"
proof -
  have "filter (\<lambda>s. s_table_uuid s = tu) (map (close_schema c x) ss) = filter (\<lambda>s. s_table_uuid s = tu) ss"
    if "\<And>s. s \<in> set ss \<Longrightarrow> s_schema_uuid s = c \<Longrightarrow> s_table_uuid s \<noteq> tu" for c x ss
    using that by (induction ss) auto
  then show ?thesis
    using assms by (auto simp: schema_effect_def table_schemas_def)
qed

lemma schema_effect_ok:
  assumes eff: "schema_effect lib dr m r d D su" and keys: "keys_ok d"
    and ok: "schemas_ok r xs (table_schemas (t_table_uuid r) d)" and xs: "xs \<noteq> []"
    and above: "\<And>y. y \<in> x_transaction_id ` set xs \<Longrightarrow> y < dr_txn dr"
    and new: "x_transaction_id xnew = dr_txn dr"
  shows "schemas_ok (committed_row x su p r) (xs @ [xnew]) (table_schemas (t_table_uuid r) D)"
  using eff unfolding schema_effect_def
proof (elim disjE exE conjE)
  assume "db_schemas D = db_schemas d" "su = t_current_schema_uuid r"
  then show ?thesis using schemas_ok_keep [OF ok xs] by (simp add: table_schemas_def)
next
  fix cur ver u k spec
  assume cur: "t_current_schema_uuid r = Some cur" and ver: "select_schema_version cur d = Inr ver"
    and su: "su = Some u"
    and D: "db_schemas D = map (close_schema cur (dr_txn dr)) (db_schemas d)
      @ [\<lparr>s_schema_uuid = u, s_table_uuid = t_table_uuid r, s_schema_version = ver + 1,
          s_valid_from = dr_txn dr, s_valid_to = None, s_created_at = dr_now dr\<rparr>]"
  let ?ss = "table_schemas (t_table_uuid r) d"
  have cl: "filter (\<lambda>s. s_table_uuid s = tu) (map (close_schema cur x) ss)
      = map (close_schema cur x) (filter (\<lambda>s. s_table_uuid s = tu) ss)" for tu x ss
    by (induction ss) auto
  have dist: "distinct (map s_schema_uuid ?ss)"
    using keys by (auto simp: keys_ok_def table_schemas_def intro: distinct_map_filter)
  have last: "last ?ss \<in> set (db_schemas d)" "s_schema_uuid (last ?ss) = cur"
    using ok cur last_in_set [of ?ss] by (auto simp: schemas_ok_def table_schemas_def)
  have "find (\<lambda>s. s_schema_uuid s = cur) (db_schemas d) = Some (last ?ss)"
    using find_eq_Some_unique [of s_schema_uuid "db_schemas d" "last ?ss"] keys last by (simp add: keys_ok_def)
  then have "s_schema_version (last ?ss) = ver" using ver by (simp add: select_schema_version_def)
  from schemas_ok_snoc [OF ok xs dist cur this above new [symmetric]] su
  show ?thesis by (simp add: table_schemas_def D cl)
qed

lemma current_schema_open:
  assumes wf: "wf_db d" and r: "r \<in> set (db_tables d)" and c: "t_current_schema_uuid r = Some c"
    and s: "s \<in> set (db_schemas d)" "s_schema_uuid s = c"
  shows "s_table_uuid s = t_table_uuid r \<and> s_valid_to s = None"
proof -
  let ?ss = "table_schemas (t_table_uuid r) d"
  have ok: "?ss \<noteq> []" "s_schema_uuid (last ?ss) = c"
    "map s_valid_to ?ss = map (\<lambda>s. Some (s_valid_from s)) (tl ?ss) @ [None]"
    using wf_dest(2) [OF wf r] c by (auto simp: schemas_ok_def)
  have "last (map s_valid_to ?ss) = None" unfolding ok(3) by simp
  then have none: "s_valid_to (last ?ss) = None" using ok(1) by (simp add: last_map)
  have last: "last ?ss \<in> set (db_schemas d)" "s_table_uuid (last ?ss) = t_table_uuid r"
    using last_in_set [OF ok(1)] by (auto simp: table_schemas_def)
  have "s = last ?ss"
    using wf s ok(2) last(1) by (simp add: wf_db_def keys_ok_def distinct_map inj_on_def)
  with none last(2) show ?thesis by simp
qed

lemma table_row_unique:
  "wf_db d \<Longrightarrow> r \<in> set (db_tables d) \<Longrightarrow> q \<in> set (db_tables d) \<Longrightarrow> t_table_uuid q = t_table_uuid r \<Longrightarrow> q = r"
  by (simp add: wf_db_def keys_ok_def distinct_map inj_on_def)

text \<open>The condition on a table depends only on the rows that carry its identifier.\<close>

lemma table_ok_cong:
  assumes "table_txns (t_table_uuid r) d' = table_txns (t_table_uuid r) d"
    and "table_schemas (t_table_uuid r) d' = table_schemas (t_table_uuid r) d"
    and "table_files (t_table_uuid r) d' = table_files (t_table_uuid r) d"
  shows "table_ok d' r = table_ok d r"
  using assms by (simp add: table_ok_def)

abbreviation commit_txn :: "draws \<Rightarrow> uuid \<Rightarrow> txn_id \<Rightarrow> txn_row" where
  "commit_txn dr tu base \<equiv> \<lparr>x_transaction_id = dr_txn dr, x_table_uuid = tu,
     x_transaction_timestamp = dr_now dr, x_parent_transaction_id = Some base\<rparr>"

lemma table_ok_commit_own:
  assumes wf: "wf_db d" and r: "r \<in> set (db_tables d)" and cur: "t_current_transaction_id r = Some base"
    and mono: "base < dr_txn dr"
    and txns: "db_transactions D = db_transactions d @ [commit_txn dr (t_table_uuid r) base]"
    and files: "files_step (t_table_uuid r) (dr_txn dr) (db_files d) (db_files D)"
    and eff: "schema_effect lib dr m r d D su"
  shows "table_ok D (committed_row (dr_txn dr) su pt r)"
proof -
  let ?x = "dr_txn dr" and ?tu = "t_table_uuid r"
  note r_ok = wf_dest [OF wf r]
  have above: "y < ?x" if "y \<in> x_transaction_id ` set (table_txns ?tu d)" for y
    using history_ok_last [OF r_ok(1) cur that] mono by simp
  have ne: "table_txns ?tu d \<noteq> []" using r_ok(1) by (simp add: history_ok_def)
  have keys: "keys_ok d" using wf by (simp add: wf_db_def)
  have xs: "table_txns ?tu D = table_txns ?tu d @ [commit_txn dr ?tu base]" by (simp add: table_txns_def txns)
  have "history_ok (committed_row ?x su pt r) (table_txns ?tu D)"
    unfolding xs by (rule history_ok_snoc [OF r_ok(1) cur]) (simp_all add: mono)
  moreover have "schemas_ok (committed_row ?x su pt r) (table_txns ?tu D) (table_schemas ?tu D)"
    unfolding xs by (rule schema_effect_ok [OF eff keys r_ok(2) ne above]) simp_all
  moreover have "list_all (file_in_history (set (map x_transaction_id (table_txns ?tu D)))) (table_files ?tu D)"
    using files_step_history [OF files _ r_ok(3) [unfolded table_files_def]] above
    by (force simp: xs table_files_def)
  ultimately show ?thesis by (simp add: table_ok_def Let_def)
qed

lemma table_ok_commit_other:
  assumes wf: "wf_db d" and r: "r \<in> set (db_tables d)"
    and q: "q \<in> set (db_tables d)" "t_table_uuid q \<noteq> t_table_uuid r"
    and txns: "db_transactions D = db_transactions d @ [commit_txn dr (t_table_uuid r) base]"
    and files: "files_step (t_table_uuid r) (dr_txn dr) (db_files d) (db_files D)"
    and eff: "schema_effect lib dr m r d D su"
  shows "table_ok D q"
proof -
  have "table_schemas (t_table_uuid q) D = table_schemas (t_table_uuid q) d"
    using schema_effect_other [OF eff _ q(2)] current_schema_open [OF wf r] wf by (simp add: wf_db_def)
  moreover have "table_txns (t_table_uuid q) D = table_txns (t_table_uuid q) d"
    using q(2) by (simp add: table_txns_def txns)
  moreover have "table_files (t_table_uuid q) D = table_files (t_table_uuid q) d"
    using files_step_other [OF files q(2)] by (simp add: table_files_def)
  ultimately have "table_ok D q = table_ok d q" by (intro table_ok_cong)
  then show ?thesis using wf q(1) by (simp add: wf_db_def list_all_iff)
qed

lemma commit_wf:
  assumes wf: "wf_db d" and ok: "commit_body cat dr ident base m d = Inr (res, d')"
    and mono: "base < dr_txn dr"
  shows "wf_db d'"
proof -
  from wf ok obtain r D su pt where sel: "select_table (ti_namespace ident) (ti_name ident) d = Some r"
    and cur: "t_current_transaction_id r = Some base"
    and d': "d' = update_table_commit (dr_txn dr) su pt (t_table_uuid r) D"
    and tabs: "db_tables D = db_tables d"
    and txns: "db_transactions D = db_transactions d @ [commit_txn dr (t_table_uuid r) base]"
    and files: "files_step (t_table_uuid r) (dr_txn dr) (db_files d) (db_files D)"
    and eff: "schema_effect (cat_libs cat) dr m r d D su"
    and D: "keys_ok D" "refs_ok D"
    by (rule commit_summary)
  have r: "r \<in> set (db_tables d)" using select_table_Some [OF sel] by simp
  have same: "table_ok d' q = table_ok D q" for q
    by (simp add: d' table_ok_def table_txns_def table_schemas_def table_files_def update_table_commit_tables)
  have tabs': "db_tables d' = map (\<lambda>q. if t_table_uuid q = t_table_uuid r
      then committed_row (dr_txn dr) su pt q else q) (db_tables d)"
    by (simp add: d' update_table_commit_tables tabs)
  have "list_all (table_ok d') (db_tables d')"
    using table_ok_commit_own [OF wf r cur mono txns files eff] table_ok_commit_other [OF wf r _ _ txns files eff]
      table_row_unique [OF wf r]
    by (auto simp: same list_all_iff tabs')
  then show ?thesis using update_table_commit_keys [OF D] d' by (simp add: wf_db_def)
qed

text \<open>The rows a successful creation adds.\<close>

abbreviation created_row :: "sql_catalog \<Rightarrow> draws \<Rightarrow> table_ident \<Rightarrow> string \<Rightarrow> string \<Rightarrow> table_row" where
  "created_row cat dr ident location p \<equiv> \<lparr>t_table_uuid = dr_v4 dr 0, t_table_name = ti_name ident,
     t_namespace = ti_namespace ident, t_location = location, t_current_schema_uuid = Some (dr_v4 dr 1),
     t_current_transaction_id = Some (dr_txn dr), t_created_at = dr_now dr, t_properties = Some p,
     t_min_reader_version = reader_version cat, t_min_writer_version = writer_version cat\<rparr>"

abbreviation created_txn :: "draws \<Rightarrow> txn_row" where
  "created_txn dr \<equiv> \<lparr>x_transaction_id = dr_txn dr, x_table_uuid = dr_v4 dr 0,
     x_transaction_timestamp = dr_now dr, x_parent_transaction_id = None\<rparr>"

abbreviation created_schema :: "draws \<Rightarrow> schema_row" where
  "created_schema dr \<equiv> \<lparr>s_schema_uuid = dr_v4 dr 1, s_table_uuid = dr_v4 dr 0, s_schema_version = 1,
     s_valid_from = dr_txn dr, s_valid_to = None, s_created_at = dr_now dr\<rparr>"

abbreviation created_columns :: "sql_catalog \<Rightarrow> draws \<Rightarrow> schema_spec \<Rightarrow> column_row list" where
  "created_columns cat dr schema \<equiv> column_rows (cat_libs cat) (dr_v4 dr) (dr_v4 dr 1) 2 0 (ss_columns schema)"

lemma create_summary:
  assumes "create_table_body cat dr ident location schema properties d = Inr (h, d')"
  obtains props_text where
    "select_table (ti_namespace ident) (ti_name ident) d = None"
    "schema_spec_ok schema" "h = \<lparr>th_catalog = cat, th_ident = ident\<rparr>"
    "dr_v4 dr 0 \<notin> table_ids d" "(ti_namespace ident, ti_name ident) \<notin> table_key ` set (db_tables d)"
    "dr_txn dr \<notin> txn_ids d" "dr_v4 dr 1 \<notin> schema_ids d"
    "serialize_json (lib_json (cat_libs cat)) (properties_to_json
       (case properties of Some p \<Rightarrow> p | None \<Rightarrow> properties_new)) = Inr props_text"
    "\<exists>d3. db_columns d3 = db_columns d
       \<and> insert_columns (created_columns cat dr schema) d3 = Inr (d'\<lparr>db_tables := db_tables d3\<rparr>)"
    "d' = d\<lparr>db_tables := db_tables d @ [created_row cat dr ident location props_text],
       db_transactions := db_transactions d @ [created_txn dr],
       db_schemas := db_schemas d @ [created_schema dr],
       db_columns := db_columns d @ created_columns cat dr schema\<rparr>"
proof -
  from assms obtain props_text d1 d2 d3 d4 where sel: "select_table (ti_namespace ident) (ti_name ident) d = None"
    and sp: "schema_spec_ok schema" and h: "h = \<lparr>th_catalog = cat, th_ident = ident\<rparr>"
    and ser: "serialize_json (lib_json (cat_libs cat)) (properties_to_json
       (case properties of Some p \<Rightarrow> p | None \<Rightarrow> properties_new)) = Inr props_text"
    and t: "insert_table \<lparr>t_table_uuid = dr_v4 dr 0, t_table_name = ti_name ident,
        t_namespace = ti_namespace ident, t_location = location, t_current_schema_uuid = None,
        t_current_transaction_id = None, t_created_at = dr_now dr, t_properties = Some props_text,
        t_min_reader_version = reader_version cat, t_min_writer_version = writer_version cat\<rparr> d = Inr d1"
    and x: "insert_txn (created_txn dr) d1 = Inr d2"
    and sc: "insert_schema (created_schema dr) d2 = Inr d3"
    and c: "insert_columns (created_columns cat dr schema) d3 = Inr d4"
    and d': "d' = update_table_heads (dr_v4 dr 1) (dr_txn dr) (dr_v4 dr 0) d4"
    by (auto simp: create_table_body_def Let_def result_simps insert_column_chunks_eq
        schema_spec_validate_ok INITIAL_SCHEMA_VERSION_def split: if_splits)
  note inv = insert_table_Inr [OF t] insert_txn_Inr [OF x] insert_schema_Inr [OF sc] insert_columns_Inr [OF c]
  have "d'\<lparr>db_tables := db_tables d3\<rparr> = d4" using inv by (simp add: d' update_table_heads_def)
  with c inv have cols: "\<exists>d3. db_columns d3 = db_columns d
      \<and> insert_columns (created_columns cat dr schema) d3 = Inr (d'\<lparr>db_tables := db_tables d3\<rparr>)"
    by (intro exI [of _ d3]) simp
  have heads: "map (\<lambda>r. if t_table_uuid r = dr_v4 dr 0
      then r\<lparr>t_current_schema_uuid := su, t_current_transaction_id := x\<rparr> else r) (db_tables d) = db_tables d" for su x
    using inv by (intro map_idI) (auto simp: image_iff)
  show thesis
    by (rule that [of props_text, OF sel sp h _ _ _ _ ser cols])
       (use inv in \<open>auto simp: d' update_table_heads_def heads\<close>)
qed

lemma filter_fresh: "\<forall>r \<in> set rs. f r \<in> A \<Longrightarrow> u \<notin> A \<Longrightarrow> filter (\<lambda>r. f r = u) rs = []"
  by (auto simp: filter_empty_conv)

lemma fresh_table_rows:
  assumes "refs_ok d" and "tu \<notin> table_ids d"
  shows "table_txns tu d = []" and "table_schemas tu d = []" and "table_files tu d = []"
  using assms
  by (auto simp: table_txns_def table_schemas_def table_files_def refs_ok_def list_all_iff
      intro!: filter_fresh [where A = "table_ids d"])

lemma created_rows:
  assumes "wf_db d" and "create_table_body cat dr ident location schema properties d = Inr (h, d')"
  shows "table_txns tu d' = (if tu = dr_v4 dr 0 then [created_txn dr] else table_txns tu d)"
    and "table_schemas tu d' = (if tu = dr_v4 dr 0 then [created_schema dr] else table_schemas tu d)"
    and "table_files tu d' = table_files tu d"
proof -
  from assms(2) obtain p where d': "d' = d\<lparr>db_tables := db_tables d @ [created_row cat dr ident location p],
       db_transactions := db_transactions d @ [created_txn dr],
       db_schemas := db_schemas d @ [created_schema dr],
       db_columns := db_columns d @ created_columns cat dr schema\<rparr>"
    and fresh: "dr_v4 dr 0 \<notin> table_ids d"
    by (rule create_summary)
  note none = fresh_table_rows [OF _ fresh, unfolded table_txns_def table_schemas_def]
  show "table_txns tu d' = (if tu = dr_v4 dr 0 then [created_txn dr] else table_txns tu d)"
    "table_schemas tu d' = (if tu = dr_v4 dr 0 then [created_schema dr] else table_schemas tu d)"
    "table_files tu d' = table_files tu d"
    using none assms(1) by (auto simp: d' table_txns_def table_schemas_def table_files_def wf_db_def)
qed

lemma create_wf:
  assumes wf: "wf_db d" and ok: "create_table_body cat dr ident location schema properties d = Inr (h, d')"
  shows "wf_db d'"
proof -
  from ok obtain p where fresh: "dr_v4 dr 0 \<notin> table_ids d"
      "(ti_namespace ident, ti_name ident) \<notin> table_key ` set (db_tables d)"
      "dr_txn dr \<notin> txn_ids d" "dr_v4 dr 1 \<notin> schema_ids d"
    and cols: "\<exists>d3. db_columns d3 = db_columns d
       \<and> insert_columns (created_columns cat dr schema) d3 = Inr (d'\<lparr>db_tables := db_tables d3\<rparr>)"
    and d': "d' = d\<lparr>db_tables := db_tables d @ [created_row cat dr ident location p],
       db_transactions := db_transactions d @ [created_txn dr],
       db_schemas := db_schemas d @ [created_schema dr],
       db_columns := db_columns d @ created_columns cat dr schema\<rparr>"
    by (rule create_summary)
  have keys: "keys_ok d" and refs: "refs_ok d" using wf by (simp_all add: wf_db_def)
  from cols obtain d3 where d3: "db_columns d3 = db_columns d"
    "insert_columns (created_columns cat dr schema) d3 = Inr (d'\<lparr>db_tables := db_tables d3\<rparr>)" by blast
  have "keys_ok d'"
    using keys fresh insert_columns_keys [OF d3(2)] unfolding keys_ok_def d3(1) by (simp add: d')
  moreover have "refs_ok d'"
    using refs by (auto simp: refs_ok_def list_all_iff d' column_rows_schema)
  moreover have "table_ok d' r" if r: "r \<in> set (db_tables d)" for r
  proof -
    have "t_table_uuid r \<noteq> dr_v4 dr 0" using r fresh(1) by (metis imageI)
    then have "table_ok d' r = table_ok d r" by (intro table_ok_cong) (simp_all add: created_rows [OF wf ok])
    then show ?thesis using wf r by (simp add: wf_db_def list_all_iff)
  qed
  moreover have "table_ok d' (created_row cat dr ident location p)"
    by (simp add: table_ok_def created_rows [OF wf ok] fresh_table_rows [OF refs fresh(1)] history_ok_def schemas_ok_def)
  ultimately show ?thesis by (simp add: wf_db_def list_all_iff d')
qed

text \<open>A table that exists has a transaction row, which the foreign keys protect: the delete
  behind \<open>drop_table\<close> never succeeds.\<close>

lemma drop_refused:
  assumes wf: "wf_db d" and sel: "select_table (ti_namespace ident) (ti_name ident) d = Some r"
  shows "drop_table_body ident d = Inl (Storage (ForeignKeyViolation ''tables''))"
proof -
  have r: "r \<in> set (db_tables d)" "t_namespace r = ti_namespace ident" "t_table_name r = ti_name ident"
    using select_table_Some [OF sel] by auto
  have "table_txns (t_table_uuid r) d \<noteq> []"
    using wf_dest(1) [OF wf r(1)] by (simp add: history_ok_def)
  then have "table_referenced d (t_table_uuid r)"
    by (auto simp: table_referenced_def table_txns_def filter_empty_conv list_ex_iff)
  then show ?thesis
    using r by (auto simp: drop_table_body_def delete_tables_def Let_def list_ex_iff)
qed

lemma drop_not_found:
  assumes "select_table (ti_namespace ident) (ti_name ident) d = None"
  shows "drop_table_body ident d = Inl (NotFound (TableName (ti_namespace ident) (ti_name ident)))"
proof -
  from assms have no: "\<not> (t_namespace r = ti_namespace ident \<and> t_table_name r = ti_name ident)"
    if "r \<in> set (db_tables d)" for r
    using that by (auto simp: select_table_def find_None_iff)
  then have "filter (\<lambda>r. t_namespace r = ti_namespace ident \<and> t_table_name r = ti_name ident) (db_tables d) = []"
    by (simp add: filter_empty_conv)
  with no show ?thesis
    by (auto simp: drop_table_body_def delete_tables_def Let_def list_ex_iff)
qed

lemma drop_unchanged:
  assumes "wf_db d" and "drop_table cat ident d = (res, d')"
  shows "d' = d"
  using assms drop_refused [OF assms(1)] drop_not_found [of ident d]
  by (cases "select_table (ti_namespace ident) (ti_name ident) d")
     (auto simp: drop_table_def run_tx_def)

section \<open>Reachable databases\<close>

inductive step :: "libs \<Rightarrow> db \<Rightarrow> db \<Rightarrow> bool" for lib :: libs where
  create: "step lib d d'"
    if "create_table cat dr ident location schema properties d = (res, d')" and "cat_libs cat = lib"
| commit: "step lib d d'"
    if "commit cat dr ident base m d = (res, d')" and "cat_libs cat = lib" and "base < dr_txn dr"
| drop: "step lib d d'"
    if "drop_table cat ident d = (res, d')"

abbreviation steps :: "libs \<Rightarrow> db \<Rightarrow> db \<Rightarrow> bool" where
  "steps lib \<equiv> (step lib)\<^sup>*\<^sup>*"

definition reachable :: "libs \<Rightarrow> db \<Rightarrow> bool" where
  "reachable lib d \<longleftrightarrow> steps lib empty_db d"

lemma run_tx_cases:
  assumes "run_tx f d = (res, d')"
  obtains e where "f d = Inl e" "d' = d" "res = Inl e" | x where "f d = Inr (x, d')" "res = Inr x"
  using assms by (auto simp: run_tx_def split: sum.splits prod.splits)

text \<open>On a well-formed database a step is a successful creation, a successful commit, or no
  change.\<close>

lemma step_cases_wf [consumes 2, case_names same create commit]:
  assumes "step lib d d'" and wf: "wf_db d"
  obtains "d' = d"
  | cat dr ident location schema properties h where "cat_libs cat = lib"
      "create_table_body cat dr ident location schema properties d = Inr (h, d')"
  | cat dr ident base m res where "cat_libs cat = lib" "base < dr_txn dr"
      "commit_body cat dr ident base m d = Inr (res, d')"
  using assms(1)
proof cases
  case (create cat dr ident location schema properties res)
  then show thesis unfolding create_table_def by (auto elim!: run_tx_cases intro: that)
next
  case (commit cat dr ident base m res)
  then show thesis unfolding commit_def by (auto elim!: run_tx_cases intro: that)
next
  case (drop cat ident res)
  then show thesis using drop_unchanged [OF wf] that(1) by blast
qed

lemma step_wf: "step lib d d' \<Longrightarrow> wf_db d \<Longrightarrow> wf_db d'"
  by (erule step_cases_wf) (auto intro: create_wf commit_wf)

lemma steps_wf: "steps lib d d' \<Longrightarrow> wf_db d \<Longrightarrow> wf_db d'"
  by (induction rule: rtranclp_induct) (auto intro: step_wf)

lemma reachable_wf: "reachable lib d \<Longrightarrow> wf_db d"
  unfolding reachable_def using steps_wf wf_empty by blast

lemma reachable_steps: "reachable lib d \<Longrightarrow> steps lib d d' \<Longrightarrow> reachable lib d'"
  by (simp add: reachable_def)

end
