(* ===== verification/Snapshots.thy ===== *)
theory Snapshots
  imports Invariant
begin

text \<open>
  Reading a well-formed database. The parent-chain walks of \<open>read_table\<close> and
  \<open>list_transaction_events\<close> compute membership in, and intervals of, the line of transactions;
  the rows a snapshot is made of do not change when later transactions are committed.
\<close>

section \<open>The line of transactions\<close>

lemma history_parent:
  assumes "history_ok r xs" and "i < length xs"
  shows "x_parent_transaction_id (xs ! i) = (if i = 0 then None else Some (x_transaction_id (xs ! (i - 1))))"
proof -
  have eq: "map x_parent_transaction_id xs = None # map (\<lambda>x. Some (x_transaction_id x)) (butlast xs)"
    using assms(1) by (simp add: history_ok_def)
  have "x_parent_transaction_id (xs ! i) = map x_parent_transaction_id xs ! i" using assms(2) by simp
  also have "\<dots> = (if i = 0 then None else Some (x_transaction_id (xs ! (i - 1))))"
    unfolding eq using assms(2) by (cases i) (auto simp: nth_butlast)
  finally show ?thesis .
qed

definition txn_line :: "uuid \<Rightarrow> db \<Rightarrow> txn_id list" where
  "txn_line tu d = map x_transaction_id (table_txns tu d)"

lemma txn_line_props:
  assumes "wf_db d" and "r \<in> set (db_tables d)"
  shows "txn_line (t_table_uuid r) d \<noteq> []" and "sorted_wrt (<) (txn_line (t_table_uuid r) d)"
    and "distinct (txn_line (t_table_uuid r) d)"
    and "t_current_transaction_id r = Some (last (txn_line (t_table_uuid r) d))"
  using wf_dest(1) [OF assms]
  by (auto simp: history_ok_def txn_line_def last_map strict_sorted_iff)

lemma select_txn_line:
  assumes wf: "wf_db d" and r: "r \<in> set (db_tables d)" and i: "i < length (txn_line (t_table_uuid r) d)"
  shows "\<exists>row. select_txn (t_table_uuid r) (txn_line (t_table_uuid r) d ! i) d = Some row
     \<and> x_parent_transaction_id row =
        (if i = 0 then None else Some (txn_line (t_table_uuid r) d ! (i - 1)))"
proof -
  let ?tu = "t_table_uuid r" and ?xs = "table_txns (t_table_uuid r) d"
  have i': "i < length ?xs" using i by (simp add: txn_line_def)
  have mem: "?xs ! i \<in> set (db_transactions d)" "x_table_uuid (?xs ! i) = ?tu"
    using nth_mem [OF i'] by (auto simp: table_txns_def)
  have dist: "distinct (map x_transaction_id (db_transactions d))"
    using wf by (simp add: wf_db_def keys_ok_def)
  have "find (\<lambda>q. x_table_uuid q = ?tu \<and> x_transaction_id q = x_transaction_id (?xs ! i)) (db_transactions d)
      = Some (?xs ! i)"
    using find_eq_Some_conj [where P = "\<lambda>q. x_table_uuid q = ?tu", OF dist mem] .
  then show ?thesis
    using history_parent [OF wf_dest(1) [OF wf r] i'] i' by (auto simp: select_txn_def txn_line_def)
qed

lemma walk_history_line:
  assumes wf: "wf_db d" and r: "r \<in> set (db_tables d)"
    and "i < length (txn_line (t_table_uuid r) d)"
    and "\<And>j. j \<le> i \<Longrightarrow> txn_line (t_table_uuid r) d ! j \<notin> set vs"
  shows "walk_history d (t_table_uuid r) t vs (txn_line (t_table_uuid r) d ! i)
     = Inr (t \<in> set (take (Suc i) (txn_line (t_table_uuid r) d)))"
  using assms(3,4)
proof (induction i arbitrary: vs)
  case 0
  let ?ids = "txn_line (t_table_uuid r) d"
  from select_txn_line [OF wf r 0(1)] obtain row where
    "select_txn (t_table_uuid r) (?ids ! 0) d = Some row" "x_parent_transaction_id row = None" by auto
  then show ?case using 0 by (subst walk_history.simps) (auto simp: take_Suc_conv_app_nth)
next
  case (Suc i)
  let ?ids = "txn_line (t_table_uuid r) d"
  from select_txn_line [OF wf r Suc.prems(1)] obtain row where row:
    "select_txn (t_table_uuid r) (?ids ! Suc i) d = Some row"
    "x_parent_transaction_id row = Some (?ids ! i)" by auto
  have "?ids ! j \<notin> set (?ids ! Suc i # vs)" if "j \<le> i" for j
    using Suc.prems that txn_line_props(3) [OF wf r] by (auto simp: nth_eq_iff_index_eq)
  from Suc.IH [OF _ this] Suc.prems(1)
  have IH: "walk_history d (t_table_uuid r) t (?ids ! Suc i # vs) (?ids ! i) = Inr (t \<in> set (take (Suc i) ?ids))"
    by simp
  show ?case
    using Suc.prems row IH
    by (subst walk_history.simps) (auto simp: take_Suc_conv_app_nth [of "Suc i"])
qed

lemma check_in_history_line:
  assumes wf: "wf_db d" and r: "r \<in> set (db_tables d)" and h: "t_current_transaction_id r = Some h"
  shows "check_in_history (t_table_uuid r) h t d =
     (if t \<in> set (txn_line (t_table_uuid r) d) then Inr () else Inl (InvalidState NotInHistory))"
proof -
  let ?ids = "txn_line (t_table_uuid r) d"
  have ne: "?ids \<noteq> []" and h': "h = ?ids ! (length ?ids - 1)"
    using txn_line_props(1,4) [OF wf r] h by (simp_all add: last_conv_nth)
  then have i: "length ?ids - 1 < length ?ids" and "Suc (length ?ids - 1) = length ?ids" by simp_all
  with walk_history_line [OF wf r i, of "[]" t]
  have "walk_history d (t_table_uuid r) t [] h = Inr (t \<in> set ?ids)" by (simp add: h')
  moreover have "h \<in> set ?ids" using h' i nth_mem by metis
  ultimately show ?thesis by (auto simp: check_in_history_def)
qed

text \<open>The walk of the event log: from \<open>to\<close> down to, but not including, the boundary.\<close>

lemma walk_events_line:
  assumes wf: "wf_db d" and r: "r \<in> set (db_tables d)"
    and "i < length (txn_line (t_table_uuid r) d)"
    and "\<And>j. j \<le> i \<Longrightarrow> txn_line (t_table_uuid r) d ! j \<notin> set desc"
    and "length desc + Suc i - lo \<le> 50000" and "lo \<le> i"
    and "\<And>j. lo \<le> j \<Longrightarrow> j < i \<Longrightarrow> fr \<noteq> Some (txn_line (t_table_uuid r) d ! j)"
    and "0 < lo \<Longrightarrow> fr = Some (txn_line (t_table_uuid r) d ! (lo - 1))"
  shows "walk_events d (t_table_uuid r) fr desc (txn_line (t_table_uuid r) d ! i)
     = Inr (desc @ rev (drop lo (take (Suc i) (txn_line (t_table_uuid r) d))), 0 < lo \<or> fr = None)"
  using assms(3-8)
proof (induction i arbitrary: desc)
  case 0
  let ?ids = "txn_line (t_table_uuid r) d"
  from select_txn_line [OF wf r 0(1)] obtain row where
    "select_txn (t_table_uuid r) (?ids ! 0) d = Some row" "x_parent_transaction_id row = None" by auto
  then show ?case using 0 by (subst walk_events.simps) (auto simp: take_Suc_conv_app_nth)
next
  case (Suc i)
  let ?ids = "txn_line (t_table_uuid r) d"
  from select_txn_line [OF wf r Suc.prems(1)] obtain row where row:
    "select_txn (t_table_uuid r) (?ids ! Suc i) d = Some row"
    "x_parent_transaction_id row = Some (?ids ! i)" by auto
  have tk: "take (Suc (Suc i)) ?ids = take (Suc i) ?ids @ [?ids ! Suc i]"
    using Suc.prems(1) by (simp add: take_Suc_conv_app_nth)
  have fresh: "?ids ! Suc i \<notin> set desc" using Suc.prems(2) by simp
  show ?case
  proof (cases "lo = Suc i")
    case True
    then have "fr = Some (?ids ! i)" using Suc.prems(6) by simp
    then show ?thesis
      using True Suc.prems(1,3) row fresh tk by (subst walk_events.simps) (simp add: Let_def)
  next
    case False
    then have lo: "lo \<le> i" using Suc.prems(4) by simp
    then have fr: "fr \<noteq> Some (?ids ! i)" using Suc.prems(5) [of i] by simp
    have "?ids ! j \<notin> set (desc @ [?ids ! Suc i])" if "j \<le> i" for j
      using Suc.prems(1,2) that txn_line_props(3) [OF wf r] by (auto simp: nth_eq_iff_index_eq)
    from Suc.IH [OF _ this _ lo] Suc.prems
    have IH: "walk_events d (t_table_uuid r) fr (desc @ [?ids ! Suc i]) (?ids ! i)
        = Inr ((desc @ [?ids ! Suc i]) @ rev (drop lo (take (Suc i) ?ids)), 0 < lo \<or> fr = None)"
      by simp
    have "length (desc @ [?ids ! Suc i]) \<le> 50000" using Suc.prems(3) lo by simp
    with fr row fresh IH show ?thesis
      using lo Suc.prems(1) tk by (subst walk_events.simps) (auto simp: Let_def)
  qed
qed

section \<open>The rows of a snapshot survive later transactions\<close>

definition same_file :: "file_row \<Rightarrow> file_row \<Rightarrow> bool" where
  "same_file r r' \<longleftrightarrow> r' = r\<lparr>f_removed_in := f_removed_in r'\<rparr>"

definition same_schema :: "schema_row \<Rightarrow> schema_row \<Rightarrow> bool" where
  "same_schema s s' \<longleftrightarrow> s' = s\<lparr>s_valid_to := s_valid_to s'\<rparr>"

definition snapshot_kept :: "uuid \<Rightarrow> txn_id \<Rightarrow> db \<Rightarrow> db \<Rightarrow> bool" where
  "snapshot_kept tu t d d' \<longleftrightarrow>
     t \<in> set (txn_line tu d')
     \<and> list_all2 same_file (filter (file_visible_at tu t) (db_files d)) (filter (file_visible_at tu t) (db_files d'))
     \<and> rel_option same_schema (find (schema_valid_at tu t) (db_schemas d)) (find (schema_valid_at tu t) (db_schemas d'))
     \<and> (\<forall>s. find (schema_valid_at tu t) (db_schemas d) = Some s \<longrightarrow>
          select_columns (s_schema_uuid s) d' = select_columns (s_schema_uuid s) d)
     \<and> db_table_stats d' = []"

lemma same_file_refl [simp]: "same_file r r"
  by (simp add: same_file_def)

lemma same_schema_refl [simp]: "same_schema s s"
  by (simp add: same_schema_def)

lemma same_file_trans: "same_file a b \<Longrightarrow> same_file b c \<Longrightarrow> same_file a c"
  by (cases a; cases b; cases c) (simp add: same_file_def)

lemma same_schema_trans: "same_schema a b \<Longrightarrow> same_schema b c \<Longrightarrow> same_schema a c"
  by (cases a; cases b; cases c) (simp add: same_schema_def)

lemma same_schema_uuid: "same_schema s s' \<Longrightarrow> s_schema_uuid s' = s_schema_uuid s"
  by (cases s; cases s') (simp add: same_schema_def)

lemma find_snoc: "\<not> P x \<Longrightarrow> find P (xs @ [x]) = find P xs"
  by (induction xs) auto

lemma find_map_same:
  "(\<And>x. x \<in> set xs \<Longrightarrow> P (f x) = P x) \<Longrightarrow> find P (map f xs) = map_option f (find P xs)"
  by (induction xs) auto

lemma list_all2_filter:
  "list_all2 R xs ys \<Longrightarrow> (\<And>x y. R x y \<Longrightarrow> P x = P y) \<Longrightarrow> list_all2 R (filter P xs) (filter P ys)"
  by (induction rule: list_all2_induct) auto

lemma files_step_visible:
  assumes step: "files_step tu0 x fs fs'" and less: "tu = tu0 \<Longrightarrow> t < x"
  shows "list_all2 same_file (filter (file_visible_at tu t) fs) (filter (file_visible_at tu t) fs')"
proof -
  from step obtain mid new where fs': "fs' = mid @ new" and mid: "list_all2 (file_step tu0 x) fs mid"
    and new: "list_all (file_written tu0 x) new" by (auto simp: files_step_def)
  have vis: "file_visible_at tu t r = file_visible_at tu t r'" if "file_step tu0 x r r'" for r r'
    using that less by (auto simp: file_step_def file_visible_at_def)
  have "list_all2 (file_step tu0 x) (filter (file_visible_at tu t) fs) (filter (file_visible_at tu t) mid)"
    by (rule list_all2_filter [OF mid vis])
  then have "list_all2 same_file (filter (file_visible_at tu t) fs) (filter (file_visible_at tu t) mid)"
    by (rule list_all2_mono) (auto simp: file_step_def same_file_def)
  moreover have "filter (file_visible_at tu t) new = []"
    using new less by (fastforce simp: filter_empty_conv list_all_iff file_written_def file_visible_at_def)
  ultimately show ?thesis by (simp add: fs')
qed

lemma schema_effect_kept:
  assumes eff: "schema_effect lib dr m r0 d D su" and less: "tu = t_table_uuid r0 \<Longrightarrow> t < dr_txn dr"
    and cur: "\<And>c s. t_current_schema_uuid r0 = Some c \<Longrightarrow> s \<in> set (db_schemas d) \<Longrightarrow> s_schema_uuid s = c
           \<Longrightarrow> s_table_uuid s = t_table_uuid r0 \<and> s_valid_to s = None"
  shows "rel_option same_schema (find (schema_valid_at tu t) (db_schemas d)) (find (schema_valid_at tu t) (db_schemas D))"
    and "find (schema_valid_at tu t) (db_schemas d) = Some s \<Longrightarrow>
       select_columns (s_schema_uuid s) D = select_columns (s_schema_uuid s) d"
proof -
  have "rel_option same_schema (find (schema_valid_at tu t) (db_schemas d)) (find (schema_valid_at tu t) (db_schemas D))
      \<and> (\<forall>s \<in> set (db_schemas d). select_columns (s_schema_uuid s) D = select_columns (s_schema_uuid s) d)"
    using eff unfolding schema_effect_def
  proof (elim disjE exE conjE)
    fix c ver u k spec
    assume c: "t_current_schema_uuid r0 = Some c" and u: "u \<notin> schema_ids d"
      and S: "db_schemas D = map (close_schema c (dr_txn dr)) (db_schemas d)
      @ [\<lparr>s_schema_uuid = u, s_table_uuid = t_table_uuid r0, s_schema_version = ver + 1,
          s_valid_from = dr_txn dr, s_valid_to = None, s_created_at = dr_now dr\<rparr>]"
      and C: "db_columns D = db_columns d @ column_rows lib (dr_v4 dr) u k 0 (ss_columns spec)"
    have "schema_valid_at tu t (close_schema c (dr_txn dr) s) = schema_valid_at tu t s" if "s \<in> set (db_schemas d)" for s
      using cur [OF c that] less by (auto simp: schema_valid_at_def)
    moreover have "\<not> schema_valid_at tu t \<lparr>s_schema_uuid = u, s_table_uuid = t_table_uuid r0,
        s_schema_version = ver + 1, s_valid_from = dr_txn dr, s_valid_to = None, s_created_at = dr_now dr\<rparr>"
      using less by (auto simp: schema_valid_at_def)
    ultimately have "find (schema_valid_at tu t) (db_schemas D)
        = map_option (close_schema c (dr_txn dr)) (find (schema_valid_at tu t) (db_schemas d))"
      by (simp add: S find_snoc find_map_same)
    then have "rel_option same_schema (find (schema_valid_at tu t) (db_schemas d)) (find (schema_valid_at tu t) (db_schemas D))"
      by (cases "find (schema_valid_at tu t) (db_schemas d)") (simp_all add: same_schema_def)
    moreover have "select_columns (s_schema_uuid s) D = select_columns (s_schema_uuid s) d"
      if "s \<in> set (db_schemas d)" for s
    proof -
      have "s_schema_uuid s \<noteq> u" using that u by blast
      then show ?thesis
        by (auto simp: select_columns_def C filter_empty_conv dest: column_rows_schema)
    qed
    ultimately show ?thesis by blast
  qed (auto simp: select_columns_def option.rel_refl)
  then show "rel_option same_schema (find (schema_valid_at tu t) (db_schemas d)) (find (schema_valid_at tu t) (db_schemas D))"
    and "find (schema_valid_at tu t) (db_schemas d) = Some s \<Longrightarrow>
       select_columns (s_schema_uuid s) D = select_columns (s_schema_uuid s) d"
    by (auto dest: find_SomeD)
qed

lemma snapshot_kept_refl:
  "wf_db d \<Longrightarrow> t \<in> set (txn_line tu d) \<Longrightarrow> snapshot_kept tu t d d"
  by (simp add: snapshot_kept_def list_all2_refl option.rel_refl wf_db_def refs_ok_def)

lemma snapshot_kept_create:
  assumes wf: "wf_db d" and r: "r \<in> set (db_tables d)" and t: "t \<in> set (txn_line (t_table_uuid r) d)"
    and body: "create_table_body cat dr ident location schema properties d = Inr (h, d')"
  shows "snapshot_kept (t_table_uuid r) t d d'"
proof -
  let ?tu = "t_table_uuid r"
  from body obtain p where fresh: "dr_v4 dr 0 \<notin> table_ids d" "dr_v4 dr 1 \<notin> schema_ids d"
    and d': "d' = d\<lparr>db_tables := db_tables d @ [created_row cat dr ident location p],
       db_transactions := db_transactions d @ [created_txn dr],
       db_schemas := db_schemas d @ [created_schema dr],
       db_columns := db_columns d @ created_columns cat dr schema\<rparr>"
    by (rule create_summary)
  have ne: "?tu \<noteq> dr_v4 dr 0" using r fresh(1) by (metis imageI)
  have "select_columns (s_schema_uuid s) d' = select_columns (s_schema_uuid s) d"
    if "s \<in> set (db_schemas d)" for s
  proof -
    have "s_schema_uuid s \<noteq> dr_v4 dr 1" using that fresh(2) by (metis imageI)
    then show ?thesis by (auto simp: select_columns_def d' filter_empty_conv dest: column_rows_schema)
  qed
  moreover have "find (schema_valid_at ?tu t) (db_schemas d') = find (schema_valid_at ?tu t) (db_schemas d)"
    using ne by (simp add: d' find_snoc schema_valid_at_def)
  moreover have "txn_line ?tu d' = txn_line ?tu d" using ne by (simp add: txn_line_def created_rows [OF wf body])
  moreover have "db_files d' = db_files d" "db_table_stats d' = []"
    using wf by (simp_all add: d' wf_db_def refs_ok_def)
  ultimately show ?thesis
    using t by (auto simp: snapshot_kept_def list_all2_refl option.rel_refl dest: find_SomeD)
qed

lemma snapshot_kept_commit:
  assumes wf: "wf_db d" and t: "t \<in> set (txn_line tu d)"
    and body: "commit_body cat dr ident base m d = Inr (res, d')" and mono: "base < dr_txn dr"
  shows "snapshot_kept tu t d d'"
proof -
  from wf body obtain r0 D su pt where sel: "select_table (ti_namespace ident) (ti_name ident) d = Some r0"
    and cur: "t_current_transaction_id r0 = Some base"
    and d': "d' = update_table_commit (dr_txn dr) su pt (t_table_uuid r0) D"
    and stats: "db_table_stats D = []"
    and txns: "db_transactions D = db_transactions d @ [commit_txn dr (t_table_uuid r0) base]"
    and files: "files_step (t_table_uuid r0) (dr_txn dr) (db_files d) (db_files D)"
    and eff: "schema_effect (cat_libs cat) dr m r0 d D su"
    by (rule commit_summary)
  have r0: "r0 \<in> set (db_tables d)" using select_table_Some [OF sel] by simp
  have less: "t < dr_txn dr" if "tu = t_table_uuid r0"
    using history_ok_last [OF wf_dest(1) [OF wf r0] cur, of t] t that mono by (auto simp: txn_line_def)
  note kept = schema_effect_kept [OF eff less current_schema_open [OF wf r0]]
  show ?thesis
    unfolding snapshot_kept_def d' update_table_commit_tables
    using t kept files_step_visible [OF files less] stats
    by (auto simp: txn_line_def table_txns_def txns select_columns_def update_table_commit_tables)
qed

lemma snapshot_kept_step:
  assumes "step lib d d'" and wf: "wf_db d" and r: "r \<in> set (db_tables d)"
    and t: "t \<in> set (txn_line (t_table_uuid r) d)"
  shows "snapshot_kept (t_table_uuid r) t d d'"
  using assms(1,2)
proof (cases rule: step_cases_wf)
  case same
  then show ?thesis using snapshot_kept_refl [OF wf t] by simp
next
  case create
  then show ?thesis using snapshot_kept_create [OF wf r t] by blast
next
  case commit
  then show ?thesis using snapshot_kept_commit [OF wf t] by blast
qed

lemma snapshot_kept_trans:
  assumes "snapshot_kept tu t a b" and "snapshot_kept tu t b c"
  shows "snapshot_kept tu t a c"
proof -
  have "list_all2 same_file xs zs" if "list_all2 same_file xs ys" "list_all2 same_file ys zs" for xs ys zs
    by (rule list_all2_trans [OF _ that]) (rule same_file_trans)
  then have "list_all2 same_file (filter (file_visible_at tu t) (db_files a)) (filter (file_visible_at tu t) (db_files c))"
    using assms unfolding snapshot_kept_def by blast
  moreover have "rel_option same_schema (find (schema_valid_at tu t) (db_schemas a)) (find (schema_valid_at tu t) (db_schemas c))"
    using assms unfolding snapshot_kept_def by (auto simp: option_rel_Some1 rel_option_iff split: option.splits
        intro: same_schema_trans)
  moreover have "select_columns (s_schema_uuid s) c = select_columns (s_schema_uuid s) a"
    if s: "find (schema_valid_at tu t) (db_schemas a) = Some s" for s
  proof -
    from s assms(1) obtain s' where s': "find (schema_valid_at tu t) (db_schemas b) = Some s'" "same_schema s s'"
      unfolding snapshot_kept_def by (auto simp: option_rel_Some1)
    then have "select_columns (s_schema_uuid s') c = select_columns (s_schema_uuid s') b"
      using assms(2) unfolding snapshot_kept_def by blast
    then show ?thesis
      using s assms(1) same_schema_uuid [OF s'(2)] unfolding snapshot_kept_def by simp
  qed
  ultimately show ?thesis using assms(2) unfolding snapshot_kept_def by blast
qed

section \<open>Table rows survive and heads only move forward\<close>

definition row_kept :: "libs \<Rightarrow> table_row \<Rightarrow> table_row \<Rightarrow> bool" where
  "row_kept lib r r' \<longleftrightarrow>
     t_table_uuid r' = t_table_uuid r \<and> table_key r' = table_key r
     \<and> t_min_reader_version r' = t_min_reader_version r \<and> t_min_writer_version r' = t_min_writer_version r
     \<and> (\<exists>h h'. t_current_transaction_id r = Some h \<and> t_current_transaction_id r' = Some h' \<and> h \<le> h')
     \<and> (t_properties r' = t_properties r
        \<or> (\<exists>p txt. t_properties r' = Some txt \<and> serialize_json (lib_json lib) (properties_to_json p) = Inr txt))"

lemma row_kept_refl: "t_current_transaction_id r \<noteq> None \<Longrightarrow> row_kept lib r r"
  by (auto simp: row_kept_def)

lemma row_kept_trans: "row_kept lib a b \<Longrightarrow> row_kept lib b c \<Longrightarrow> row_kept lib a c"
  unfolding row_kept_def by (auto intro: order_trans)

lemma find_append_Some: "find P xs = Some x \<Longrightarrow> find P (xs @ ys) = Some x"
  by (induction xs) auto

lemma selected_row_kept:
  assumes wf: "wf_db d" and sel: "select_table ns n d = Some r"
  shows "row_kept lib r r"
  using txn_line_props(4) [OF wf, of r] select_table_Some [OF sel] by (intro row_kept_refl) simp

lemma row_kept_create:
  assumes wf: "wf_db d" and sel: "select_table ns n d = Some r"
    and body: "create_table_body cat dr ident location schema properties d = Inr (h, d')"
  shows "\<exists>r'. select_table ns n d' = Some r' \<and> row_kept lib r r'"
proof -
  from body obtain p where "db_tables d' = db_tables d @ [created_row cat dr ident location p]"
    by (rule create_summary) simp
  then have "select_table ns n d' = Some r"
    using sel by (simp add: select_table_def find_append_Some)
  then show ?thesis using selected_row_kept [OF wf sel] by blast
qed

lemma row_kept_commit:
  assumes wf: "wf_db d" and sel: "select_table ns n d = Some r"
    and body: "commit_body cat dr ident base m d = Inr (res, d')" and mono: "base < dr_txn dr"
  shows "\<exists>r'. select_table ns n d' = Some r' \<and> row_kept (cat_libs cat) r r'"
proof -
  from wf body obtain r0 D su pt where sel0: "select_table (ti_namespace ident) (ti_name ident) d = Some r0"
    and cur: "t_current_transaction_id r0 = Some base"
    and d': "d' = update_table_commit (dr_txn dr) su pt (t_table_uuid r0) D"
    and tabs: "db_tables D = db_tables d"
    and ser: "\<exists>p. serialize_json (lib_json (cat_libs cat)) (properties_to_json p) = Inr pt"
    by (rule commit_summary)
  let ?f = "\<lambda>q. if t_table_uuid q = t_table_uuid r0 then committed_row (dr_txn dr) su pt q else q"
  have mem: "r0 \<in> set (db_tables d)" "r \<in> set (db_tables d)"
    using select_table_Some [OF sel] select_table_Some [OF sel0] by simp_all
  have "select_table ns n d' = Some (?f r)"
    using sel by (simp add: select_table_def d' update_table_commit_tables tabs find_map_same)
  moreover have "row_kept (cat_libs cat) r (?f r)"
  proof (cases "t_table_uuid r = t_table_uuid r0")
    case True
    then have "r = r0" by (rule table_row_unique [OF wf mem])
    then show ?thesis using cur ser mono by (auto simp: row_kept_def intro: less_imp_le)
  qed (use selected_row_kept [OF wf sel] in simp)
  ultimately show ?thesis by blast
qed

lemma row_kept_step:
  assumes "step lib d d'" and wf: "wf_db d" and sel: "select_table ns n d = Some r"
  shows "\<exists>r'. select_table ns n d' = Some r' \<and> row_kept lib r r'"
  using assms(1,2)
proof (cases rule: step_cases_wf)
  case same
  then show ?thesis using sel selected_row_kept [OF wf sel] by blast
next
  case create
  then show ?thesis using row_kept_create [OF wf sel] by blast
next
  case commit
  then show ?thesis using row_kept_commit [OF wf sel] by blast
qed

lemma row_kept_steps:
  assumes "steps lib d d'" and wf: "wf_db d" and sel: "select_table ns n d = Some r"
  shows "\<exists>r'. select_table ns n d' = Some r' \<and> row_kept lib r r'"
  using assms(1)
proof (induction rule: rtranclp_induct)
  case base
  show ?case using sel selected_row_kept [OF wf sel] by blast
next
  case (step b c)
  then obtain r' where r': "select_table ns n b = Some r'" "row_kept lib r r'" by blast
  have "wf_db b" using steps_wf [OF step(1) wf] .
  with row_kept_step [OF step(2) _ r'(1)] row_kept_trans [OF r'(2)] show ?case by blast
qed

lemma snapshot_kept_steps:
  assumes "steps lib d d'" and wf: "wf_db d" and sel: "select_table ns n d = Some r"
    and t: "t \<in> set (txn_line (t_table_uuid r) d)"
  shows "snapshot_kept (t_table_uuid r) t d d'"
  using assms(1)
proof (induction rule: rtranclp_induct)
  case base
  show ?case using snapshot_kept_refl [OF wf t] .
next
  case (step b c)
  have wb: "wf_db b" using steps_wf [OF step(1) wf] .
  from row_kept_steps [OF step(1) wf sel] obtain r' where r': "select_table ns n b = Some r'"
    "t_table_uuid r' = t_table_uuid r" by (auto simp: row_kept_def)
  have "snapshot_kept (t_table_uuid r) t b c"
    using snapshot_kept_step [OF step(2) wb, of r' t] select_table_Some [OF r'(1)] r'(2) step.IH
    by (simp add: snapshot_kept_def)
  with step.IH show ?case by (rule snapshot_kept_trans)
qed

end
