(* ===== verification/Examples.thy ===== *)
theory Examples
  imports Invariant
begin

text \<open>
  A small concrete run of the catalog, on which the general theorems are applied: a table with
  one 32-bit column is created, two files are appended, and one commit removes a file, adds
  another, widens the column and sets properties. The library parameters are a JSON codec for
  two texts and a column type codec for two types.
\<close>

definition demo_libs :: libs where
  "demo_libs =
     \<lparr>lib_format = \<lparr>version_from_str = (\<lambda>s. Inl s), mode_try_from = (\<lambda>s. None)\<rparr>,
      lib_json = tiny_json_lib,
      lib_schema_to_fb = (\<lambda>fs. if fs = [Field ''_'' Int32 True] then [1]
                            else if fs = [Field ''_'' Int64 True] then [2] else []),
      lib_root_as_schema = (\<lambda>bs. if bs = [1] then Inr [Field ''_'' Int32 True]
                              else if bs = [2] then Inr [Field ''_'' Int64 True] else Inl ''bad'')\<rparr>"

definition demo_cat :: sql_catalog where
  "demo_cat = catalog_new Sqlite demo_libs"

definition demo_ident :: table_ident where
  "demo_ident = table_ident_new ''ns'' ''t''"

definition demo_draws :: "txn_id \<Rightarrow> draws" where
  "demo_draws x = \<lparr>dr_now = 0, dr_txn = x, dr_v4 = (\<lambda>n. 100 * x + word_of_nat n)\<rparr>"

definition demo_file :: "uuid \<Rightarrow> file_spec" where
  "demo_file u = with_uuid (file_spec_new Parquet ''p'' 5 7) u"

definition demo_schema1 :: schema_spec where
  "demo_schema1 = with_column schema_spec_new (column_spec_new ''id'' Int32)"

definition demo_schema2 :: schema_spec where
  "demo_schema2 = with_column schema_spec_new (column_spec_new ''id'' Int64)"

definition demo_append :: mutation where
  "demo_append = \<lparr>mu_operations = [AppendFiles [demo_file 1, demo_file 2]]\<rparr>"

definition demo_rewrite :: mutation where
  "demo_rewrite = \<lparr>mu_operations = [DeleteFiles [1], AppendFiles [demo_file 3], UpdateSchema demo_schema2,
     SetProperties \<lparr>tp_values = [(''owner'', JString ''ann'')]\<rparr>]\<rparr>"

definition demo_db1 :: db where
  "demo_db1 = snd (create_table demo_cat (demo_draws 10) demo_ident ''loc'' demo_schema1 None empty_db)"

definition demo_db2 :: db where
  "demo_db2 = snd (commit demo_cat (demo_draws 20) demo_ident 10 demo_append demo_db1)"

definition demo_db3 :: db where
  "demo_db3 = snd (commit demo_cat (demo_draws 30) demo_ident 20 demo_rewrite demo_db2)"

definition demo_row :: "txn_id \<Rightarrow> uuid \<Rightarrow> string \<Rightarrow> table_row" where
  "demo_row x s p = \<lparr>t_table_uuid = 1000, t_table_name = ''t'', t_namespace = ''ns'', t_location = ''loc'',
     t_current_schema_uuid = Some s, t_current_transaction_id = Some x, t_created_at = 0,
     t_properties = Some p, t_min_reader_version = 1, t_min_writer_version = 1\<rparr>"

definition demo_txn :: "txn_id \<Rightarrow> txn_id option \<Rightarrow> txn_row" where
  "demo_txn x p = \<lparr>x_transaction_id = x, x_table_uuid = 1000, x_transaction_timestamp = 0,
     x_parent_transaction_id = p\<rparr>"

definition demo_file_row :: "uuid \<Rightarrow> txn_id \<Rightarrow> txn_id option \<Rightarrow> file_row" where
  "demo_file_row u a r = \<lparr>f_file_uuid = u, f_table_uuid = 1000, f_file_format = ''parquet'',
     f_file_path = ''p'', f_record_count = 5, f_file_size_bytes = 7, f_added_in = a, f_removed_in = r,
     f_partition_values = None, f_format_options = None\<rparr>"

lemma demo_db1_eq:
  "demo_db1 =
     \<lparr>db_tables = [demo_row 10 1001 ''{}''], db_transactions = [demo_txn 10 None],
      db_schemas = [\<lparr>s_schema_uuid = 1001, s_table_uuid = 1000, s_schema_version = 1,
         s_valid_from = 10, s_valid_to = None, s_created_at = 0\<rparr>],
      db_columns = [\<lparr>c_column_uuid = 1002, c_schema_uuid = 1001, c_column_name = ''id'',
         c_column_type = [1], c_ordinal_position = 1, c_is_nullable = False\<rparr>],
      db_files = [], db_table_stats = []\<rparr>"
  by code_simp

lemma demo_db2_eq:
  "demo_db2 = demo_db1\<lparr>db_tables := [demo_row 20 1001 ''{}''],
     db_transactions := [demo_txn 10 None, demo_txn 20 (Some 10)],
     db_files := [demo_file_row 1 20 None, demo_file_row 2 20 None]\<rparr>"
  unfolding demo_db2_def demo_db1_eq by code_simp

lemma demo_db3_eq:
  "demo_db3 = demo_db1\<lparr>db_tables := [demo_row 30 3000 ''{owner:ann}''],
     db_transactions := [demo_txn 10 None, demo_txn 20 (Some 10), demo_txn 30 (Some 20)],
     db_schemas := [\<lparr>s_schema_uuid = 1001, s_table_uuid = 1000, s_schema_version = 1,
         s_valid_from = 10, s_valid_to = Some 30, s_created_at = 0\<rparr>,
        \<lparr>s_schema_uuid = 3000, s_table_uuid = 1000, s_schema_version = 2,
         s_valid_from = 30, s_valid_to = None, s_created_at = 0\<rparr>],
     db_columns := db_columns demo_db1 @ [\<lparr>c_column_uuid = 3001, c_schema_uuid = 3000,
         c_column_name = ''id'', c_column_type = [2], c_ordinal_position = 1, c_is_nullable = False\<rparr>],
     db_files := [demo_file_row 1 20 (Some 30), demo_file_row 2 20 None, demo_file_row 3 30 None]\<rparr>"
  unfolding demo_db3_def demo_db2_eq demo_db1_eq by code_simp

lemma demo_commit2:
  "commit demo_cat (demo_draws 20) demo_ident 10 demo_append demo_db1 =
     (Inr \<lparr>cr_transaction_id = 20, cr_table_view = None\<rparr>, demo_db2)"
  unfolding demo_db2_def demo_db1_eq by code_simp

lemma demo_commit3:
  "commit demo_cat (demo_draws 30) demo_ident 20 demo_rewrite demo_db2 =
     (Inr \<lparr>cr_transaction_id = 30, cr_table_view = None\<rparr>, demo_db3)"
  unfolding demo_db3_def demo_db2_eq demo_db1_eq by code_simp

lemma demo_libs_cat [simp]: "cat_libs demo_cat = demo_libs"
  by (simp add: demo_cat_def catalog_new_def catalog_new_with_protocol_versions_def)

lemma demo_step1: "step demo_libs empty_db demo_db1"
  by (rule step.create [of demo_cat "demo_draws 10" demo_ident "''loc''" demo_schema1 None _
        "fst (create_table demo_cat (demo_draws 10) demo_ident ''loc'' demo_schema1 None empty_db)"])
     (simp_all add: demo_db1_def)

lemma demo_step2: "step demo_libs demo_db1 demo_db2"
  by (rule step.commit [OF demo_commit2]) (simp_all add: demo_draws_def)

lemma demo_step3: "step demo_libs demo_db2 demo_db3"
  by (rule step.commit [OF demo_commit3]) (simp_all add: demo_draws_def)

lemma demo_reachable:
  "reachable demo_libs demo_db1" "reachable demo_libs demo_db2" "reachable demo_libs demo_db3"
  unfolding reachable_def
  using demo_step1 demo_step2 demo_step3 by (meson rtranclp.rtrancl_into_rtrancl rtranclp.rtrancl_refl)+

end
