(* ===== verification/Guarantees.thy ===== *)
theory Guarantees
  imports Snapshots Examples
begin

text \<open>
  What the catalog guarantees its clients: optimistic concurrency control, one line of
  history per table, snapshots that do not change, and the exact effect of a commit on the
  files of the head. Each statement is about the modelled operations; the witnesses apply it
  to the run of theory \<open>Examples\<close>.
\<close>

section \<open>Optimistic concurrency control\<close>

lemma commit_Inr_body: "commit cat dr ident base m d = (Inr res, d') \<longleftrightarrow> commit_body cat dr ident base m d = Inr (res, d')"
  by (simp add: commit_def run_tx_Inr)

lemma current_of_row:
  "select_table (ti_namespace ident) (ti_name ident) d = Some r \<Longrightarrow>
     current_transaction_id cat ident d = ok_or (InvalidState NoCurrentTransaction) (t_current_transaction_id r)"
  by (simp add: current_transaction_id_def)

lemma select_after_commit:
  assumes "select_table ns n d = Some r" and "db_tables D = db_tables d"
  shows "select_table ns n (update_table_commit x su p (t_table_uuid r) D) = Some (committed_row x su p r)"
  using assms by (simp add: select_table_def update_table_commit_tables find_map_same)

text \<open>C7. A commit succeeds only on the current head: if it succeeds, its base was the head, the
  head is now the identifier of the new transaction, which was unused, and the transactions of
  the table are those before followed by the new one, whose parent is the base. Transactions
  of other tables are untouched.\<close>

theorem commit_advances_head:
  assumes "reachable lib d" and "commit cat dr ident base m d = (Inr res, d')"
  shows "current_transaction_id cat ident d = Inr base
    \<and> current_transaction_id cat ident d' = Inr (dr_txn dr)
    \<and> cr_transaction_id res = dr_txn dr \<and> dr_txn dr \<notin> txn_ids d
    \<and> (\<exists>tu. db_transactions d' = db_transactions d @ [\<lparr>x_transaction_id = dr_txn dr, x_table_uuid = tu,
         x_transaction_timestamp = dr_now dr, x_parent_transaction_id = Some base\<rparr>]
       \<and> map_option t_table_uuid (select_table (ti_namespace ident) (ti_name ident) d) = Some tu)"
proof -
  have wf: "wf_db d" using assms(1) by (rule reachable_wf)
  show ?thesis
    using wf assms(2) [unfolded commit_Inr_body]
    by (rule commit_summary)
       (auto simp: current_of_row select_after_commit update_table_commit_tables)
qed

theorem commit_advances_head_witness:
  "current_transaction_id demo_cat demo_ident demo_db1 = Inr 10
   \<and> current_transaction_id demo_cat demo_ident demo_db2 = Inr 20"
  using commit_advances_head [OF demo_reachable(1) demo_commit2] by (simp add: demo_draws_def)

text \<open>C8. A stale base is refused: when the head of the table is not the base of the commit, the
  commit fails and changes nothing, whatever the mutation; and when the request itself is
  acceptable, the error is the conflict that names the base and the head.\<close>

theorem stale_commit_refused:
  assumes "current_transaction_id cat ident d = Inr h" and "h \<noteq> base"
  shows "(\<exists>e. commit cat dr ident base m d = (Inl e, d))
    \<and> (commit_precheck m = Inr () \<and> (\<exists>r p. select_table (ti_namespace ident) (ti_name ident) d = Some r
         \<and> parse_table_properties (lib_json (cat_libs cat)) (t_properties r) = Inr p
         \<and> sint (t_min_writer_version r) \<le> sint (writer_version cat))
       \<longrightarrow> commit cat dr ident base m d = (Inl (Conflict (BaseMismatch base h)), d))"
proof -
  from assms(1) obtain r where r: "select_table (ti_namespace ident) (ti_name ident) d = Some r"
    "t_current_transaction_id r = Some h"
    by (auto simp: current_transaction_id_def result_simps)
  have "commit_body cat dr ident base m d \<noteq> Inr y" for y
    using r assms(2) by (cases y) (auto elim!: commit_body_Inr)
  then have "\<exists>e. commit_body cat dr ident base m d = Inl e"
    by (cases "commit_body cat dr ident base m d") auto
  moreover have "commit_body cat dr ident base m d = Inl (Conflict (BaseMismatch base h))"
    if "commit_precheck m = Inr ()" "parse_table_properties (lib_json (cat_libs cat)) (t_properties r) = Inr p"
      "sint (t_min_writer_version r) \<le> sint (writer_version cat)" for p
    using that r assms(2)
    by (simp add: commit_body_def commit_head_def ensure_writer_protocol_compatible_def Let_def)
  ultimately show ?thesis using r by (auto simp: commit_def run_tx_def)
qed

theorem stale_commit_refused_witness:
  "\<exists>e. commit demo_cat (demo_draws 40) demo_ident 10 demo_append demo_db2 = (Inl e, demo_db2)"
proof -
  have "current_transaction_id demo_cat demo_ident demo_db2 = Inr 20"
    unfolding demo_db2_eq demo_db1_eq by code_simp
  then show ?thesis using stale_commit_refused [of demo_cat demo_ident demo_db2 20 10] by simp
qed

text \<open>C2. No lost updates: once a commit on a base has succeeded, every later commit on the same
  base fails and changes nothing, after any sequence of catalog operations by any clients.\<close>

theorem no_lost_update:
  assumes "reachable lib d" and "commit cat dr ident base m d = (Inr res, d1)"
    and "cat_libs cat = lib" and "base < dr_txn dr" and "steps lib d1 d2"
  shows "\<exists>e. commit cat' dr' ident base m' d2 = (Inl e, d2)"
proof -
  have wf: "wf_db d" using assms(1) by (rule reachable_wf)
  have wf1: "wf_db d1" using commit_wf [OF wf assms(2) [unfolded commit_Inr_body] assms(4)] .
  obtain r1 where r1: "select_table (ti_namespace ident) (ti_name ident) d1 = Some r1"
    "t_current_transaction_id r1 = Some (dr_txn dr)"
    using wf assms(2) [unfolded commit_Inr_body] by (rule commit_summary) (simp add: select_after_commit)
  from row_kept_steps [OF assms(5) wf1 r1(1)] r1(2) obtain r2 h where
    r2: "select_table (ti_namespace ident) (ti_name ident) d2 = Some r2"
      "t_current_transaction_id r2 = Some h" "dr_txn dr \<le> h"
    by (auto simp: row_kept_def)
  have "commit_body cat' dr' ident base m' d2 \<noteq> Inr y" for y
    using r2 assms(4) by (cases y) (auto elim!: commit_body_Inr)
  then show ?thesis
    by (cases "commit_body cat' dr' ident base m' d2") (auto simp: commit_def run_tx_def)
qed

theorem no_lost_update_witness:
  "\<exists>e. commit demo_cat (demo_draws 50) demo_ident 10 demo_rewrite demo_db3 = (Inl e, demo_db3)"
  by (rule no_lost_update [OF demo_reachable(1) demo_commit2])
     (use demo_step3 in \<open>auto simp: demo_draws_def\<close>)

text \<open>C6. Every database the catalog can reach is well formed: unique keys, intact references, and
  for every table one line of transactions with increasing identifiers ending in the head, a
  sequence of schema versions numbered from 1 whose validity ranges partition that line, and
  files added and removed by transactions of the line.\<close>

theorem reachable_well_formed:
  assumes "reachable lib d"
  shows "wf_db d"
  using assms by (rule reachable_wf)

theorem reachable_well_formed_witness: "wf_db demo_db3"
  using reachable_well_formed [OF demo_reachable(3)] .

section \<open>Snapshots\<close>

lemma read_files_Inr:
  "read_files lib tu t d = Inr fs \<longleftrightarrow>
     length (filter (file_visible_at tu t) (db_files d)) \<le> 10000
     \<and> mapM (file_struct_of_row lib) (filter (file_visible_at tu t) (db_files d)) = Inr fs"
  by (auto simp: read_files_code Let_def simp flip: unat_less_int)

definition erase_removed :: "file_struct \<Rightarrow> file_struct" where
  "erase_removed f = f\<lparr>fi_removed_in_transaction_id := None\<rparr>"

definition view_content :: "table_view \<Rightarrow> table_view" where
  "view_content v = v\<lparr>tv_schema := (tv_schema v)\<lparr>sc_valid_to_transaction_id := None\<rparr>,
     tv_files := map erase_removed (tv_files v), tv_properties := properties_new\<rparr>"

lemma file_struct_same:
  assumes "same_file r r'" and "file_struct_of_row lib r = Inr f"
  shows "\<exists>g. file_struct_of_row lib r' = Inr g \<and> erase_removed g = erase_removed f"
proof -
  have "r' = r\<lparr>f_removed_in := f_removed_in r'\<rparr>" using assms(1) by (simp add: same_file_def)
  then obtain v where r': "r' = r\<lparr>f_removed_in := v\<rparr>" by blast
  then show ?thesis
    using assms(2) unfolding r' by (auto simp: file_struct_of_row_def result_simps erase_removed_def)
qed

lemma mapM_same_files:
  assumes "list_all2 same_file rs rs'" and "mapM (file_struct_of_row lib) rs = Inr fs"
  shows "\<exists>gs. mapM (file_struct_of_row lib) rs' = Inr gs \<and> map erase_removed gs = map erase_removed fs"
  using assms
proof (induction arbitrary: fs rule: list_all2_induct)
  case (Cons r rs r' rs')
  then obtain f fs' where f: "file_struct_of_row lib r = Inr f" "mapM (file_struct_of_row lib) rs = Inr fs'"
    "fs = f # fs'" by (auto simp: result_simps)
  then show ?case using file_struct_same [OF Cons(1) f(1)] Cons(3) [OF f(2)] by force
qed simp

definition json_codec :: "json_lib \<Rightarrow> bool" where
  "json_codec lib \<longleftrightarrow> (\<forall>v t. json_to_string lib v = Inr t \<longrightarrow> json_from_str lib t = Inr v)"

lemma row_kept_properties:
  assumes "row_kept lib r r'" and "json_codec (lib_json lib)"
    and "parse_table_properties (lib_json lib) (t_properties r) = Inr p"
  shows "\<exists>p'. parse_table_properties (lib_json lib) (t_properties r') = Inr p'"
  using assms(1) unfolding row_kept_def
proof (elim conjE disjE exE)
  fix q pt
  assume pt: "t_properties r' = Some pt" "serialize_json (lib_json lib) (properties_to_json q) = Inr pt"
  then have "json_from_str (lib_json lib) pt = Inr (properties_to_json q)"
    using serialize_json_size [OF pt(2)] assms(2) by (simp add: json_codec_def)
  with parse_serialize_json [OF pt(2)] show ?thesis
    by (simp add: parse_table_properties_def pt properties_to_json_def properties_from_json_def)
qed (use assms(3) in simp)

lemma read_head_Inr:
  "read_head cat ident d = Inr (r, p, h) \<longleftrightarrow>
     select_table (ti_namespace ident) (ti_name ident) d = Some r
     \<and> parse_table_properties (lib_json (cat_libs cat)) (t_properties r) = Inr p
     \<and> sint (t_min_reader_version r) \<le> sint (reader_version cat)
     \<and> t_current_transaction_id r = Some h"
  by (auto simp: read_head_def ensure_reader_protocol_compatible_def Let_def result_simps
      split: option.splits if_splits)

lemma read_table_Inr:
  "read_table cat ident (Some t) d = Inr v \<longleftrightarrow>
     (\<exists>r p h s files. read_head cat ident d = Inr (r, p, h)
        \<and> check_in_history (t_table_uuid r) h t d = Inr ()
        \<and> read_schema (cat_libs cat) ident (t_table_uuid r) t d = Inr s
        \<and> read_files (cat_libs cat) (t_table_uuid r) t d = Inr files
        \<and> v = \<lparr>tv_ident = ident, tv_table_uuid = t_table_uuid r, tv_transaction_id = t, tv_schema = s,
               tv_files = files, tv_properties = p, tv_stats = read_stats (t_table_uuid r) t d\<rparr>)"
  by (cases "read_head cat ident d") (auto simp: read_table_def Let_def result_simps)

lemma read_schema_same:
  assumes "read_schema lib ident tu t d = Inr s"
    and "rel_option same_schema (find (schema_valid_at tu t) (db_schemas d)) (find (schema_valid_at tu t) (db_schemas d'))"
    and "\<And>q. find (schema_valid_at tu t) (db_schemas d) = Some q \<Longrightarrow>
          select_columns (s_schema_uuid q) d' = select_columns (s_schema_uuid q) d"
  shows "\<exists>s'. read_schema lib ident tu t d' = Inr s'
     \<and> s'\<lparr>sc_valid_to_transaction_id := None\<rparr> = s\<lparr>sc_valid_to_transaction_id := None\<rparr>"
proof -
  from assms(1) obtain q cols where q: "find (schema_valid_at tu t) (db_schemas d) = Some q"
    "schema_columns lib (ColumnCount MAX_COLUMNS_PER_SCHEMA) (s_schema_uuid q) d = Inr cols"
    "s = schema_struct_of_row q cols"
    by (auto simp: read_schema_def result_simps)
  then obtain q' where q': "find (schema_valid_at tu t) (db_schemas d') = Some q'" "same_schema q q'"
    using assms(2) by (auto simp: option_rel_Some1)
  have cols: "schema_columns lib (ColumnCount MAX_COLUMNS_PER_SCHEMA) (s_schema_uuid q) d' = Inr cols"
    using q(2) assms(3) [OF q(1)] by (simp add: schema_columns_def)
  have "schema_struct_of_row q' cols\<lparr>sc_valid_to_transaction_id := None\<rparr>
      = schema_struct_of_row q cols\<lparr>sc_valid_to_transaction_id := None\<rparr>"
    using q'(2) by (cases q; cases q') (simp add: same_schema_def schema_struct_of_row_def)
  then show ?thesis
    using q' cols same_schema_uuid [OF q'(2)] by (simp add: read_schema_def q(3))
qed

text \<open>C3. Snapshots are immutable: a transaction that can be read now can be read after any
  further sequence of catalog operations by any clients, and the view is the same: the same
  schema and columns, the same files in the same order, the same statistics. Only what the
  catalog does not version may differ: the closing mark of the schema, the removal mark of a
  file, and the table properties. The hypothesis on the JSON library is that it parses what it
  printed.\<close>

theorem snapshots_immutable:
  assumes "reachable lib d" and "steps lib d d'" and "cat_libs cat = lib" and "json_codec (lib_json lib)"
    and "read_table cat ident (Some t) d = Inr v"
  shows "\<exists>v'. read_table cat ident (Some t) d' = Inr v' \<and> view_content v' = view_content v"
proof -
  have wf: "wf_db d" using assms(1) by (rule reachable_wf)
  have wf': "wf_db d'" using steps_wf [OF assms(2) wf] .
  from assms(5) [unfolded read_table_Inr read_head_Inr assms(3)] obtain r p h s files where
    sel: "select_table (ti_namespace ident) (ti_name ident) d = Some r"
    and p: "parse_table_properties (lib_json lib) (t_properties r) = Inr p"
    and ver: "sint (t_min_reader_version r) \<le> sint (reader_version cat)"
    and h: "t_current_transaction_id r = Some h" "check_in_history (t_table_uuid r) h t d = Inr ()"
    and s: "read_schema lib ident (t_table_uuid r) t d = Inr s"
    and files: "read_files lib (t_table_uuid r) t d = Inr files"
    and v: "v = \<lparr>tv_ident = ident, tv_table_uuid = t_table_uuid r, tv_transaction_id = t, tv_schema = s,
               tv_files = files, tv_properties = p, tv_stats = read_stats (t_table_uuid r) t d\<rparr>"
    by auto
  have "r \<in> set (db_tables d)" using select_table_Some [OF sel] by simp
  then have t: "t \<in> set (txn_line (t_table_uuid r) d)"
    using h check_in_history_line [OF wf] by (auto split: if_splits)
  note kept = snapshot_kept_steps [OF assms(2) wf sel t, unfolded snapshot_kept_def]
  obtain r' where sel': "select_table (ti_namespace ident) (ti_name ident) d' = Some r'" "row_kept lib r r'"
    using row_kept_steps [OF assms(2) wf sel] by blast
  then have uuid: "t_table_uuid r' = t_table_uuid r" "t_min_reader_version r' = t_min_reader_version r"
    and "\<exists>h'. t_current_transaction_id r' = Some h'" by (auto simp: row_kept_def)
  then obtain h' where h': "t_current_transaction_id r' = Some h'" by blast
  have "r' \<in> set (db_tables d')" using select_table_Some [OF sel'(1)] by simp
  then have "check_in_history (t_table_uuid r') h' t d' = Inr ()"
    using check_in_history_line [OF wf' _ h'] kept uuid by simp
  moreover obtain p' where "parse_table_properties (lib_json lib) (t_properties r') = Inr p'"
    using row_kept_properties [OF sel'(2) assms(4) p] by blast
  moreover obtain s' where "read_schema lib ident (t_table_uuid r) t d' = Inr s'"
    "s'\<lparr>sc_valid_to_transaction_id := None\<rparr> = s\<lparr>sc_valid_to_transaction_id := None\<rparr>"
    using read_schema_same [OF s] kept by blast
  moreover obtain files' where "read_files lib (t_table_uuid r) t d' = Inr files'"
    "map erase_removed files' = map erase_removed files"
    using mapM_same_files [of _ _ lib files] files kept list_all2_lengthD unfolding read_files_Inr by metis
  moreover have "read_stats (t_table_uuid r) t d' = read_stats (t_table_uuid r) t d"
    using kept wf by (simp add: read_stats_def wf_db_def refs_ok_def)
  ultimately show ?thesis
    using sel' h' uuid ver v by (auto simp: read_table_Inr read_head_Inr assms(3) view_content_def)
qed

lemma tiny_json_codec: "json_codec tiny_json_lib"
  by (auto simp: json_codec_def tiny_json_lib_def split: if_splits)

lemma demo_libs_json [simp]: "lib_json demo_libs = tiny_json_lib"
  by (simp add: demo_libs_def)

definition demo_files :: "catalog_error + table_view \<Rightarrow> uuid list" where
  "demo_files res = (case res of Inr v \<Rightarrow> map fi_file_uuid (tv_files v) | Inl _ \<Rightarrow> [])"

lemma demo_read2: "\<exists>v. read_table demo_cat demo_ident (Some 20) demo_db2 = Inr v \<and> map fi_file_uuid (tv_files v) = [1, 2]"
proof -
  have "isl (read_table demo_cat demo_ident (Some 20) demo_db2) = False
      \<and> demo_files (read_table demo_cat demo_ident (Some 20) demo_db2) = [1, 2]"
    unfolding demo_db2_eq demo_db1_eq by code_simp
  then show ?thesis by (auto simp: demo_files_def isl_def split: sum.splits)
qed

theorem snapshots_immutable_witness:
  "\<exists>v v'. read_table demo_cat demo_ident (Some 20) demo_db2 = Inr v
     \<and> read_table demo_cat demo_ident (Some 20) demo_db3 = Inr v' \<and> view_content v' = view_content v"
proof -
  obtain v where v: "read_table demo_cat demo_ident (Some 20) demo_db2 = Inr v" using demo_read2 by blast
  from snapshots_immutable [OF demo_reachable(2) _ _ _ v] demo_step3 v show ?thesis
    using tiny_json_codec by auto
qed

section \<open>The effect of a commit on the head\<close>

lemma head_files_live:
  assumes wf: "wf_db d" and r: "r \<in> set (db_tables d)" and h: "t_current_transaction_id r = Some h"
  shows "filter (file_visible_at (t_table_uuid r) h) (db_files d) = live (t_table_uuid r) d"
  unfolding live_def
proof (rule filter_cong [OF refl])
  fix f
  assume f: "f \<in> set (db_files d)"
  have le: "y \<le> h" if "y \<in> set (map x_transaction_id (table_txns (t_table_uuid r) d))" for y
    using history_ok_last [OF wf_dest(1) [OF wf r] h] that by simp
  have "file_in_history (set (map x_transaction_id (table_txns (t_table_uuid r) d))) f" if "f_table_uuid f = t_table_uuid r"
    using wf_dest(3) [OF wf r] f that by (auto simp: list_all_iff table_files_def)
  then show "file_visible_at (t_table_uuid r) h f = (f_table_uuid f = t_table_uuid r \<and> f_removed_in f = None)"
    using le by (fastforce simp: file_visible_at_def file_in_history_def split: option.splits)
qed

lemma commit_live:
  assumes wf: "wf_db d" and body: "commit_body cat dr ident base m d = Inr (res, d')" and "base < dr_txn dr"
    and sel: "select_table (ti_namespace ident) (ti_name ident) d = Some r"
  shows "filter (file_visible_at (t_table_uuid r) (dr_txn dr)) (db_files d')
     = snd (fold (live_step (cat_libs cat) (dr_v4 dr) (t_table_uuid r) (dr_txn dr)) (mu_operations m)
              (0, filter (file_visible_at (t_table_uuid r) base) (db_files d)))"
proof -
  have wf': "wf_db d'" using commit_wf [OF wf body assms(3)] .
  from wf body show ?thesis
  proof (rule commit_summary)
    fix q D su pt
    assume q: "select_table (ti_namespace ident) (ti_name ident) d = Some q"
      and cur: "t_current_transaction_id q = Some base"
      and d': "d' = update_table_commit (dr_txn dr) su pt (t_table_uuid q) D"
      and tabs: "db_tables D = db_tables d"
      and lv: "\<exists>k. (k, live (t_table_uuid q) D) = fold (live_step (cat_libs cat) (dr_v4 dr) (t_table_uuid q) (dr_txn dr))
       (mu_operations m) (0, live (t_table_uuid q) d)"
    have r: "q = r" using q sel by simp
    have "filter (file_visible_at (t_table_uuid r) base) (db_files d) = live (t_table_uuid r) d"
      using head_files_live [OF wf _ cur] select_table_Some [OF sel] r by simp
    moreover have "filter (file_visible_at (t_table_uuid r) (dr_txn dr)) (db_files d') = live (t_table_uuid r) d'"
      using head_files_live [OF wf', of "committed_row (dr_txn dr) su pt r" "dr_txn dr"]
        select_table_Some [OF select_after_commit [OF sel tabs, of "dr_txn dr" su pt]] r d' by simp
    moreover have "live (t_table_uuid r) d' = live (t_table_uuid r) D" by (simp add: live_def d' update_table_commit_tables)
    ultimately show ?thesis using lv r by (metis snd_conv)
  qed
qed

text \<open>The files visible at the new head are the files visible at the base, with the
  operations of the mutation applied in order: an append adds its rows at the end, a delete
  takes away the listed files and nothing else, the other operations do not touch files. So no
  append is lost, no deleted file stays, and no other file changes.\<close>

lemma commit_files_exact:
  assumes "reachable lib d" and "commit cat dr ident base m d = (Inr res, d')" and "base < dr_txn dr"
    and "map_option t_table_uuid (select_table (ti_namespace ident) (ti_name ident) d) = Some tu"
  shows "filter (file_visible_at tu (dr_txn dr)) (db_files d')
     = snd (fold (live_step (cat_libs cat) (dr_v4 dr) tu (dr_txn dr)) (mu_operations m)
              (0, filter (file_visible_at tu base) (db_files d)))"
  using commit_live [OF reachable_wf [OF assms(1)] assms(2) [unfolded commit_Inr_body] assms(3)] assms(4) by auto

section \<open>Dropping tables\<close>

text \<open>C22. \<open>drop_table\<close> never drops a table: on every reachable database it fails with a foreign
  key violation for a table that exists, since its transactions and schemas refer to it and no
  foreign key cascades, and with not-found for one that does not; the database stays as it
  is.\<close>

theorem drop_table_never_drops:
  assumes "reachable lib d"
  shows "drop_table cat ident d =
     (case select_table (ti_namespace ident) (ti_name ident) d of
        Some _ \<Rightarrow> (Inl (Storage (ForeignKeyViolation ''tables'')), d)
      | None \<Rightarrow> (Inl (NotFound (TableName (ti_namespace ident) (ti_name ident))), d))"
  using drop_refused [OF reachable_wf [OF assms]] drop_not_found [of ident d]
  by (simp add: drop_table_def run_tx_def split: option.split)

theorem drop_table_never_drops_witness:
  "drop_table demo_cat demo_ident demo_db1 = (Inl (Storage (ForeignKeyViolation ''tables'')), demo_db1)"
proof -
  have "select_table (ti_namespace demo_ident) (ti_name demo_ident) demo_db1 = Some (demo_row 10 1001 ''{}'')"
    unfolding demo_db1_eq by code_simp
  then show ?thesis using drop_table_never_drops [OF demo_reachable(1), of demo_cat demo_ident] by simp
qed

section \<open>Reading the past\<close>

text \<open>C20. A transaction can be read exactly when it belongs to the table: on every reachable
  database the walk along the parents ends, meets neither a cycle nor a missing row, and
  finds exactly the transactions of the table.\<close>

theorem history_walk_exact:
  assumes "reachable lib d" and "select_table ns n d = Some r"
  shows "\<exists>h. t_current_transaction_id r = Some h \<and> check_in_history (t_table_uuid r) h t d =
     (if t \<in> set (map x_transaction_id (filter (\<lambda>x. x_table_uuid x = t_table_uuid r) (db_transactions d)))
      then Inr () else Inl (InvalidState NotInHistory))"
proof -
  have wf: "wf_db d" using assms(1) by (rule reachable_wf)
  have r: "r \<in> set (db_tables d)" using select_table_Some [OF assms(2)] by simp
  have line: "set (txn_line (t_table_uuid r) d)
      = set (map x_transaction_id (filter (\<lambda>x. x_table_uuid x = t_table_uuid r) (db_transactions d)))"
    by (simp add: txn_line_def table_txns_def)
  from txn_line_props(4) [OF wf r] check_in_history_line [OF wf r] line show ?thesis by simp
qed

theorem history_walk_exact_witness:
  "check_in_history 1000 30 20 demo_db3 = Inr () \<and> check_in_history 1000 30 7 demo_db3 = Inl (InvalidState NotInHistory)"
proof -
  let ?r = "demo_row 30 3000 ''{owner:ann}''"
  have sel: "select_table ''ns'' ''t'' demo_db3 = Some ?r"
    unfolding demo_db3_eq demo_db1_eq by code_simp
  have ids: "map x_transaction_id (filter (\<lambda>x. x_table_uuid x = 1000) (db_transactions demo_db3)) = [10, 20, 30]"
    by (simp add: demo_db3_eq demo_txn_def)
  have "\<exists>h. t_current_transaction_id ?r = Some h \<and> check_in_history (t_table_uuid ?r) h t demo_db3 =
     (if t \<in> set (map x_transaction_id (filter (\<lambda>x. x_table_uuid x = t_table_uuid ?r) (db_transactions demo_db3)))
      then Inr () else Inl (InvalidState NotInHistory))" for t
    using history_walk_exact [OF demo_reachable(3) sel] .
  then have "check_in_history 1000 30 t demo_db3 = (if t \<in> set [10, 20, 30] then Inr () else Inl (InvalidState NotInHistory))" for t
    using ids by (simp add: demo_row_def del: set_map set_filter)
  then show ?thesis by simp
qed

end
