(* ===== verification/SchemaHistory.thy ===== *)
theory SchemaHistory
  imports Guarantees
begin

text \<open>
  Schemas as readers see them: the columns of a created table come back as given, in order, and
  a schema update only widens the columns it finds. The hypothesis on the Arrow codec is that it
  decodes the one-field schemas it encoded, for the column types in question.
\<close>

section \<open>Columns come back in order\<close>

definition codec_ok :: "libs \<Rightarrow> column_spec list \<Rightarrow> bool" where
  "codec_ok lib cs \<longleftrightarrow> list_all (\<lambda>c. lib_root_as_schema lib
       (lib_schema_to_fb lib [Field ''_'' (cs_column_type c) True]) = Inr [Field ''_'' (cs_column_type c) True]) cs"

abbreviation spec_sig :: "column_spec \<Rightarrow> string \<times> data_type \<times> bool" where
  "spec_sig c \<equiv> (cs_name c, cs_column_type c, cs_is_nullable c)"

abbreviation column_sig :: "column_struct \<Rightarrow> string \<times> data_type \<times> bool" where
  "column_sig c \<equiv> (co_column_name c, co_column_type c, co_is_nullable c)"

lemma sort_key_sorted: "sorted (map f xs) \<Longrightarrow> sort_key f xs = xs"
  by (induction xs) (simp_all add: insort_is_Cons)

lemma sint_of_nat_small: "n < 2 ^ (LENGTH('a) - 1) \<Longrightarrow> sint (word_of_nat n :: 'a::len word) = int n"
proof -
  assume "n < 2 ^ (LENGTH('a) - 1)"
  then have "int n < 2 ^ (LENGTH('a) - 1)" using of_nat_less_iff [where 'a = int] by fastforce
  moreover have "- (2 ^ (LENGTH('a) - 1)) \<le> int n" by (rule order_trans [of _ 0]) simp_all
  ultimately show ?thesis by (simp add: signed_of_nat signed_take_bit_int_eq_self)
qed

lemma sint_ordinal: "n < 2 ^ 31 \<Longrightarrow> sint (word_of_nat n :: i32) = int n"
  by (rule sint_of_nat_small) simp

lemma column_rows_sorted:
  assumes "length cs \<le> 1000"
  shows "sort_key (\<lambda>r. sint (c_ordinal_position r)) (column_rows lib v4 su k 0 cs) = column_rows lib v4 su k 0 cs"
proof (rule sort_key_sorted)
  have "map (\<lambda>r. sint (c_ordinal_position r)) (column_rows lib v4 su k 0 cs) = map (\<lambda>i. int (i + 1)) [0 ..< length cs]"
    using assms by (intro nth_equalityI) (simp_all add: column_rows_def nth_enumerate_eq sint_ordinal del: of_nat_Suc)
  then show "sorted (map (\<lambda>r. sint (c_ordinal_position r)) (column_rows lib v4 su k 0 cs))"
    by (simp add: sorted_map sorted_wrt_mono_rel [OF _ sorted_wrt_upt])
qed

lemma mapM_column_rows:
  assumes "codec_ok lib cs"
  shows "\<exists>cols. mapM (column_struct_of_row lib) (column_rows lib v4 su k ord cs) = Inr cols
     \<and> map column_sig cols = map spec_sig cs"
proof -
  have "\<exists>cols. mapM (column_struct_of_row lib) (map (\<lambda>(i, c). \<lparr>c_column_uuid = v4 (k + i), c_schema_uuid = su,
        c_column_name = cs_name c, c_column_type = lib_schema_to_fb lib [Field ''_'' (cs_column_type c) True],
        c_ordinal_position = word_of_nat (ord + i + 1), c_is_nullable = cs_is_nullable c\<rparr>) (enumerate n cs)) = Inr cols
     \<and> map column_sig cols = map spec_sig cs" for n
    using assms
  proof (induction cs arbitrary: n)
    case (Cons c cs)
    then have c: "lib_root_as_schema lib (lib_schema_to_fb lib [Field ''_'' (cs_column_type c) True])
        = Inr [Field ''_'' (cs_column_type c) True]" and "codec_ok lib cs" by (simp_all add: codec_ok_def)
    with Cons.IH [of "Suc n"] show ?case
      by (auto simp: column_struct_of_row_def decode_data_type_def)
  qed simp
  then show ?thesis unfolding column_rows_def by blast
qed

lemma schema_columns_written:
  assumes "select_columns su d = column_rows lib v4 su k 0 cs" and "length cs \<le> 1000" and "codec_ok lib cs"
  shows "\<exists>cols. schema_columns lib msg su d = Inr cols \<and> map column_sig cols = map spec_sig cs"
proof -
  have "length (column_rows lib v4 su k 0 cs) = length cs" by (simp add: column_rows_def)
  then have "\<not> uint MAX_COLUMNS_PER_SCHEMA < int (length (column_rows lib v4 su k 0 cs))"
    using assms(2) by (simp only: unat_less_int [symmetric] unat_limits not_less)
  then have "schema_columns lib msg su d = mapM (column_struct_of_row lib) (column_rows lib v4 su k 0 cs)"
    by (simp only: schema_columns_code assms(1) column_rows_sorted [OF assms(2)] Let_def if_False)
  with mapM_column_rows [OF assms(3), of v4 su k 0] show ?thesis by simp
qed

lemma select_columns_fresh:
  assumes "refs_ok d" and "u \<notin> schema_ids d"
  shows "filter (\<lambda>r. c_schema_uuid r = u) (db_columns d) = []"
  using assms by (auto simp: refs_ok_def list_all_iff filter_empty_conv)

lemma select_columns_new:
  assumes "refs_ok d" and "u \<notin> schema_ids d" and "db_columns D = db_columns d @ column_rows lib v4 u k ord cs"
  shows "select_columns u D = column_rows lib v4 u k ord cs"
  using select_columns_fresh [OF assms(1,2)] assms(3)
  by (auto simp: select_columns_def filter_id_conv dest: column_rows_schema)

lemma find_last: "find P xs = None \<Longrightarrow> P x \<Longrightarrow> find P (xs @ [x]) = Some x"
  by (induction xs) (auto split: if_splits)

lemma stored_properties:
  assumes "serialize_json lib (properties_to_json p) = Inr t" and "json_codec lib"
  shows "parse_table_properties lib (Some t) = Inr p"
proof -
  have "json_from_str lib t = Inr (properties_to_json p)"
    using serialize_json_size [OF assms(1)] assms(2) by (simp add: json_codec_def)
  from parse_serialize_json [OF assms(1) this] show ?thesis
    by (simp add: parse_table_properties_def properties_to_json_def properties_from_json_def)
qed

lemma created_schema_read:
  assumes wf: "wf_db d" and body: "create_table_body cat dr ident location schema properties d = Inr (h, d')"
    and codec: "codec_ok (cat_libs cat) (ss_columns schema)" and len: "length (ss_columns schema) \<le> 1000"
  shows "\<exists>cols. read_schema (cat_libs cat) ident (dr_v4 dr 0) (dr_txn dr) d'
      = Inr (schema_struct_of_row (created_schema dr) cols)
    \<and> map column_sig cols = map spec_sig (ss_columns schema)"
proof -
  from body obtain p :: string where fresh: "dr_v4 dr 0 \<notin> table_ids d" "dr_v4 dr 1 \<notin> schema_ids d"
    and schemas: "db_schemas d' = db_schemas d @ [created_schema dr]"
    and columns: "db_columns d' = db_columns d @ created_columns cat dr schema"
    by (rule create_summary) simp
  have refs: "refs_ok d" using wf by (simp add: wf_db_def)
  have "\<forall>s \<in> set (db_schemas d). s_table_uuid s \<noteq> dr_v4 dr 0"
    using fresh_table_rows(2) [OF refs fresh(1)] by (simp add: table_schemas_def filter_empty_conv)
  then have "find (schema_valid_at (dr_v4 dr 0) (dr_txn dr)) (db_schemas d') = Some (created_schema dr)"
    unfolding schemas by (intro find_last) (auto simp: find_None_iff schema_valid_at_def)
  moreover obtain cols where "schema_columns (cat_libs cat) (ColumnCount MAX_COLUMNS_PER_SCHEMA) (dr_v4 dr 1) d' = Inr cols"
      "map column_sig cols = map spec_sig (ss_columns schema)"
    using schema_columns_written [OF select_columns_new [OF refs fresh(2) columns] len codec] by blast
  ultimately show ?thesis by (auto simp: read_schema_def)
qed

lemma created_head_read:
  assumes body: "create_table_body cat dr ident location schema properties d = Inr (h, d')"
    and codec: "json_codec (lib_json (cat_libs cat))"
  obtains r where "r \<in> set (db_tables d')" "t_table_uuid r = dr_v4 dr 0"
    "t_current_transaction_id r = Some (dr_txn dr)"
    "select_table (ti_namespace ident) (ti_name ident) d' = Some r"
    "read_head cat ident d' = Inr (r, case properties of Some p \<Rightarrow> p | None \<Rightarrow> properties_new, dr_txn dr)"
proof -
  let ?p = "case properties of Some p \<Rightarrow> p | None \<Rightarrow> properties_new"
  from body obtain p where sel: "select_table (ti_namespace ident) (ti_name ident) d = None"
    and ser: "serialize_json (lib_json (cat_libs cat)) (properties_to_json ?p) = Inr p"
    and tabs: "db_tables d' = db_tables d @ [created_row cat dr ident location p]"
    by (rule create_summary) simp
  let ?r = "created_row cat dr ident location p"
  have sel': "select_table (ti_namespace ident) (ti_name ident) d' = Some ?r"
    using sel unfolding select_table_def tabs by (intro find_last) (auto simp: find_None_iff)
  have "parse_table_properties (lib_json (cat_libs cat)) (Some p) = Inr ?p"
    using ser codec by (rule stored_properties)
  then have "read_head cat ident d' = Inr (?r, ?p, dr_txn dr)"
    using sel' by (simp add: read_head_Inr)
  with sel' show thesis by (intro that [of ?r]) (simp_all add: tabs)
qed

text \<open>C13. A created table can be read at once and is what was asked for: no files, schema version
  1, the given columns with their names, types and nullability in the given order, and the
  given properties (none by default).\<close>

theorem create_then_read:
  assumes "reachable lib d" and "cat_libs cat = lib" and "json_codec (lib_json lib)"
    and "create_table cat dr ident location schema properties d = (Inr h, d')"
    and "codec_ok lib (ss_columns schema)" and "length (ss_columns schema) \<le> 1000"
  shows "\<exists>v. read_table cat ident (Some (dr_txn dr)) d' = Inr v
    \<and> current_transaction_id cat ident d' = Inr (dr_txn dr)
    \<and> tv_files v = [] \<and> sc_schema_version (tv_schema v) = 1
    \<and> map column_sig (sc_columns (tv_schema v)) = map spec_sig (ss_columns schema)
    \<and> tv_properties v = (case properties of Some p \<Rightarrow> p | None \<Rightarrow> properties_new)"
proof -
  have wf: "wf_db d" using assms(1) by (rule reachable_wf)
  have body: "create_table_body cat dr ident location schema properties d = Inr (h, d')"
    using assms(4) by (simp add: create_table_def run_tx_Inr)
  obtain r where r: "r \<in> set (db_tables d')" "t_table_uuid r = dr_v4 dr 0"
      "t_current_transaction_id r = Some (dr_txn dr)"
      "select_table (ti_namespace ident) (ti_name ident) d' = Some r"
      "read_head cat ident d' = Inr (r, case properties of Some p \<Rightarrow> p | None \<Rightarrow> properties_new, dr_txn dr)"
    using created_head_read [OF body] assms(2,3) by blast
  have "txn_line (dr_v4 dr 0) d' = [dr_txn dr]" by (simp add: txn_line_def created_rows [OF wf body])
  then have hist: "check_in_history (dr_v4 dr 0) (dr_txn dr) (dr_txn dr) d' = Inr ()"
    using check_in_history_line [OF create_wf [OF wf body] r(1,3)] r(2) by simp
  have "table_files (dr_v4 dr 0) d' = []"
    using fresh_table_rows(3) create_summary [OF body] wf by (auto simp: created_rows [OF wf body] wf_db_def)
  then have files: "read_files lib (dr_v4 dr 0) (dr_txn dr) d' = Inr []"
    by (simp add: read_files_Inr table_files_def filter_empty_conv file_visible_at_def)
  have "current_transaction_id cat ident d' = Inr (dr_txn dr)"
    by (simp add: current_transaction_id_def r)
  with created_schema_read [OF wf body] hist files r(2,5) assms(2,5,6) show ?thesis
    by (auto simp: read_table_Inr schema_struct_of_row_def)
qed

lemma demo_json: "json_codec (lib_json demo_libs)"
  by (simp add: tiny_json_codec)

lemma demo_codec: "codec_ok demo_libs (ss_columns demo_schema1)" "codec_ok demo_libs (ss_columns demo_schema2)"
  by code_simp+

lemma demo_create:
  "\<exists>h. create_table demo_cat (demo_draws 10) demo_ident ''loc'' demo_schema1 None empty_db = (Inr h, demo_db1)"
proof -
  have "\<not> isl (fst (create_table demo_cat (demo_draws 10) demo_ident ''loc'' demo_schema1 None empty_db))" by code_simp
  then show ?thesis unfolding demo_db1_def by (metis isl_def prod.collapse sum.exhaust)
qed

lemma reachable_empty: "reachable lib empty_db"
  by (simp add: reachable_def)

theorem create_then_read_witness:
  "\<exists>v. read_table demo_cat demo_ident (Some 10) demo_db1 = Inr v
    \<and> current_transaction_id demo_cat demo_ident demo_db1 = Inr 10
    \<and> tv_files v = [] \<and> sc_schema_version (tv_schema v) = 1
    \<and> map column_sig (sc_columns (tv_schema v)) = map spec_sig (ss_columns demo_schema1)
    \<and> tv_properties v = properties_new"
proof -
  obtain h where "create_table demo_cat (demo_draws 10) demo_ident ''loc'' demo_schema1 None empty_db = (Inr h, demo_db1)"
    using demo_create by blast
  from create_then_read [OF reachable_empty demo_libs_cat demo_json this demo_codec(1)] show ?thesis
    by (simp add: demo_draws_def demo_schema1_def with_column_def schema_spec_new_def)
qed

end
