(* ===== verification/Evolution.thy ===== *)
theory Evolution
  imports SchemaHistory
begin

text \<open>
  Schema evolution over a whole history. Within one commit \<open>UpdateSchema\<close> checks the new columns
  against the current ones; here the checks are chained into a statement about any two
  snapshots of a table: every column of the earlier one is still there in the later one, with
  a type its values fit and at least as nullable. The hypothesis on the Arrow codec is that
  decoding an encoded schema, if it succeeds, gives that schema.
\<close>

section \<open>Widening of column lists\<close>

type_synonym signature = "string \<times> data_type \<times> bool"

definition evolves :: "signature list \<Rightarrow> signature list \<Rightarrow> bool" where
  "evolves cs cs' \<longleftrightarrow>
     list_all (\<lambda>(n, a, na). list_ex (\<lambda>(n', b, nb). n' = n \<and> can_evolve_to a b \<and> (na \<longrightarrow> nb)) cs') cs"

definition codec_sound :: "libs \<Rightarrow> bool" where
  "codec_sound lib \<longleftrightarrow>
     (\<forall>fs gs. lib_root_as_schema lib (lib_schema_to_fb lib fs) = Inr gs \<longrightarrow> gs = fs)"

lemma evolves_refl [simp]: "evolves cs cs"
  by (auto simp: evolves_def list_all_iff list_ex_iff)

lemma evolves_iff:
  "evolves cs cs' \<longleftrightarrow> (\<forall>n a na. (n, a, na) \<in> set cs \<longrightarrow>
     (\<exists>b nb. (n, b, nb) \<in> set cs' \<and> can_evolve_to a b \<and> (na \<longrightarrow> nb)))"
  by (auto simp: evolves_def list_all_iff list_ex_iff split: prod.splits) fastforce+

lemma evolves_trans: "evolves as bs \<Longrightarrow> evolves bs cs \<Longrightarrow> evolves as cs"
  unfolding evolves_iff by (meson can_evolve_to_trans)

lemma evolves_cong: "set as = set as' \<Longrightarrow> set bs = set bs' \<Longrightarrow> evolves as bs = evolves as' bs'"
  by (simp add: evolves_def list_all_iff list_ex_iff)

lemma checked_evolves:
  assumes "set (map fst cols) \<subseteq> set (map cs_name cs)" and "check_evolution cols cs = Inr ()"
    and "distinct (map fst cols)"
  shows "evolves cols (map spec_sig cs)"
proof -
  have "\<exists>c \<in> set cs. cs_name c = n \<and> can_evolve_to a (cs_column_type c) \<and> (na \<longrightarrow> cs_is_nullable c)"
    if "(n, a, na) \<in> set cols" for n a na
  proof -
    from that assms(1) obtain c where c: "c \<in> set cs" "cs_name c = n" by force
    have "map_of cols n = Some (a, na)" using that assms(3) by simp
    with c assms(2) show ?thesis by (auto simp: check_evolution_ok)
  qed
  then show ?thesis by (force simp: evolves_def list_all_iff list_ex_iff)
qed

section \<open>What the rows of a schema decode to\<close>

lemma decode_written:
  assumes "codec_sound lib"
    and "decode_data_type (lib_root_as_schema lib) (lib_schema_to_fb lib [Field ''_'' t True]) = Inr t'"
  shows "t' = t"
proof (cases "lib_root_as_schema lib (lib_schema_to_fb lib [Field ''_'' t True])")
  case (Inr gs)
  with assms(1) have "gs = [Field ''_'' t True]" by (simp add: codec_sound_def)
  with Inr assms(2) show ?thesis by (simp add: decode_data_type_def)
qed (use assms(2) in \<open>simp add: decode_data_type_def\<close>)

lemma current_columns_written:
  assumes "codec_sound lib" and "select_columns u d = column_rows lib v4 u k 0 cs"
    and "current_schema_columns lib u d = Inr cols"
  shows "cols = map spec_sig cs"
proof -
  have "cols = map spec_sig cs"
    if "mapM (\<lambda>row. rbind (decode_data_type (lib_root_as_schema lib) (c_column_type row))
                   (\<lambda>column_type. Inr (c_column_name row, column_type, c_is_nullable row)))
       (map (\<lambda>(i, c). \<lparr>c_column_uuid = v4 (k + i), c_schema_uuid = u,
        c_column_name = cs_name c, c_column_type = lib_schema_to_fb lib [Field ''_'' (cs_column_type c) True],
        c_ordinal_position = word_of_nat (0 + i + 1), c_is_nullable = cs_is_nullable c\<rparr>) (enumerate n cs)) = Inr cols" for n
    using that
    by (induction cs arbitrary: cols n) (auto simp: result_simps dest: decode_written [OF assms(1)])
  from this [of 0] show ?thesis using assms(2,3) unfolding current_schema_columns_def column_rows_def by simp
qed

lemma mapM_projr: "mapM f xs = Inr ys \<Longrightarrow> ys = map (\<lambda>x. projr (f x)) xs \<and> (\<forall>x \<in> set xs. f x = Inr (projr (f x)))"
  by (induction xs arbitrary: ys) (auto simp: result_simps)

lemma read_columns_current:
  assumes "schema_columns lib msg u d = Inr cols"
  shows "\<exists>cs. current_schema_columns lib u d = Inr cs \<and> set (map column_sig cols) = set cs"
proof -
  let ?f = "column_struct_of_row lib" and ?rows = "select_columns u d"
  let ?dec = "\<lambda>row. rbind (decode_data_type (lib_root_as_schema lib) (c_column_type row))
                   (\<lambda>column_type. Inr (c_column_name row, column_type, c_is_nullable row))"
  from assms have "mapM ?f (sort_key (\<lambda>r. sint (c_ordinal_position r)) ?rows) = Inr cols"
    by (auto simp: schema_columns_code Let_def split: if_splits)
  from mapM_projr [OF this] have cols: "set (map column_sig cols) = set (map (\<lambda>x. column_sig (projr (?f x))) ?rows)"
    and ok: "\<And>x. x \<in> set ?rows \<Longrightarrow> ?f x = Inr (projr (?f x))" by auto
  have "?dec x = Inr (column_sig (projr (?f x)))" if "x \<in> set ?rows" for x
    using ok [OF that] by (auto simp: column_struct_of_row_def result_simps)
  then have "current_schema_columns lib u d = Inr (map (\<lambda>x. column_sig (projr (?f x))) ?rows)"
    unfolding current_schema_columns_def by (rule mapM_total)
  then show ?thesis using cols by blast
qed

section \<open>The schemas of a table, in order of their versions\<close>

definition schema_line :: "uuid \<Rightarrow> db \<Rightarrow> uuid list" where
  "schema_line tu d = map s_schema_uuid (table_schemas tu d)"

definition schema_written :: "libs \<Rightarrow> db \<Rightarrow> uuid \<Rightarrow> bool" where
  "schema_written lib d u \<longleftrightarrow>
     (\<exists>cs v4 k. distinct (map cs_name cs) \<and> select_columns u d = column_rows lib v4 u k 0 cs)"

definition schema_widened :: "libs \<Rightarrow> db \<Rightarrow> uuid \<Rightarrow> uuid \<Rightarrow> bool" where
  "schema_widened lib d u u' \<longleftrightarrow>
     (\<exists>cs. current_schema_columns lib u d = Inr cs
        \<and> (\<forall>cs'. current_schema_columns lib u' d = Inr cs' \<longrightarrow> evolves cs cs'))"

definition evolution_ok :: "libs \<Rightarrow> db \<Rightarrow> bool" where
  "evolution_ok lib d \<longleftrightarrow>
     (\<forall>tu. list_all (schema_written lib d) (schema_line tu d) \<and> successively (schema_widened lib d) (schema_line tu d))"

lemma schema_line_ids: "set (schema_line tu d) \<subseteq> schema_ids d"
  by (auto simp: schema_line_def table_schemas_def)

lemma schema_written_cong: "select_columns u d' = select_columns u d \<Longrightarrow> schema_written lib d' u = schema_written lib d u"
  by (simp add: schema_written_def)

lemma schema_widened_cong:
  "select_columns u d' = select_columns u d \<Longrightarrow> select_columns v d' = select_columns v d \<Longrightarrow>
     schema_widened lib d' u v = schema_widened lib d u v"
  by (simp add: schema_widened_def current_schema_columns_def)

lemma line_kept:
  assumes "\<And>u. u \<in> set us \<Longrightarrow> select_columns u d' = select_columns u d"
  shows "list_all (schema_written lib d') us = list_all (schema_written lib d) us"
    and "successively (schema_widened lib d') us = successively (schema_widened lib d) us"
proof -
  show "list_all (schema_written lib d') us = list_all (schema_written lib d) us"
    unfolding list_all_iff using schema_written_cong [OF assms] by blast
  show "successively (schema_widened lib d') us = successively (schema_widened lib d) us"
    by (rule successively_cong [OF schema_widened_cong refl]) (rule assms, assumption)+
qed

lemma select_columns_append_fresh:
  assumes "db_columns d' = db_columns d @ column_rows lib v4 u k ord cs" and "v \<noteq> u"
  shows "select_columns v d' = select_columns v d"
  using assms by (auto simp: select_columns_def filter_empty_conv dest: column_rows_schema)

text \<open>Appending a fresh schema with its columns keeps the order of widening, provided the new
  schema widens the last one.\<close>

lemma evolution_append:
  assumes ok: "evolution_ok lib d" and refs: "refs_ok d" and fresh: "u \<notin> schema_ids d"
    and cols: "db_columns d' = db_columns d @ column_rows lib v4 u k 0 cs" and dist: "distinct (map cs_name cs)"
    and line: "\<And>q. schema_line q d' = schema_line q d @ (if q = tu then [u] else [])"
    and wide: "schema_line tu d \<noteq> [] \<Longrightarrow> schema_widened lib d' (last (schema_line tu d)) u"
  shows "evolution_ok lib d'"
proof -
  have same: "select_columns v d' = select_columns v d" if "v \<in> set (schema_line q d)" for q v
  proof (rule select_columns_append_fresh [OF cols])
    show "v \<noteq> u" using that schema_line_ids [of q d] fresh by auto
  qed
  have new: "schema_written lib d' u"
    using select_columns_new [OF refs fresh cols] dist by (auto simp: schema_written_def)
  note kept = line_kept [of "schema_line _ d", OF same]
  show ?thesis
    using ok new wide unfolding evolution_ok_def line
    by (auto simp: kept successively_append_iff)
qed

lemma evolution_same:
  assumes "evolution_ok lib d" and "db_columns d' = db_columns d" and "\<And>q. schema_line q d' = schema_line q d"
  shows "evolution_ok lib d'"
proof -
  have "select_columns u d' = select_columns u d" for u using assms(2) by (simp add: select_columns_def)
  from line_kept [OF this] show ?thesis using assms(1,3) by (simp add: evolution_ok_def)
qed

section \<open>Every step keeps the order\<close>

lemma schema_line_close:
  "map s_schema_uuid (filter (\<lambda>s. s_table_uuid s = q) (map (close_schema c x) ss))
   = map s_schema_uuid (filter (\<lambda>s. s_table_uuid s = q) ss)"
  by (induction ss) auto

lemma create_evolution:
  assumes wf: "wf_db d" and ok: "evolution_ok (cat_libs cat) d"
    and body: "create_table_body cat dr ident location schema properties d = Inr (h, d')"
  shows "evolution_ok (cat_libs cat) d'"
proof -
  from body obtain pt :: string where sp: "schema_spec_ok schema" and fresh: "dr_v4 dr 0 \<notin> table_ids d" "dr_v4 dr 1 \<notin> schema_ids d"
    and rest: "db_schemas d' = db_schemas d @ [created_schema dr]"
       "db_columns d' = db_columns d @ created_columns cat dr schema"
    by (rule create_summary) simp
  have refs: "refs_ok d" using wf by (simp add: wf_db_def)
  show ?thesis
  proof (rule evolution_append [OF ok refs fresh(2) rest(2)])
    show "distinct (map cs_name (ss_columns schema))" using sp by (simp add: schema_spec_ok_def)
    show "schema_line q d' = schema_line q d @ (if q = dr_v4 dr 0 then [dr_v4 dr 1] else [])" for q
      by (simp add: schema_line_def table_schemas_def rest(1))
    have "\<forall>s \<in> set (db_schemas d). s_table_uuid s \<noteq> dr_v4 dr 0"
      using refs fresh(1) unfolding refs_ok_def list_all_iff by metis
    then show "schema_line (dr_v4 dr 0) d \<noteq> [] \<Longrightarrow> schema_widened (cat_libs cat) d' (last (schema_line (dr_v4 dr 0) d)) (dr_v4 dr 1)"
      by (simp add: schema_line_def table_schemas_def filter_False)
  qed
qed

lemma extends_widened:
  assumes sound: "codec_sound lib" and written: "schema_written lib d cur"
    and ext: "spec_extends lib d cur cs"
    and same: "select_columns cur d' = select_columns cur d"
    and new: "select_columns u d' = column_rows lib v4 u k 0 cs"
  shows "schema_widened lib d' cur u"
proof -
  from ext obtain cols where cols: "current_schema_columns lib cur d = Inr cols"
      "set (map fst cols) \<subseteq> set (map cs_name cs)" "check_evolution cols cs = Inr ()"
    unfolding spec_extends_def by blast
  from written obtain cs0 v4' k' where w: "distinct (map cs_name cs0)" "select_columns cur d = column_rows lib v4' cur k' 0 cs0"
    unfolding schema_written_def by blast
  have "map fst cols = map cs_name cs0"
    using current_columns_written [OF sound w(2) cols(1)] by simp
  then have "evolves cols (map spec_sig cs)" using checked_evolves [OF cols(2,3)] w(1) by simp
  moreover have "current_schema_columns lib cur d' = Inr cols" using cols(1) same by (simp add: current_schema_columns_def)
  ultimately show ?thesis
    using current_columns_written [OF sound new] unfolding schema_widened_def by blast
qed

lemma commit_evolution:
  assumes sound: "codec_sound (cat_libs cat)" and wf: "wf_db d" and ok: "evolution_ok (cat_libs cat) d"
    and body: "commit_body cat dr ident base m d = Inr (res, d')"
  shows "evolution_ok (cat_libs cat) d'"
proof -
  let ?lib = "cat_libs cat"
  from commit_summary [OF wf body] obtain r D su pt where
    sel: "select_table (ti_namespace ident) (ti_name ident) d = Some r"
    and d': "d' = update_table_commit (dr_txn dr) su pt (t_table_uuid r) D"
    and eff: "schema_effect ?lib dr m r d D su" by metis
  have r: "r \<in> set (db_tables d)" using select_table_Some [OF sel] by simp
  have refs: "refs_ok d" using wf by (simp add: wf_db_def)
  have D: "db_columns d' = db_columns D" "schema_line q d' = schema_line q D" for q
    by (simp_all add: d' update_table_commit_def schema_line_def table_schemas_def)
  from eff show ?thesis unfolding schema_effect_def
  proof (elim disjE exE conjE)
    assume "db_schemas D = db_schemas d" "db_columns D = db_columns d"
    then show ?thesis using evolution_same [OF ok] D by (simp add: schema_line_def table_schemas_def)
  next
    fix cur ver u k spec
    assume cur: "t_current_schema_uuid r = Some cur" and u: "u \<notin> schema_ids d" and sp: "schema_spec_ok spec"
      and S: "db_schemas D = map (close_schema cur (dr_txn dr)) (db_schemas d)
        @ [\<lparr>s_schema_uuid = u, s_table_uuid = t_table_uuid r, s_schema_version = ver + 1,
            s_valid_from = dr_txn dr, s_valid_to = None, s_created_at = dr_now dr\<rparr>]"
      and C: "db_columns D = db_columns d @ column_rows ?lib (dr_v4 dr) u k 0 (ss_columns spec)"
      and ext: "spec_extends ?lib d cur (ss_columns spec)"
    note C' = C [folded D(1)]
    have line: "schema_line (t_table_uuid r) d \<noteq> []" "last (schema_line (t_table_uuid r) d) = cur"
      using wf_dest(2) [OF wf r] cur by (auto simp: schemas_ok_def schema_line_def last_map)
    then have in_line: "cur \<in> set (schema_line (t_table_uuid r) d)" using last_in_set by metis
    then have ne: "cur \<noteq> u" using schema_line_ids [of "t_table_uuid r" d] u by auto
    have "schema_written ?lib d cur" using ok in_line by (auto simp: evolution_ok_def list_all_iff)
    then have "schema_widened ?lib d' cur u"
      using extends_widened [OF sound _ ext select_columns_append_fresh [OF C' ne] select_columns_new [OF refs u C']] by blast
    moreover have "schema_line q d' = schema_line q d @ (if q = t_table_uuid r then [u] else [])" for q
      unfolding D(2) unfolding schema_line_def table_schemas_def S filter_append map_append schema_line_close by simp
    moreover have "distinct (map cs_name (ss_columns spec))" using sp by (simp add: schema_spec_ok_def)
    ultimately show ?thesis using evolution_append [OF ok refs u C'] line(2) by blast
  qed
qed

lemma reachable_evolution:
  assumes "codec_sound lib" and "reachable lib d"
  shows "evolution_ok lib d"
proof -
  have "steps lib empty_db d \<Longrightarrow> evolution_ok lib d"
  proof (induction rule: rtranclp_induct)
    case base
    show ?case by (simp add: evolution_ok_def schema_line_def table_schemas_def empty_db_def)
  next
    case (step b c)
    have wf: "wf_db b" using step(1) by (intro reachable_wf [of lib]) (simp add: reachable_def)
    from step(2) wf show ?case
    proof (cases rule: step_cases_wf)
      case same
      then show ?thesis using step.IH by simp
    next
      case create
      then show ?thesis using create_evolution [OF wf] step.IH by blast
    next
      case commit
      then show ?thesis using commit_evolution [OF _ wf] step.IH assms(1) by blast
    qed
  qed
  then show ?thesis using assms(2) by (simp add: reachable_def)
qed

section \<open>Any two snapshots\<close>

lemma successively_nth: "successively P xs \<Longrightarrow> Suc i < length xs \<Longrightarrow> P (xs ! i) (xs ! Suc i)"
  by (auto simp: successively_conv_nth)

lemma line_evolves:
  assumes ok: "evolution_ok lib d" and "i \<le> j" and "j < length (schema_line tu d)"
    and "current_schema_columns lib (schema_line tu d ! i) d = Inr a"
    and "current_schema_columns lib (schema_line tu d ! j) d = Inr b"
  shows "evolves a b"
  using assms(2,3,5)
proof (induction j arbitrary: b rule: dec_induct)
  case base
  then show ?case using assms(4) by simp
next
  case (step n)
  have "schema_widened lib d (schema_line tu d ! n) (schema_line tu d ! Suc n)"
    using ok step.prems(1) by (intro successively_nth [of "schema_widened lib d"]) (simp_all add: evolution_ok_def)
  then obtain c where "current_schema_columns lib (schema_line tu d ! n) d = Inr c" "evolves c b"
    using step.prems by (auto simp: schema_widened_def)
  then show ?case using step.IH step.prems by (auto intro: evolves_trans)
qed

text \<open>The schema valid at a later transaction is not an earlier one in the list: a superseded
  schema ends where its successor starts.\<close>

lemma valid_order:
  assumes ok: "schemas_ok r xs ss" and "i < length ss" "j < length ss" and "t \<le> t'"
    and i: "schema_valid_at tu t (ss ! i)" and j: "schema_valid_at tu t' (ss ! j)"
  shows "i \<le> j"
proof (rule ccontr)
  assume "\<not> i \<le> j"
  then have ji: "Suc j \<le> i" by simp
  then have len: "Suc j < length ss" using assms(2) by simp
  have "map s_valid_to ss ! j = (map (\<lambda>s. Some (s_valid_from s)) (tl ss) @ [None]) ! j"
    using ok by (simp add: schemas_ok_def)
  then have "s_valid_to (ss ! j) = Some (s_valid_from (ss ! Suc j))"
    using len by (simp add: nth_append nth_tl less_diff_conv)
  then have "t' < s_valid_from (ss ! Suc j)" using j by (simp add: schema_valid_at_def)
  also have "\<dots> \<le> s_valid_from (ss ! i)"
  proof (cases "Suc j = i")
    case False
    then have "map s_valid_from ss ! Suc j < map s_valid_from ss ! i"
      using ok ji assms(2) sorted_wrt_nth_less [of "(<)" "map s_valid_from ss" "Suc j" i] by (simp add: schemas_ok_def)
    then show ?thesis using len assms(2) by simp
  qed simp
  also have "\<dots> \<le> t" using i by (simp add: schema_valid_at_def)
  finally show False using \<open>t \<le> t'\<close> by simp
qed

lemma read_schema_current:
  assumes "read_schema lib ident tu t d = Inr s"
  obtains i cs where "i < length (table_schemas tu d)" "schema_valid_at tu t (table_schemas tu d ! i)"
    "current_schema_columns lib (schema_line tu d ! i) d = Inr cs" "set (map column_sig (sc_columns s)) = set cs"
proof -
  from assms obtain q cols where q: "find (schema_valid_at tu t) (db_schemas d) = Some q"
    and cols: "schema_columns lib (ColumnCount MAX_COLUMNS_PER_SCHEMA) (s_schema_uuid q) d = Inr cols"
    and s: "s = schema_struct_of_row q cols"
    by (auto simp: read_schema_def result_simps split: option.splits)
  from q have v: "schema_valid_at tu t q" and "q \<in> set (db_schemas d)" by (auto simp: find_Some_iff)
  then have "q \<in> set (table_schemas tu d)" by (simp add: table_schemas_def schema_valid_at_def)
  then obtain i where i: "i < length (table_schemas tu d)" "table_schemas tu d ! i = q" by (auto simp: in_set_conv_nth)
  from read_columns_current [OF cols] obtain cs where
    "current_schema_columns lib (s_schema_uuid q) d = Inr cs" "set (map column_sig cols) = set cs" by blast
  with i v show thesis using that [of i cs] by (simp add: schema_line_def s schema_struct_of_row_def)
qed

text \<open>C12. Schemas only widen over the history of a table: if a reachable table is read at two
  transactions, every column of the earlier snapshot is a column of the later one under the
  same name, its type can evolve to the later type, and it is not less nullable.\<close>

theorem schema_only_widens:
  assumes "reachable lib d" and "codec_sound lib" and "cat_libs cat = lib" and "t \<le> t'"
    and "read_table cat ident (Some t) d = Inr v" and "read_table cat ident (Some t') d = Inr v'"
  shows "evolves (map column_sig (sc_columns (tv_schema v))) (map column_sig (sc_columns (tv_schema v')))"
proof -
  from assms(5) obtain r p h where r: "read_head cat ident d = Inr (r, p, h)"
    and s: "read_schema lib ident (t_table_uuid r) t d = Inr (tv_schema v)" by (auto simp: read_table_Inr assms(3))
  from assms(6) r have s': "read_schema lib ident (t_table_uuid r) t' d = Inr (tv_schema v')"
    by (auto simp: read_table_Inr assms(3))
  let ?tu = "t_table_uuid r"
  have wf: "wf_db d" using assms(1) by (rule reachable_wf)
  have "r \<in> set (db_tables d)" using r by (auto simp: read_head_Inr dest: select_table_Some)
  note sch = wf_dest(2) [OF wf this]
  from s obtain i a where i: "i < length (table_schemas ?tu d)" "schema_valid_at ?tu t (table_schemas ?tu d ! i)"
    and a: "current_schema_columns lib (schema_line ?tu d ! i) d = Inr a"
      "set (map column_sig (sc_columns (tv_schema v))) = set a" by (rule read_schema_current)
  from s' obtain j b where j: "j < length (table_schemas ?tu d)" "schema_valid_at ?tu t' (table_schemas ?tu d ! j)"
    and b: "current_schema_columns lib (schema_line ?tu d ! j) d = Inr b"
      "set (map column_sig (sc_columns (tv_schema v'))) = set b" by (rule read_schema_current)
  have "i \<le> j" using valid_order [OF sch i(1) j(1) assms(4) i(2) j(2)] .
  then have "evolves a b"
    using line_evolves [OF reachable_evolution [OF assms(2,1)]] j(1) a(1) b(1) by (simp add: schema_line_def)
  then show ?thesis using evolves_cong [OF a(2) b(2)] by simp
qed

lemma demo_codec_sound: "codec_sound demo_libs"
  by (auto simp: codec_sound_def demo_libs_def split: if_splits)

definition demo_columns :: "catalog_error + table_view \<Rightarrow> signature list" where
  "demo_columns res = (case res of Inr v \<Rightarrow> map column_sig (sc_columns (tv_schema v)) | Inl _ \<Rightarrow> [])"

lemma demo_read_columns:
  "\<exists>v. read_table demo_cat demo_ident (Some 10) demo_db3 = Inr v
     \<and> map column_sig (sc_columns (tv_schema v)) = [(''id'', Int32, False)]"
  "\<exists>v. read_table demo_cat demo_ident (Some 30) demo_db3 = Inr v
     \<and> map column_sig (sc_columns (tv_schema v)) = [(''id'', Int64, False)]"
proof -
  have "\<not> isl (read_table demo_cat demo_ident (Some 10) demo_db3)
      \<and> demo_columns (read_table demo_cat demo_ident (Some 10) demo_db3) = [(''id'', Int32, False)]"
    unfolding demo_db3_eq demo_db1_eq by code_simp
  then show "\<exists>v. read_table demo_cat demo_ident (Some 10) demo_db3 = Inr v
     \<and> map column_sig (sc_columns (tv_schema v)) = [(''id'', Int32, False)]"
    by (auto simp: demo_columns_def isl_def split: sum.splits)
  have "\<not> isl (read_table demo_cat demo_ident (Some 30) demo_db3)
      \<and> demo_columns (read_table demo_cat demo_ident (Some 30) demo_db3) = [(''id'', Int64, False)]"
    unfolding demo_db3_eq demo_db1_eq by code_simp
  then show "\<exists>v. read_table demo_cat demo_ident (Some 30) demo_db3 = Inr v
     \<and> map column_sig (sc_columns (tv_schema v)) = [(''id'', Int64, False)]"
    by (auto simp: demo_columns_def isl_def split: sum.splits)
qed

theorem schema_only_widens_witness:
  "\<exists>v v'. read_table demo_cat demo_ident (Some 10) demo_db3 = Inr v
     \<and> read_table demo_cat demo_ident (Some 30) demo_db3 = Inr v'
     \<and> evolves (map column_sig (sc_columns (tv_schema v))) (map column_sig (sc_columns (tv_schema v')))
     \<and> map column_sig (sc_columns (tv_schema v')) = [(''id'', Int64, False)]"
proof -
  from demo_read_columns obtain v v' where v: "read_table demo_cat demo_ident (Some 10) demo_db3 = Inr v"
      "read_table demo_cat demo_ident (Some 30) demo_db3 = Inr v'"
      "map column_sig (sc_columns (tv_schema v')) = [(''id'', Int64, False)]" by (elim exE conjE) simp
  from schema_only_widens [OF demo_reachable(3) demo_codec_sound demo_libs_cat _ v(1,2)] v show ?thesis by auto
qed

end
