(* ===== verification/Client.thy ===== *)
theory Client
  imports Guarantees
begin

text \<open>
  The client side of the catalog, from \<open>catalog/models.rs\<close>: \<open>TableHandle\<close> and
  \<open>MutationBuilder\<close>, and what the optimistic protocol of the \<open>Catalog\<close> trait gives to several
  clients that commit to the same tables. The contract of the trait is a locale; the chain
  lemma is proved there once and interpreted on the builder's \<open>commit\<close>.
\<close>

section \<open>Mutation builders\<close>

record mutation_builder =
  mb_catalog :: sql_catalog
  mb_ident :: table_ident
  mb_base_transaction_id :: txn_id
  mb_mutation :: mutation

definition mutation_builder_new :: "sql_catalog \<Rightarrow> table_ident \<Rightarrow> txn_id \<Rightarrow> mutation_builder" where
  "mutation_builder_new catalog ident base_transaction_id =
     \<lparr>mb_catalog = catalog, mb_ident = ident, mb_base_transaction_id = base_transaction_id,
      mb_mutation = \<lparr>mu_operations = []\<rparr>\<rparr>"

definition push_op :: "mutation_op \<Rightarrow> mutation_builder \<Rightarrow> mutation_builder" where
  "push_op op b = b\<lparr>mb_mutation := (mb_mutation b)\<lparr>mu_operations := mu_operations (mb_mutation b) @ [op]\<rparr>\<rparr>"

definition builder_append_files :: "file_spec list \<Rightarrow> mutation_builder \<Rightarrow> mutation_builder" where
  "builder_append_files files b = push_op (AppendFiles files) b"

definition builder_append_file :: "file_spec \<Rightarrow> mutation_builder \<Rightarrow> mutation_builder" where
  "builder_append_file f b = push_op (AppendFiles [f]) b"

definition builder_delete_files :: "uuid list \<Rightarrow> mutation_builder \<Rightarrow> mutation_builder" where
  "builder_delete_files file_uuids b = push_op (DeleteFiles file_uuids) b"

definition builder_update_schema :: "schema_spec \<Rightarrow> mutation_builder \<Rightarrow> mutation_builder" where
  "builder_update_schema schema b = push_op (UpdateSchema schema) b"

definition builder_set_properties :: "table_properties \<Rightarrow> mutation_builder \<Rightarrow> mutation_builder" where
  "builder_set_properties properties b = push_op (SetProperties properties) b"

definition builder_remove_properties :: "property_key list \<Rightarrow> mutation_builder \<Rightarrow> mutation_builder" where
  "builder_remove_properties keys b = push_op (RemoveProperties keys) b"

definition builder_commit ::
  "draws \<Rightarrow> mutation_builder \<Rightarrow> db \<Rightarrow> (catalog_error + commit_result) \<times> db" where
  "builder_commit dr b d = commit (mb_catalog b) dr (mb_ident b) (mb_base_transaction_id b) (mb_mutation b) d"

section \<open>Table handles\<close>

definition handle_new :: "sql_catalog \<Rightarrow> table_ident \<Rightarrow> table_handle" where
  "handle_new catalog ident = \<lparr>th_catalog = catalog, th_ident = ident\<rparr>"

definition handle_read :: "table_handle \<Rightarrow> db \<Rightarrow> catalog_error + table_view" where
  "handle_read h d = read_table (th_catalog h) (th_ident h) None d"

definition handle_read_at :: "table_handle \<Rightarrow> txn_id \<Rightarrow> db \<Rightarrow> catalog_error + table_view" where
  "handle_read_at h transaction_id d = read_table (th_catalog h) (th_ident h) (Some transaction_id) d"

definition handle_current_transaction_id :: "table_handle \<Rightarrow> db \<Rightarrow> catalog_error + txn_id" where
  "handle_current_transaction_id h d = current_transaction_id (th_catalog h) (th_ident h) d"

definition handle_list_transaction_events ::
  "table_handle \<Rightarrow> txn_id option \<Rightarrow> txn_id \<Rightarrow> db \<Rightarrow> catalog_error + txn_event list" where
  "handle_list_transaction_events h from_exclusive to_inclusive d =
     list_transaction_events (th_catalog h) (th_ident h)
       \<lparr>rc_from_exclusive = from_exclusive, rc_to_inclusive = to_inclusive\<rparr> d"

definition handle_diff :: "table_handle \<Rightarrow> txn_id \<Rightarrow> txn_id \<Rightarrow> db \<Rightarrow> catalog_error + table_delta" where
  "handle_diff h from_transaction_id to_transaction_id d =
     diff_table (th_catalog h) (th_ident h) from_transaction_id to_transaction_id d"

definition handle_write ::
  "table_handle \<Rightarrow> txn_id option \<Rightarrow> db \<Rightarrow> catalog_error + mutation_builder" where
  "handle_write h base_transaction_id d =
     rbind (case base_transaction_id of
              Some t \<Rightarrow> Inr t
            | None \<Rightarrow> current_transaction_id (th_catalog h) (th_ident h) d)
       (\<lambda>txn_id. Inr (mutation_builder_new (th_catalog h) (th_ident h) txn_id))"

lemmas builder_defs = builder_append_files_def builder_append_file_def builder_delete_files_def
  builder_update_schema_def builder_set_properties_def builder_remove_properties_def push_op_def
  mutation_builder_new_def

section \<open>Submitting a sequence of requests\<close>

text \<open>Requests of any clients in the order the database serialises them; the result is the
  accepted ones and the final state.\<close>

fun submit_all :: "('r \<Rightarrow> 's \<Rightarrow> ('e + 'c) \<times> 's) \<Rightarrow> 'r list \<Rightarrow> 's \<Rightarrow> 'r list \<times> 's" where
  "submit_all submit [] s = ([], s)"
| "submit_all submit (r # rs) s =
     (case submit r s of
        (Inl _, s') \<Rightarrow> submit_all submit rs s'
      | (Inr _, s') \<Rightarrow> (case submit_all submit rs s' of (accepted, s'') \<Rightarrow> (r # accepted, s'')))"

text \<open>A list of requests is a chain from \<open>h\<close> to \<open>h'\<close> when each is based on the transaction the
  one before it created.\<close>

fun chain :: "('r \<Rightarrow> 't) \<Rightarrow> ('r \<Rightarrow> 't) \<Rightarrow> 't \<Rightarrow> 'r list \<Rightarrow> 't \<Rightarrow> bool" where
  "chain base created h [] h' \<longleftrightarrow> h' = h"
| "chain base created h (r # rs) h' \<longleftrightarrow> base r = h \<and> chain base created (created r) rs h'"

locale optimistic_catalog =
  fixes sound :: "'s \<Rightarrow> bool"
    and head :: "'i \<Rightarrow> 's \<Rightarrow> 'e + 't::linorder"
    and submit :: "'r \<Rightarrow> 's \<Rightarrow> ('e + 'c) \<times> 's"
    and target :: "'r \<Rightarrow> 'i"
    and base :: "'r \<Rightarrow> 't"
    and created :: "'r \<Rightarrow> 't"
  assumes submit_error: "submit r s = (Inl e, s') \<Longrightarrow> s' = s"
    and submit_sound: "sound s \<Longrightarrow> submit r s = (Inr c, s') \<Longrightarrow> base r < created r \<Longrightarrow> sound s'"
    and submit_head: "sound s \<Longrightarrow> submit r s = (Inr c, s') \<Longrightarrow>
          head (target r) s = Inr (base r) \<and> head (target r) s' = Inr (created r)"
    and submit_frame: "sound s \<Longrightarrow> submit r s = (Inr c, s') \<Longrightarrow> i \<noteq> target r \<Longrightarrow> head i s' = head i s"
begin

lemma submit_all_chain:
  assumes "sound s" and "head i s = Inr h" and "list_all (\<lambda>r. base r < created r) rs"
    and "submit_all submit rs s = (accepted, s')"
  shows "\<exists>h'. head i s' = Inr h' \<and> chain base created h (filter (\<lambda>r. target r = i) accepted) h'"
  using assms
proof (induction rs arbitrary: s h accepted)
  case (Cons r rs)
  show ?case
  proof (cases "submit r s")
    case (Pair res s1)
    show ?thesis
    proof (cases res)
      case (Inl e)
      with Pair submit_error have "s1 = s" by blast
      with Cons Pair Inl show ?thesis by simp
    next
      case (Inr c)
      note r = Pair [unfolded Inr]
      obtain acc where acc: "submit_all submit rs s1 = (acc, s')" "accepted = r # acc"
        using Cons.prems(4) r by (auto split: prod.splits)
      have s1: "sound s1" using submit_sound [OF Cons.prems(1) r] Cons.prems(3) by simp
      show ?thesis
      proof (cases "target r = i")
        case True
        then have "base r = h" "head i s1 = Inr (created r)"
          using submit_head [OF Cons.prems(1) r] Cons.prems(2) by auto
        then show ?thesis using Cons.IH [OF s1 _ _ acc(1)] Cons.prems(3) acc(2) True by simp
      next
        case False
        then have "head i s1 = Inr h" using submit_frame [OF Cons.prems(1) r] Cons.prems(2) by simp
        then show ?thesis using Cons.IH [OF s1 _ _ acc(1)] Cons.prems(3) acc(2) False by simp
      qed
    qed
  qed
qed simp

lemma submit_all_accepted:
  "submit_all submit rs s = (accepted, s') \<Longrightarrow>
     set accepted \<subseteq> set rs \<and> submit_all submit accepted s = (accepted, s')"
proof (induction rs arbitrary: s accepted)
  case (Cons r rs)
  then show ?case by (fastforce split: prod.splits sum.splits dest: submit_error)
qed simp

lemma chain_increases:
  assumes "chain base created h rs h'" and "list_all (\<lambda>r. base r < created r) rs"
  shows "sorted_wrt (<) (h # map created rs) \<and> h' = last (h # map created rs)"
  using assms
proof (induction rs arbitrary: h)
  case (Cons r rs)
  then have "sorted_wrt (<) (created r # map created rs)" "h < created r"
    "h' = last (created r # map created rs)" by auto
  then show ?case by (auto intro: less_trans)
qed simp

end

section \<open>The catalog implements the contract\<close>

type_synonym request = "draws \<times> mutation_builder"

definition submit_request :: "request \<Rightarrow> db \<Rightarrow> (catalog_error + commit_result) \<times> db" where
  "submit_request r = builder_commit (fst r) (snd r)"

abbreviation request_target :: "request \<Rightarrow> table_ident" where
  "request_target r \<equiv> mb_ident (snd r)"

abbreviation request_base :: "request \<Rightarrow> txn_id" where
  "request_base r \<equiv> mb_base_transaction_id (snd r)"

abbreviation request_txn :: "request \<Rightarrow> txn_id" where
  "request_txn r \<equiv> dr_txn (fst r)"

lemma commit_other_table:
  assumes wf: "wf_db d" and body: "commit_body cat dr ident base m d = Inr (res, d')" and other: "ident' \<noteq> ident"
  shows "select_table (ti_namespace ident') (ti_name ident') d' = select_table (ti_namespace ident') (ti_name ident') d"
proof -
  from commit_summary [OF wf body] obtain r D su pt where
    r: "select_table (ti_namespace ident) (ti_name ident) d = Some r"
    and d': "d' = update_table_commit (dr_txn dr) su pt (t_table_uuid r) D" "db_tables D = db_tables d" by metis
  let ?f = "\<lambda>q. if t_table_uuid q = t_table_uuid r then committed_row (dr_txn dr) su pt q else q"
  have sel: "select_table (ti_namespace ident') (ti_name ident') d' =
      map_option ?f (select_table (ti_namespace ident') (ti_name ident') d)"
    unfolding select_table_def by (simp add: d' update_table_commit_tables find_map_same)
  show ?thesis
  proof (cases "select_table (ti_namespace ident') (ti_name ident') d")
    case (Some q)
    note q = select_table_Some [OF Some] and r' = select_table_Some [OF r]
    have "q \<noteq> r" using q r' other by (cases ident; cases ident') auto
    moreover have "inj_on t_table_uuid (set (db_tables d))"
      using wf by (simp add: wf_db_def keys_ok_def distinct_map)
    ultimately have "t_table_uuid q \<noteq> t_table_uuid r" using q r' by (meson inj_on_def)
    then show ?thesis using sel Some by simp
  qed (use sel in simp)
qed

interpretation sql_commits: optimistic_catalog wf_db "current_transaction_id cat" submit_request
    "\<lambda>r. mb_ident (snd r)" "\<lambda>r. mb_base_transaction_id (snd r)" "\<lambda>r. dr_txn (fst r)" for cat
proof
  fix r :: request and s s' e c i
  show "submit_request r s = (Inl e, s') \<Longrightarrow> s' = s"
    by (auto simp: submit_request_def builder_commit_def commit_def dest: run_tx_error)
  show "wf_db s \<Longrightarrow> submit_request r s = (Inr c, s') \<Longrightarrow> request_base r < request_txn r \<Longrightarrow> wf_db s'"
    by (auto simp: submit_request_def builder_commit_def commit_Inr_body intro: commit_wf)
  show "wf_db s \<Longrightarrow> submit_request r s = (Inr c, s') \<Longrightarrow>
      current_transaction_id cat (request_target r) s = Inr (request_base r)
      \<and> current_transaction_id cat (request_target r) s' = Inr (request_txn r)"
    unfolding submit_request_def builder_commit_def commit_Inr_body
    by (erule commit_summary, assumption) (auto simp: current_of_row select_after_commit)
  show "wf_db s \<Longrightarrow> submit_request r s = (Inr c, s') \<Longrightarrow> i \<noteq> request_target r \<Longrightarrow>
      current_transaction_id cat i s' = current_transaction_id cat i s"
    unfolding submit_request_def builder_commit_def commit_Inr_body current_transaction_id_def
    by (simp add: commit_other_table)
qed

text \<open>C5. Concurrent commits form one line per table: whatever requests any number of clients
  submit, on whatever bases and tables, the ones accepted for a table are, in the order of
  acceptance, a chain that starts at the head of the table, each based on the transaction the
  previous one created, and the last one is the new head; their identifiers increase. A
  refused request leaves the database unchanged, so the final database is that of the
  accepted requests alone.\<close>

theorem concurrent_commits_chain:
  assumes "reachable lib d" and "current_transaction_id cat ident d = Inr h"
    and "list_all (\<lambda>r. request_base r < request_txn r) rs"
    and "submit_all submit_request rs d = (accepted, d')"
  shows "\<exists>h'. current_transaction_id cat ident d' = Inr h'
    \<and> chain (\<lambda>r. request_base r) (\<lambda>r. request_txn r) h (filter (\<lambda>r. request_target r = ident) accepted) h'
    \<and> sorted_wrt (<) (h # map (\<lambda>r. request_txn r) (filter (\<lambda>r. request_target r = ident) accepted))
    \<and> submit_all submit_request accepted d = (accepted, d')"
proof -
  have wf: "wf_db d" using assms(1) by (rule reachable_wf)
  note acc = sql_commits.submit_all_accepted [OF assms(4)]
  let ?mine = "filter (\<lambda>r. request_target r = ident) accepted"
  have increasing: "list_all (\<lambda>r. request_base r < request_txn r) ?mine"
    using acc assms(3) unfolding list_all_iff by (metis (no_types, lifting) filter_is_subset subsetD)
  from sql_commits.submit_all_chain [OF wf assms(2-4)] obtain h' where
    h': "current_transaction_id cat ident d' = Inr h'"
      "chain (\<lambda>r. request_base r) (\<lambda>r. request_txn r) h ?mine h'" by blast
  with sql_commits.chain_increases [OF h'(2) increasing] acc show ?thesis by blast
qed

definition demo_request :: "txn_id \<Rightarrow> txn_id \<Rightarrow> uuid \<Rightarrow> request" where
  "demo_request x b u = (demo_draws x, builder_append_file (demo_file u)
     (mutation_builder_new demo_cat demo_ident b))"

lemma demo_race:
  "map (\<lambda>r. request_txn r) (fst (submit_all submit_request
     [demo_request 20 10 1, demo_request 21 10 2, demo_request 30 20 3] demo_db1)) = [20, 30]"
  unfolding demo_db1_eq by code_simp

theorem concurrent_commits_chain_witness:
  "\<exists>accepted d' h'. submit_all submit_request
       [demo_request 20 10 1, demo_request 21 10 2, demo_request 30 20 3] demo_db1 = (accepted, d')
     \<and> current_transaction_id demo_cat demo_ident d' = Inr h'
     \<and> chain (\<lambda>r. request_base r) (\<lambda>r. request_txn r) 10
         (filter (\<lambda>r. request_target r = demo_ident) accepted) h'
     \<and> map (\<lambda>r. request_txn r) accepted = [20, 30]"
proof -
  let ?rs = "[demo_request 20 10 1, demo_request 21 10 2, demo_request 30 20 3]"
  obtain accepted d' where run: "submit_all submit_request ?rs demo_db1 = (accepted, d')" by fastforce
  have h: "current_transaction_id demo_cat demo_ident demo_db1 = Inr 10" unfolding demo_db1_eq by code_simp
  have inc: "list_all (\<lambda>r. request_base r < request_txn r) ?rs"
    by (simp add: demo_request_def builder_defs demo_draws_def)
  from concurrent_commits_chain [OF demo_reachable(1) h inc run] obtain h' where
    "current_transaction_id demo_cat demo_ident d' = Inr h'"
    "chain (\<lambda>r. request_base r) (\<lambda>r. request_txn r) 10 (filter (\<lambda>r. request_target r = demo_ident) accepted) h'" by blast
  moreover have "map (\<lambda>r. request_txn r) accepted = [20, 30]" using demo_race unfolding run fst_conv .
  ultimately show ?thesis using run
    by (intro exI [of _ accepted] exI [of _ d'] exI [of _ h'] conjI)
qed

end
