(* ===== verification/Progress.thy ===== *)
theory Progress
  imports Client SchemaHistory
begin

text \<open>
  That commits go through. The other theories say what a successful commit does; here a client
  that opens a builder at the head of a table and appends acceptable files is shown to
  succeed. The stored properties of a table are always the text the catalog printed itself,
  so they can be parsed again and printed again.
\<close>

section \<open>Stored properties\<close>

definition properties_stored :: "libs \<Rightarrow> db \<Rightarrow> bool" where
  "properties_stored lib d \<longleftrightarrow> list_all (\<lambda>r. \<exists>p t. t_properties r = Some t
     \<and> serialize_json (lib_json lib) (properties_to_json p) = Inr t) (db_tables d)"

lemma create_properties_stored:
  assumes "create_table_body cat dr ident location schema properties d = Inr (h, d')"
    and "properties_stored (cat_libs cat) d"
  shows "properties_stored (cat_libs cat) d'"
  using assms(1)
  by (rule create_summary) (use assms(2) in \<open>auto simp: properties_stored_def list_all_iff\<close>)

lemma commit_properties_stored:
  assumes wf: "wf_db d" and body: "commit_body cat dr ident base m d = Inr (res, d')"
    and "properties_stored (cat_libs cat) d"
  shows "properties_stored (cat_libs cat) d'"
  using wf body
  by (rule commit_summary)
     (use assms(3) in \<open>auto simp: properties_stored_def list_all_iff update_table_commit_tables\<close>)

lemma reachable_properties_stored: "reachable lib d \<Longrightarrow> properties_stored lib d"
  unfolding reachable_def
proof (induction rule: rtranclp_induct)
  case base
  show ?case by (simp add: properties_stored_def empty_db_def)
next
  case (step b c)
  have wf: "wf_db b" using step(1) by (intro reachable_wf [of lib]) (simp add: reachable_def)
  from step(2) wf show ?case
  proof (cases rule: step_cases_wf)
    case same
    then show ?thesis using step.IH by simp
  next
    case create
    then show ?thesis using create_properties_stored step.IH by blast
  next
    case commit
    then show ?thesis using commit_properties_stored [OF wf] step.IH by blast
  qed
qed

lemma stored_row:
  assumes "properties_stored lib d" and "json_codec (lib_json lib)" and "r \<in> set (db_tables d)"
  obtains p t where "parse_table_properties (lib_json lib) (t_properties r) = Inr p"
    "serialize_json (lib_json lib) (properties_to_json p) = Inr t"
proof -
  from assms(1,3) obtain p t where "t_properties r = Some t" "serialize_json (lib_json lib) (properties_to_json p) = Inr t"
    by (auto simp: properties_stored_def list_all_iff)
  with that [of p t] stored_properties [OF _ assms(2)] show thesis by simp
qed

section \<open>Rows that can be inserted\<close>

definition appendable :: "libs \<Rightarrow> file_spec \<Rightarrow> bool" where
  "appendable lib f \<longleftrightarrow> file_spec_validate (lib_format lib) f = Inr ()
     \<and> \<not> isl (serialize_json_optional (lib_json lib) (fs_partition_values f))
     \<and> \<not> isl (serialize_json_optional (lib_json lib) (fs_format_options f))"

lemma file_row_data_appendable:
  assumes "appendable lib f" and "fs_file_uuid f = Some u"
  shows "\<exists>e. file_row_data lib v4 (k, ds) f = Inr (k, ds @ [e]) \<and> fst e = u"
proof -
  from assms(1) obtain p q where "serialize_json_optional (lib_json lib) (fs_partition_values f) = Inr p"
    "serialize_json_optional (lib_json lib) (fs_format_options f) = Inr q"
    by (auto simp: appendable_def isl_def) (metis sum.exhaust)
  then show ?thesis using assms by (auto simp: file_row_data_def appendable_def)
qed

lemma file_rows_appendable:
  assumes "list_all (appendable lib) files" and "map fs_file_uuid files = map Some us"
  shows "\<exists>rows. file_rows lib v4 tu x k files = Inr (k, rows) \<and> map f_file_uuid rows = us
     \<and> list_all (\<lambda>r. f_table_uuid r = tu \<and> f_added_in r = x \<and> f_removed_in r = None) rows"
proof -
  have "\<exists>es. foldM (file_row_data lib v4) (k, ds) files = Inr (k, ds @ es) \<and> map fst es = us" for ds
    using assms
  proof (induction files arbitrary: us ds)
    case (Cons f files)
    then obtain u us' where us: "us = u # us'" "fs_file_uuid f = Some u" by (cases us) auto
    with Cons.prems file_row_data_appendable obtain e where
      e: "file_row_data lib v4 (k, ds) f = Inr (k, ds @ [e])" "fst e = u" by fastforce
    from Cons.IH [of us' "ds @ [e]"] Cons.prems us obtain es where
      "foldM (file_row_data lib v4) (k, ds @ [e]) files = Inr (k, (ds @ [e]) @ es)" "map fst es = us'" by auto
    then show ?case using e us by (intro exI [of _ "e # es"]) simp
  qed simp
  from this [of "[]"] obtain es where es: "foldM (file_row_data lib v4) (k, []) files = Inr (k, es)" "map fst es = us" by auto
  have "map f_file_uuid (map (file_of_data tu x) es) = map fst es"
    by (induction es) auto
  then show ?thesis
    using es by (intro exI [of _ "map (file_of_data tu x) es"]) (auto simp: file_rows_def list_all_iff)
qed

lemma insert_files_fresh:
  assumes "distinct (map f_file_uuid rows)" and "f_file_uuid ` set rows \<inter> file_ids d = {}"
    and "list_all (\<lambda>r. f_table_uuid r \<in> table_ids d \<and> f_added_in r \<in> txn_ids d \<and> f_removed_in r = None) rows"
  shows "insert_files rows d = Inr (d\<lparr>db_files := db_files d @ rows\<rparr>)"
  using assms
proof (induction rows arbitrary: d)
  case (Cons r rows)
  let ?d = "d\<lparr>db_files := db_files d @ [r]\<rparr>"
  have "insert_file r d = Inr ?d" using Cons.prems by (auto simp: insert_file_def)
  moreover have "insert_files rows ?d = Inr (?d\<lparr>db_files := db_files ?d @ rows\<rparr>)"
    using Cons.prems by (intro Cons.IH) (auto simp: list_all_iff)
  ultimately show ?case by (simp add: insert_files_def)
qed (simp add: insert_files_def)

lemma len_u32_small: "length xs \<le> n \<Longrightarrow> n \<le> unat m \<Longrightarrow> \<not> m < len_u32 xs"
  by (simp add: not_less word_le_nat_alt unat_len_u32)

section \<open>Appending at the head\<close>

lemma append_ops_succeed:
  assumes "list_all (appendable (cat_libs cat)) files" and "map fs_file_uuid files = map Some us"
    and "length files \<le> 1000" and "distinct us" and "set us \<inter> file_ids d = {}"
    and "tu \<in> table_ids d" and "x \<in> txn_ids d"
  shows "\<exists>rows. foldM (apply_op cat dr tu x cs)
       \<lparr>cm_db = d, cm_v4 = 0, cm_new_schema_uuid = cs, cm_properties = p\<rparr> [AppendFiles files]
     = Inr \<lparr>cm_db = d\<lparr>db_files := db_files d @ rows\<rparr>, cm_v4 = 0, cm_new_schema_uuid = cs, cm_properties = p\<rparr>
     \<and> map f_file_uuid rows = us"
proof -
  obtain rows where rows: "file_rows (cat_libs cat) (dr_v4 dr) tu x 0 files = Inr (0, rows)"
      "map f_file_uuid rows = us"
      "list_all (\<lambda>r. f_table_uuid r = tu \<and> f_added_in r = x \<and> f_removed_in r = None) rows"
    using file_rows_appendable [OF assms(1,2)] by blast
  have "f_file_uuid ` set rows = set us" using rows(2) by (metis set_map)
  then have ins: "insert_files rows d = Inr (d\<lparr>db_files := db_files d @ rows\<rparr>)"
    using rows(2,3) assms(4-7) by (intro insert_files_fresh) (auto simp: list_all_iff)
  have "insert_file_chunks (cat_libs cat) (cat_kind cat) (dr_v4 dr) tu x files (0, d)
      = Inr (0, d\<lparr>db_files := db_files d @ rows\<rparr>)"
    using rows(1) ins by (simp add: insert_file_chunks_Inr)
  moreover have "\<not> MAX_FILES_PER_APPEND < len_u32 files" using assms(3) by (intro len_u32_small) simp_all
  ultimately show ?thesis
    using rows(2) by (intro exI [of _ rows]) (simp add: apply_op_def append_files_def)
qed

text \<open>C17. A commit at the head goes through: a client whose writer version the table admits, which
  opens a builder without naming a base and appends at most 1000 acceptable files with
  distinct unused identifiers under a fresh transaction identifier, succeeds, and the files
  are the last rows of the file table.\<close>

theorem append_commit_succeeds:
  assumes "reachable lib d" and "cat_libs cat = lib" and "json_codec (lib_json lib)"
    and "select_table (ti_namespace ident) (ti_name ident) d = Some r"
    and "sint (t_min_writer_version r) \<le> sint (writer_version cat)"
    and "dr_txn dr \<notin> txn_ids d"
    and "list_all (appendable lib) files" and "map fs_file_uuid files = map Some us"
    and "length files \<le> 1000" and "distinct us" and "set us \<inter> file_ids d = {}"
  shows "\<exists>b d'. handle_write (handle_new cat ident) None d = Inr b
    \<and> builder_commit dr (builder_append_files files b) d
        = (Inr \<lparr>cr_transaction_id = dr_txn dr, cr_table_view = None\<rparr>, d')
    \<and> map f_file_uuid (db_files d') = map f_file_uuid (db_files d) @ us"
proof -
  have wf: "wf_db d" using assms(1) by (rule reachable_wf)
  have r: "r \<in> set (db_tables d)" using select_table_Some [OF assms(4)] by simp
  let ?x = "dr_txn dr" and ?base = "last (txn_line (t_table_uuid r) d)" and ?cs = "t_current_schema_uuid r"
  have head: "t_current_transaction_id r = Some ?base" by (rule txn_line_props(4) [OF wf r])
  have "?base \<in> set (txn_line (t_table_uuid r) d)" using txn_line_props(1) [OF wf r] by simp
  then have base: "?base \<in> txn_ids d" by (auto simp: txn_line_def table_txns_def)
  obtain p t where p: "parse_table_properties (lib_json lib) (t_properties r) = Inr p"
      "serialize_json (lib_json lib) (properties_to_json p) = Inr t"
    using stored_row [OF reachable_properties_stored [OF assms(1)] assms(3) r] .
  let ?row = "\<lparr>x_transaction_id = ?x, x_table_uuid = t_table_uuid r, x_transaction_timestamp = dr_now dr,
       x_parent_transaction_id = Some ?base\<rparr>"
  let ?d1 = "d\<lparr>db_transactions := db_transactions d @ [?row]\<rparr>"
  have txn: "insert_txn ?row d = Inr ?d1" using assms(6) r base by (simp add: insert_txn_def)
  obtain rows where rows: "foldM (apply_op cat dr (t_table_uuid r) ?x ?cs)
       \<lparr>cm_db = ?d1, cm_v4 = 0, cm_new_schema_uuid = ?cs, cm_properties = p\<rparr> [AppendFiles files]
     = Inr \<lparr>cm_db = ?d1\<lparr>db_files := db_files ?d1 @ rows\<rparr>, cm_v4 = 0, cm_new_schema_uuid = ?cs, cm_properties = p\<rparr>"
     "map f_file_uuid rows = us"
    using append_ops_succeed [of cat files us ?d1 "t_table_uuid r" ?x dr ?cs p] assms(2,7-11) r by auto
  have pre: "commit_precheck \<lparr>mu_operations = [AppendFiles files]\<rparr> = Inr ()"
    by (simp add: commit_precheck_def mutation_validate_def len_u32_def limit_defs)
  have hd: "commit_head cat ident ?base d = Inr (r, p)"
    using assms(2,4,5) p(1) head by (simp add: commit_head_Inr)
  obtain d' where "commit cat dr ident ?base \<lparr>mu_operations = [AppendFiles files]\<rparr> d
      = (Inr \<lparr>cr_transaction_id = ?x, cr_table_view = None\<rparr>, d')" "db_files d' = db_files d @ rows"
    using pre hd txn rows(1) p(2) head assms(2)
    by (simp add: commit_def run_tx_def commit_body_def update_table_commit_def Let_def del: foldM.simps)
  moreover have "handle_write (handle_new cat ident) None d = Inr (mutation_builder_new cat ident ?base)"
    using assms(4) head by (simp add: handle_write_def handle_new_def current_transaction_id_def)
  ultimately show ?thesis using rows(2) by (simp add: builder_commit_def builder_defs)
qed

theorem append_commit_succeeds_witness:
  "\<exists>b d'. handle_write (handle_new demo_cat demo_ident) None demo_db2 = Inr b
    \<and> builder_commit (demo_draws 30) (builder_append_files [demo_file 7, demo_file 8] b) demo_db2
        = (Inr \<lparr>cr_transaction_id = 30, cr_table_view = None\<rparr>, d')
    \<and> map f_file_uuid (db_files d') = [1, 2, 7, 8]"
proof -
  have "select_table (ti_namespace demo_ident) (ti_name demo_ident) demo_db2 = Some (demo_row 20 1001 ''{}'')"
    unfolding demo_db2_eq demo_db1_eq by code_simp
  moreover have "30 \<notin> txn_ids demo_db2" "set [7, 8] \<inter> file_ids demo_db2 = {}"
      "map f_file_uuid (db_files demo_db2) = [1, 2]"
    unfolding demo_db2_eq demo_db1_eq by code_simp+
  moreover have "list_all (appendable demo_libs) [demo_file 7, demo_file 8]" by code_simp
  moreover have "sint (t_min_writer_version (demo_row 20 1001 ''{}'')) \<le> sint (writer_version demo_cat)" by code_simp
  ultimately show ?thesis
    using append_commit_succeeds [OF demo_reachable(2) demo_libs_cat demo_json, of demo_ident "demo_row 20 1001 ''{}''"
        "demo_draws 30" "[demo_file 7, demo_file 8]" "[7, 8]"]
    by (simp add: demo_draws_def demo_file_def with_uuid_def)
qed

section \<open>Properties\<close>

text \<open>The effect of an operation on the table properties: \<open>SetProperties\<close> replaces them,
  \<open>RemoveProperties\<close> removes the listed keys.\<close>

fun props_step :: "mutation_op \<Rightarrow> table_properties \<Rightarrow> table_properties" where
  "props_step (SetProperties q) p = q"
| "props_step (RemoveProperties keys) p = fold properties_remove (map property_key_as_str keys) p"
| "props_step _ p = p"

lemma apply_op_properties:
  assumes "apply_op cat dr tu x cs st op = Inr st'"
  shows "cm_properties st' = props_step op (cm_properties st)"
proof (cases op)
  case (AppendFiles files)
  then have "append_files cat dr tu x files st = Inr st'" using assms by (simp add: apply_op_def)
  then show ?thesis using AppendFiles by (elim append_files_effect) simp
next
  case (DeleteFiles us)
  then show ?thesis using assms delete_files_effect(2) by (fastforce simp: apply_op_def)
next
  case (UpdateSchema spec)
  then have us: "update_schema cat dr tu x cs spec st = Inr st'" using assms by (simp add: apply_op_def)
  show ?thesis
    using us by (rule update_schema_effect)
      (metis UpdateSchema commit_state.select_convs(4) commit_state.surjective commit_state.update_convs(1-3) props_step.simps(5))
next
  case (SetProperties q)
  then show ?thesis using assms set_properties_effect by (fastforce simp: apply_op_def)
next
  case (RemoveProperties ks)
  then show ?thesis using assms remove_properties_effect by (fastforce simp: apply_op_def)
qed

lemma apply_ops_properties:
  "foldM (apply_op cat dr tu x cs) st ops = Inr st' \<Longrightarrow> cm_properties st' = fold props_step ops (cm_properties st)"
  by (induction ops arbitrary: st) (auto simp: result_simps apply_op_properties)

lemma commit_properties:
  assumes "commit_body cat dr ident base m d = Inr (res, d')" and "json_codec (lib_json (cat_libs cat))"
    and "select_table (ti_namespace ident) (ti_name ident) d = Some r"
    and "parse_table_properties (lib_json (cat_libs cat)) (t_properties r) = Inr p"
    and "select_table (ti_namespace ident) (ti_name ident) d' = Some r'"
  shows "parse_table_properties (lib_json (cat_libs cat)) (t_properties r') = Inr (fold props_step (mu_operations m) p)"
  using assms(1)
proof (rule commit_body_Inr)
  fix q p' d1 st t
  assume q: "select_table (ti_namespace ident) (ti_name ident) d = Some q"
    "parse_table_properties (lib_json (cat_libs cat)) (t_properties q) = Inr p'"
  assume txn: "insert_txn \<lparr>x_transaction_id = dr_txn dr, x_table_uuid = t_table_uuid q,
       x_transaction_timestamp = dr_now dr, x_parent_transaction_id = Some base\<rparr> d = Inr d1"
  assume run: "foldM (apply_op cat dr (t_table_uuid q) (dr_txn dr) (t_current_schema_uuid q))
       \<lparr>cm_db = d1, cm_v4 = 0, cm_new_schema_uuid = t_current_schema_uuid q, cm_properties = p'\<rparr>
       (mu_operations m) = Inr st"
  assume ser: "serialize_json (lib_json (cat_libs cat)) (properties_to_json (cm_properties st)) = Inr t"
  assume d': "d' = update_table_commit (dr_txn dr)
       (case cm_new_schema_uuid st of Some u \<Rightarrow> Some u | None \<Rightarrow> t_current_schema_uuid q)
       t (t_table_uuid q) (cm_db st)"
  have "db_tables (cm_db st) = db_tables d"
    using apply_ops_frame(1) [OF run] insert_txn_Inr [OF txn] by simp
  then have "t_properties r' = Some t"
    using select_after_commit [OF q(1)] assms(5) d' by auto
  moreover have "cm_properties st = fold props_step (mu_operations m) p"
    using apply_ops_properties [OF run] q assms(3,4) by simp
  ultimately show ?thesis using stored_properties [OF ser assms(2)] by simp
qed

text \<open>The properties of a table after a commit are those before it with the operations of the
  mutation applied in order: a replacement sets them, a removal deletes the listed keys, every
  other operation keeps them, and they survive the round trip through the stored text.\<close>

lemma commit_properties_exact:
  assumes "reachable lib d" and "cat_libs cat = lib" and "json_codec (lib_json lib)"
    and "read_table cat ident (Some base) d = Inr v"
    and "commit cat dr ident base m d = (Inr res, d')"
    and "read_table cat ident (Some (dr_txn dr)) d' = Inr v'"
  shows "tv_properties v' = fold props_step (mu_operations m) (tv_properties v)"
proof -
  from assms(4) obtain r where r: "select_table (ti_namespace ident) (ti_name ident) d = Some r"
    "parse_table_properties (lib_json lib) (t_properties r) = Inr (tv_properties v)"
    by (auto simp: read_table_Inr read_head_Inr assms(2))
  from assms(6) obtain r' where r': "select_table (ti_namespace ident) (ti_name ident) d' = Some r'"
    "parse_table_properties (lib_json lib) (t_properties r') = Inr (tv_properties v')"
    by (auto simp: read_table_Inr read_head_Inr assms(2))
  have "commit_body cat dr ident base m d = Inr (res, d')" using assms(5) by (simp add: commit_Inr_body)
  from commit_properties [OF this _ r(1) _ r'(1)] assms(2,3) r(2) r'(2) show ?thesis by simp
qed

section \<open>Listing and loading\<close>

abbreviation ident_of :: "table_row \<Rightarrow> table_ident" where
  "ident_of r \<equiv> \<lparr>ti_namespace = t_namespace r, ti_name = t_table_name r\<rparr>"

lemma load_table_ident:
  "load_table cat i d \<noteq> Inr None \<longleftrightarrow> i \<in> ident_of ` set (db_tables d)"
proof -
  have "select_table (ti_namespace i) (ti_name i) d = None \<longleftrightarrow> i \<notin> ident_of ` set (db_tables d)"
    by (cases i) (auto simp: select_table_def find_None_iff image_iff)
  then show ?thesis by (auto simp: load_table_def)
qed

text \<open>C29. Listing and loading agree: as long as there are at most 10000 tables, the list of all
  tables has no duplicates and holds exactly the tables that can be loaded, and the list of a
  namespace is its part in that namespace; beyond the limit the listing is refused, not cut.\<close>

theorem list_tables_exact:
  assumes "reachable lib d"
  shows "(length (db_tables d) \<le> 10000 \<longrightarrow>
       (\<exists>idents. list_tables cat None d = Inr idents \<and> distinct idents
          \<and> (\<forall>i. i \<in> set idents \<longleftrightarrow> load_table cat i d \<noteq> Inr None)
          \<and> list_tables cat (Some ns) d = Inr (filter (\<lambda>i. ti_namespace i = ns) idents)))
    \<and> (10000 < length (db_tables d) \<longrightarrow>
       list_tables cat None d = Inl (LimitExceeded (TableCount MAX_TABLES_PER_LIST)))"
proof (intro conjI impI)
  let ?idents = "map ident_of (db_tables d)"
  assume len: "length (db_tables d) \<le> 10000"
  have "distinct (map table_key (db_tables d))"
    using reachable_wf [OF assms] by (simp add: wf_db_def keys_ok_def)
  then have "distinct ?idents" by (auto simp: distinct_map inj_on_def)
  moreover have "list_tables cat None d = Inr ?idents" using len by (simp add: list_tables_def)
  moreover have "length (filter (\<lambda>r. t_namespace r = ns) (db_tables d)) \<le> 10000"
    using len length_filter_le order_trans by blast
  then have "list_tables cat (Some ns) d = Inr (filter (\<lambda>i. ti_namespace i = ns) ?idents)"
    by (simp add: list_tables_def filter_map comp_def)
  ultimately show "\<exists>idents. list_tables cat None d = Inr idents \<and> distinct idents
          \<and> (\<forall>i. i \<in> set idents \<longleftrightarrow> load_table cat i d \<noteq> Inr None)
          \<and> list_tables cat (Some ns) d = Inr (filter (\<lambda>i. ti_namespace i = ns) idents)"
    by (intro exI [of _ ?idents]) (simp add: load_table_ident)
qed (simp add: list_tables_def)

theorem list_tables_exact_witness:
  "\<exists>idents. list_tables demo_cat None demo_db1 = Inr idents
     \<and> list_tables demo_cat (Some ''ns'') demo_db1 = Inr (filter (\<lambda>i. ti_namespace i = ''ns'') idents)"
proof -
  have "length (db_tables demo_db1) \<le> 10000" by (simp add: demo_db1_eq)
  with list_tables_exact [OF demo_reachable(1)] show ?thesis by blast
qed

section \<open>Clocks\<close>


end
