(* ===== verification/Protocol.thy ===== *)
theory Protocol
  imports Progress
begin

text \<open>
  Protocol versions. A table records the versions of the client that created it as the
  minimum it requires; \<open>read_table\<close> and \<open>commit\<close> compare them with the versions of the calling
  client. The recorded minimum never changes, so the gate can be stated against the creator of
  the table after any later operations.
\<close>

lemma created_row_kept:
  assumes wf: "wf_db d" and body: "create_table_body creator dr ident location schema properties d = Inr (h, d1)"
    and run: "steps lib d1 d2"
  obtains r where "select_table (ti_namespace ident) (ti_name ident) d2 = Some r" "r \<in> set (db_tables d2)"
    "t_min_reader_version r = reader_version creator" "t_min_writer_version r = writer_version creator"
    "\<exists>x. t_current_transaction_id r = Some x"
proof -
  from body obtain p where none: "select_table (ti_namespace ident) (ti_name ident) d = None"
    and tabs: "db_tables d1 = db_tables d @ [created_row creator dr ident location p]"
    by (rule create_summary) simp
  have "select_table (ti_namespace ident) (ti_name ident) d1 = Some (created_row creator dr ident location p)"
    using none unfolding select_table_def tabs by (intro find_last) (auto simp: find_None_iff)
  from row_kept_steps [OF run create_wf [OF wf body] this] obtain r where
    r: "select_table (ti_namespace ident) (ti_name ident) d2 = Some r"
    "row_kept lib (created_row creator dr ident location p) r" by blast
  with select_table_Some [OF r(1)] show thesis by (intro that [of r]) (auto simp: row_kept_def)
qed

lemma read_head_gate:
  assumes "select_table (ti_namespace ident) (ti_name ident) d = Some r"
    and "parse_table_properties (lib_json (cat_libs cat)) (t_properties r) = Inr p"
    and "cat_libs cat = cat_libs creator" and "t_min_reader_version r = reader_version creator"
  shows "read_head cat ident d = (if sint (reader_version cat) < sint (reader_version creator)
     then Inl (ProtocolVersionIncompatible ''read'' ident (reader_version cat) (reader_version creator))
     else read_head creator ident d)"
  using assms by (simp add: read_head_def ensure_reader_protocol_compatible_def Let_def)

lemma commit_head_gate:
  assumes "select_table (ti_namespace ident) (ti_name ident) d = Some r"
    and "parse_table_properties (lib_json (cat_libs cat)) (t_properties r) = Inr p"
    and "cat_libs cat = cat_libs creator" and "t_min_writer_version r = writer_version creator"
  shows "commit_head cat ident base d = (if sint (writer_version cat) < sint (writer_version creator)
     then Inl (ProtocolVersionIncompatible ''write'' ident (writer_version cat) (writer_version creator))
     else commit_head creator ident base d)"
  using assms by (simp add: commit_head_def ensure_writer_protocol_compatible_def Let_def)

lemma read_table_gate:
  assumes "read_head cat ident d = (if old then Inl e else read_head creator ident d)"
    and "cat_libs cat = cat_libs creator"
  shows "read_table cat ident t d = (if old then Inl e else read_table creator ident t d)"
  using assms by (simp add: read_table_def)

lemma commit_gate:
  assumes "commit_head cat ident base d = (if old then Inl e else commit_head creator ident base d)"
    and "cat_libs cat = cat_libs creator"
  shows "commit cat dr ident base m d
     = (if old \<and> commit_precheck m = Inr () then (Inl e, d) else commit creator dr ident base m d)"
proof (cases "old \<and> commit_precheck m = Inr ()")
  case True
  with assms(1) show ?thesis by (simp add: commit_def run_tx_def commit_body_def)
next
  case False
  have "commit_body cat dr ident base m d = commit_body creator dr ident base m d"
  proof (cases old)
    case True
    with False obtain e' where "commit_precheck m = Inl e'" by (cases "commit_precheck m") auto
    then show ?thesis by (simp add: commit_body_def)
  next
    case False
    with assms show ?thesis by (intro commit_body_libs) simp_all
  qed
  with False show ?thesis by (simp only: commit_def run_tx_def if_False)
qed

lemma events_ungated:
  assumes "cat_libs a = cat_libs b"
  shows "list_transaction_events a ident cursor d = list_transaction_events b ident cursor d"
  by (simp add: list_transaction_events_def event_range_def assms)

text \<open>C21. The protocol gate. After a table was created and any operations followed, a client with a
  smaller reader version than the creator's gets the protocol error from every \<open>read_table\<close>,
  and one with a smaller writer version from every well-formed \<open>commit\<close>, which changes
  nothing; a client with sufficient versions gets exactly what the creator would get,
  whichever backend either of them uses. The event log is not gated: it answers any client as
  it answers the creator, but a diff, which also reads the two views, never succeeds for an
  outdated reader.\<close>

theorem protocol_gate:
  assumes "reachable lib d" and "cat_libs creator = lib" and "cat_libs cat = lib"
    and "json_codec (lib_json lib)"
    and "create_table creator dr0 ident location schema properties d = (Inr h, d1)" and "steps lib d1 d2"
  shows "read_table cat ident t d2 = (if sint (reader_version cat) < sint (reader_version creator)
       then Inl (ProtocolVersionIncompatible ''read'' ident (reader_version cat) (reader_version creator))
       else read_table creator ident t d2)
    \<and> commit cat dr ident base m d2
       = (if sint (writer_version cat) < sint (writer_version creator) \<and> commit_precheck m = Inr ()
          then (Inl (ProtocolVersionIncompatible ''write'' ident (writer_version cat) (writer_version creator)), d2)
          else commit creator dr ident base m d2)
    \<and> list_transaction_events cat ident cursor d2 = list_transaction_events creator ident cursor d2
    \<and> (sint (reader_version cat) < sint (reader_version creator) \<longrightarrow> isl (diff_table cat ident a b d2))"
proof -
  have body: "create_table_body creator dr0 ident location schema properties d = Inr (h, d1)"
    using assms(5) by (simp add: create_table_def run_tx_Inr)
  have "step lib d d1" using assms(5,2) by (rule step.create)
  then have reach: "reachable lib d2" using assms(1,6) by (simp add: reachable_def)
  obtain r where r: "select_table (ti_namespace ident) (ti_name ident) d2 = Some r" "r \<in> set (db_tables d2)"
    "t_min_reader_version r = reader_version creator" "t_min_writer_version r = writer_version creator"
    by (rule created_row_kept [OF reachable_wf [OF assms(1)] body assms(6)])
  obtain p where p: "parse_table_properties (lib_json (cat_libs cat)) (t_properties r) = Inr p"
    using stored_row [OF reachable_properties_stored [OF reach] assms(4) r(2)] assms(3) by metis
  have libs: "cat_libs cat = cat_libs creator" using assms(2,3) by simp
  note read = read_table_gate [OF read_head_gate [OF r(1) p libs r(3)] libs]
  have "isl (diff_table cat ident a b d2)" if "sint (reader_version cat) < sint (reader_version creator)"
    by (cases "list_transaction_events cat ident \<lparr>rc_from_exclusive = Some a, rc_to_inclusive = b\<rparr> d2")
       (simp_all add: diff_table_def read that)
  with read commit_gate [OF commit_head_gate [OF r(1) p libs r(4)] libs] events_ungated [OF libs]
  show ?thesis by blast
qed

text \<open>A table created by a client of versions 2 and 2 refuses the default client (1 and 1).\<close>

definition demo_new_client :: sql_catalog where
  "demo_new_client = catalog_new_with_protocol_versions Postgres demo_libs \<lparr>pv_reader = 2, pv_writer = 2\<rparr>"

definition demo_new_db :: db where
  "demo_new_db = snd (create_table demo_new_client (demo_draws 10) demo_ident ''loc'' demo_schema1 None empty_db)"

lemma demo_new_create:
  "\<exists>h. create_table demo_new_client (demo_draws 10) demo_ident ''loc'' demo_schema1 None empty_db = (Inr h, demo_new_db)"
proof -
  have "\<not> isl (fst (create_table demo_new_client (demo_draws 10) demo_ident ''loc'' demo_schema1 None empty_db))"
    by code_simp
  then show ?thesis unfolding demo_new_db_def by (metis isl_def prod.collapse sum.exhaust)
qed

theorem protocol_gate_witness:
  "read_table demo_cat demo_ident None demo_new_db = Inl (ProtocolVersionIncompatible ''read'' demo_ident 1 2)
   \<and> commit demo_cat (demo_draws 20) demo_ident 10 demo_append demo_new_db
       = (Inl (ProtocolVersionIncompatible ''write'' demo_ident 1 2), demo_new_db)
   \<and> isl (diff_table demo_cat demo_ident 10 10 demo_new_db)"
proof -
  have v: "reader_version demo_cat = 1" "writer_version demo_cat = 1"
    "reader_version demo_new_client = 2" "writer_version demo_new_client = 2"
    "commit_precheck demo_append = Inr ()" by code_simp+
  have libs: "cat_libs demo_new_client = demo_libs"
    by (simp add: demo_new_client_def catalog_new_with_protocol_versions_def)
  obtain h where "create_table demo_new_client (demo_draws 10) demo_ident ''loc'' demo_schema1 None empty_db
      = (Inr h, demo_new_db)" using demo_new_create by blast
  from protocol_gate [OF reachable_empty libs demo_libs_cat demo_json this rtranclp.rtrancl_refl,
      of None "demo_draws 20" 10 demo_append _ 10 10]
  show ?thesis by (simp add: v)
qed

end
