(* ===== verification/Setup.thy ===== *)
theory Setup
  imports Invariant
begin

text \<open>
  Opening a catalog: the constructors of \<open>SqlCatalog\<close> that make a connection pool, configure it
  and run the migrations. The pool belongs to sqlx and is a type parameter; what the code calls
  of sqlx is the record \<open>sqlx_lib\<close>, in which a call takes the pool and gives an error or the
  pool afterwards.
\<close>

section \<open>The database library\<close>

record 'p sqlx_lib =
  sx_connect :: "DbKind \<Rightarrow> string \<Rightarrow> sqlx_error + 'p"
  sx_execute :: "string \<Rightarrow> 'p \<Rightarrow> sqlx_error + 'p"
  sx_migrate :: "string \<Rightarrow> 'p \<Rightarrow> sqlx_error + 'p"

section \<open>Configuration and construction\<close>

definition sqlite_configure_pool :: "'p sqlx_lib \<Rightarrow> 'p \<Rightarrow> sqlx_error + 'p" where
  "sqlite_configure_pool sx pool =
     rbind (sx_execute sx ''PRAGMA foreign_keys = ON'' pool)
       (\<lambda>pool. sx_execute sx ''PRAGMA journal_mode = WAL'' pool)"

definition postgres_configure_pool :: "'p \<Rightarrow> sqlx_error + 'p" where
  "postgres_configure_pool pool = Inr pool"

definition sqlite_configure_database :: "'p sqlx_lib \<Rightarrow> 'p \<Rightarrow> sqlx_error + 'p" where
  "sqlite_configure_database sx pool = sqlite_configure_pool sx pool"

definition postgres_configure_database :: "'p sqlx_lib \<Rightarrow> 'p \<Rightarrow> sqlx_error + 'p" where
  "postgres_configure_database sx pool = postgres_configure_pool pool"

definition sqlite_initialize_schema :: "'p sqlx_lib \<Rightarrow> 'p \<Rightarrow> sqlx_error + 'p" where
  "sqlite_initialize_schema sx pool = sx_migrate sx ''db/migrations/sqlite'' pool"

definition postgres_initialize_schema :: "'p sqlx_lib \<Rightarrow> 'p \<Rightarrow> sqlx_error + 'p" where
  "postgres_initialize_schema sx pool = sx_migrate sx ''db/migrations/postgres'' pool"

definition sqlite_from_connection_string_with_protocol_versions ::
  "'p sqlx_lib \<Rightarrow> libs \<Rightarrow> string \<Rightarrow> protocol_versions \<Rightarrow> sqlx_error + sql_catalog \<times> 'p" where
  "sqlite_from_connection_string_with_protocol_versions sx lib connection_string client_protocol =
     rbind (sx_connect sx Sqlite connection_string) (\<lambda>pool.
       let catalog = catalog_new_with_protocol_versions Sqlite lib client_protocol in
     rbind (sqlite_configure_database sx pool) (\<lambda>pool.
     rbind (sqlite_initialize_schema sx pool) (\<lambda>pool.
       Inr (catalog, pool))))"

definition sqlite_from_connection_string ::
  "'p sqlx_lib \<Rightarrow> libs \<Rightarrow> string \<Rightarrow> sqlx_error + sql_catalog \<times> 'p" where
  "sqlite_from_connection_string sx lib connection_string =
     sqlite_from_connection_string_with_protocol_versions sx lib connection_string protocol_versions_default"

definition in_memory_with_protocol_versions ::
  "'p sqlx_lib \<Rightarrow> libs \<Rightarrow> protocol_versions \<Rightarrow> sqlx_error + sql_catalog \<times> 'p" where
  "in_memory_with_protocol_versions sx lib client_protocol =
     sqlite_from_connection_string_with_protocol_versions sx lib ''sqlite::memory:'' client_protocol"

definition in_memory :: "'p sqlx_lib \<Rightarrow> libs \<Rightarrow> sqlx_error + sql_catalog \<times> 'p" where
  "in_memory sx lib = in_memory_with_protocol_versions sx lib protocol_versions_default"

definition postgres_from_connection_string_with_protocol_versions ::
  "'p sqlx_lib \<Rightarrow> libs \<Rightarrow> string \<Rightarrow> protocol_versions \<Rightarrow> sqlx_error + sql_catalog \<times> 'p" where
  "postgres_from_connection_string_with_protocol_versions sx lib connection_string client_protocol =
     rbind (sx_connect sx Postgres connection_string) (\<lambda>pool.
       let catalog = catalog_new_with_protocol_versions Postgres lib client_protocol in
     rbind (postgres_configure_database sx pool) (\<lambda>pool.
     rbind (postgres_initialize_schema sx pool) (\<lambda>pool.
       Inr (catalog, pool))))"

definition postgres_from_connection_string ::
  "'p sqlx_lib \<Rightarrow> libs \<Rightarrow> string \<Rightarrow> sqlx_error + sql_catalog \<times> 'p" where
  "postgres_from_connection_string sx lib connection_string =
     postgres_from_connection_string_with_protocol_versions sx lib connection_string protocol_versions_default"

section \<open>What the model of the database relies on\<close>

text \<open>
  Documented behaviour of the database and of the migration runner, for an observation \<open>fk\<close> (foreign
  keys are enforced) and \<open>stored\<close> (the rows, \<open>None\<close> before the tables exist). SQLite switches
  the enforcement on with the pragma, the other pragma and the migrations leave it alone,
  Postgres always enforces. Pragmas keep the rows; a migration creates the missing tables and
  keeps the rows of those that exist (\<open>CREATE TABLE IF NOT EXISTS\<close>); a new in-memory database
  has no tables.
\<close>

definition fk_laws :: "'p sqlx_lib \<Rightarrow> ('p \<Rightarrow> bool) \<Rightarrow> bool" where
  "fk_laws sx fk \<longleftrightarrow>
     (\<forall>p q. sx_execute sx ''PRAGMA foreign_keys = ON'' p = Inr q \<longrightarrow> fk q)
     \<and> (\<forall>p q. sx_execute sx ''PRAGMA journal_mode = WAL'' p = Inr q \<longrightarrow> fk q = fk p)
     \<and> (\<forall>dir p q. sx_migrate sx dir p = Inr q \<longrightarrow> fk q = fk p)
     \<and> (\<forall>s p. sx_connect sx Postgres s = Inr p \<longrightarrow> fk p)"

definition rows_laws :: "'p sqlx_lib \<Rightarrow> ('p \<Rightarrow> db option) \<Rightarrow> bool" where
  "rows_laws sx stored \<longleftrightarrow>
     (\<forall>pragma p q. pragma \<in> {''PRAGMA foreign_keys = ON'', ''PRAGMA journal_mode = WAL''}
        \<longrightarrow> sx_execute sx pragma p = Inr q \<longrightarrow> stored q = stored p)
     \<and> (\<forall>dir p q. sx_migrate sx dir p = Inr q \<longrightarrow>
          stored q = Some (case stored p of None \<Rightarrow> empty_db | Some d \<Rightarrow> d))
     \<and> (\<forall>p. sx_connect sx Sqlite ''sqlite::memory:'' = Inr p \<longrightarrow> stored p = None)"

lemma sqlite_opened:
  assumes "fk_laws sx fk" and "rows_laws sx stored"
    and "sqlite_from_connection_string_with_protocol_versions sx lib s pv = Inr (cat, q)"
  obtains p where "sx_connect sx Sqlite s = Inr p"
    "cat = catalog_new_with_protocol_versions Sqlite lib pv" "fk q"
    "stored q = Some (case stored p of None \<Rightarrow> empty_db | Some d \<Rightarrow> d)"
proof -
  from assms(3) obtain p p1 p2 where p: "sx_connect sx Sqlite s = Inr p"
    "sx_execute sx ''PRAGMA foreign_keys = ON'' p = Inr p1"
    "sx_execute sx ''PRAGMA journal_mode = WAL'' p1 = Inr p2"
    "sx_migrate sx ''db/migrations/sqlite'' p2 = Inr q"
    "cat = catalog_new_with_protocol_versions Sqlite lib pv"
    by (auto simp: sqlite_from_connection_string_with_protocol_versions_def sqlite_configure_database_def
        sqlite_configure_pool_def sqlite_initialize_schema_def Let_def result_simps)
  have "fk q" using assms(1) p(2-4) unfolding fk_laws_def by metis
  moreover have "stored p1 = stored p" "stored p2 = stored p1"
    "stored q = Some (case stored p2 of None \<Rightarrow> empty_db | Some d \<Rightarrow> d)"
    using assms(2) p(2-4) unfolding rows_laws_def by blast+
  ultimately show thesis using p(1,5) by (intro that) simp_all
qed

lemma postgres_opened:
  assumes "fk_laws sx fk" and "rows_laws sx stored"
    and "postgres_from_connection_string_with_protocol_versions sx lib s pv = Inr (cat, q)"
  obtains p where "sx_connect sx Postgres s = Inr p"
    "cat = catalog_new_with_protocol_versions Postgres lib pv" "fk q"
    "stored q = Some (case stored p of None \<Rightarrow> empty_db | Some d \<Rightarrow> d)"
proof -
  from assms(3) obtain p where p: "sx_connect sx Postgres s = Inr p"
    "sx_migrate sx ''db/migrations/postgres'' p = Inr q"
    "cat = catalog_new_with_protocol_versions Postgres lib pv"
    by (auto simp: postgres_from_connection_string_with_protocol_versions_def postgres_configure_database_def
        postgres_configure_pool_def postgres_initialize_schema_def Let_def result_simps)
  have "fk q" using assms(1) p(1,2) unfolding fk_laws_def by metis
  moreover have "stored q = Some (case stored p of None \<Rightarrow> empty_db | Some d \<Rightarrow> d)"
    using assms(2) p(2) unfolding rows_laws_def by blast
  ultimately show thesis using p(1,3) by (intro that) simp_all
qed

lemma opened_reachable:
  assumes "\<forall>kind s p d. sx_connect sx kind s = Inr p \<longrightarrow> stored p = Some d \<longrightarrow> reachable lib d"
    and "sx_connect sx kind s = Inr p"
  shows "reachable lib (case stored p of None \<Rightarrow> empty_db | Some d \<Rightarrow> d)"
  using assms by (auto simp: reachable_def split: option.split)


text \<open>A library with in-memory databases only; the pool is the pair of its observations.\<close>

definition tiny_sqlx :: "(bool \<times> db option) sqlx_lib" where
  "tiny_sqlx = \<lparr>sx_connect = (\<lambda>kind s. Inr (kind = Postgres, None)),
     sx_execute = (\<lambda>sql p. if sql = ''PRAGMA foreign_keys = ON'' then Inr (True, snd p) else Inr p),
     sx_migrate = (\<lambda>dir p. Inr (fst p, Some (case snd p of None \<Rightarrow> empty_db | Some d \<Rightarrow> d)))\<rparr>"

lemma tiny_sqlx_laws: "fk_laws tiny_sqlx fst" "rows_laws tiny_sqlx snd"
  by (auto simp: fk_laws_def rows_laws_def tiny_sqlx_def split: if_splits)


end
