(* ===== verification/Storage.thy ===== *)
theory Storage
  imports FileFormats
begin

text \<open>
  Readers and writers of Arrow batches: \<open>storage/mod.rs\<close> (\<open>ReaderEnum\<close>, \<open>WriterEnum\<close> and their
  option enums) and the reader and writer halves of \<open>parquet.rs\<close>, \<open>lance.rs\<close> and \<open>vortex.rs\<close>.
  The format libraries, the Arrow library and the file system are parameters, collected in the
  record \<open>storage_lib\<close>; a record batch, a Vortex array, a Parquet builder or writer, a Lance
  scanner and the storage itself are type variables. A batch stream is the list of its items.
\<close>

section \<open>Paths\<close>

text \<open>A path is the byte string of the operating system; \<open>Path::to_str\<close> succeeds on well-formed
  UTF-8. The fuel-free recursion follows the table of well-formed byte sequences.\<close>

type_synonym path = "u8 list"

definition cont :: "u8 \<Rightarrow> bool" where
  "cont b \<longleftrightarrow> 0x80 \<le> b \<and> b \<le> 0xBF"

fun utf8_valid :: "u8 list \<Rightarrow> bool" where
  "utf8_valid [] = True"
| "utf8_valid (a # bs) =
     (if a \<le> 0x7F then utf8_valid bs
      else case bs of
        [] \<Rightarrow> False
      | b # cs \<Rightarrow>
          if 0xC2 \<le> a \<and> a \<le> 0xDF then cont b \<and> utf8_valid cs
          else case cs of
            [] \<Rightarrow> False
          | c # ds \<Rightarrow>
              if 0xE0 \<le> a \<and> a \<le> 0xEF then
                cont b \<and> (a = 0xE0 \<longrightarrow> 0xA0 \<le> b) \<and> (a = 0xED \<longrightarrow> b \<le> 0x9F) \<and> cont c \<and> utf8_valid ds
              else case ds of
                [] \<Rightarrow> False
              | e # es \<Rightarrow>
                  0xF0 \<le> a \<and> a \<le> 0xF4 \<and> cont b \<and> (a = 0xF0 \<longrightarrow> 0x90 \<le> b)
                    \<and> (a = 0xF4 \<longrightarrow> b \<le> 0x8F) \<and> cont c \<and> cont e \<and> utf8_valid es)"

definition path_to_utf8 :: "path \<Rightarrow> storage_error + u8 list" where
  "path_to_utf8 p = (if utf8_valid p then Inr p else Inl (IoError PathNotUtf8))"

section \<open>Libraries\<close>

text \<open>Errors the format libraries are handed or return: an Arrow error may carry a storage error
  of this crate, a Vortex error an I/O error made of one.\<close>

datatype arrow_error = ExternalError storage_error | ArrowOther string

datatype 'dt vortex_error = DtypeMismatch 'dt 'dt | SourceError storage_error | VortexOther string

record vortex_open_options =
  oo_initial_read_size :: "64 word option"
  oo_segment_cache :: bool

record ('b, 'o, 'k, 'w, 'ds, 'sc, 'a, 'dt, 's) storage_lib =
  ar_schema :: "'b \<Rightarrow> arrow_schema"
  ar_new_empty :: "arrow_schema \<Rightarrow> 'b"
  ar_concat_batches :: "arrow_schema \<Rightarrow> 'b list \<Rightarrow> string + 'b"
  fl_open :: "path \<Rightarrow> 's \<Rightarrow> string + bytes"
  fl_create :: "path \<Rightarrow> 's \<Rightarrow> string + 's"
  fl_write :: "path \<Rightarrow> bytes \<Rightarrow> 's \<Rightarrow> 's"
  pq_default_options :: 'o
  pq_new_with_options :: "bytes \<Rightarrow> 'o \<Rightarrow> string + 'k"
  pq_with_batch_size :: "64 word \<Rightarrow> 'k \<Rightarrow> 'k"
  pq_schema :: "'k \<Rightarrow> arrow_schema"
  pq_build :: "'k \<Rightarrow> string + (string + 'b) list"
  pq_try_new :: "arrow_schema \<Rightarrow> writer_properties \<Rightarrow> string + 'w"
  pq_write :: "'b \<Rightarrow> 'w \<Rightarrow> (string + unit) \<times> 'w"
  pq_close :: "'w \<Rightarrow> (string + unit) \<times> 'w"
  pq_flushed :: "'w \<Rightarrow> bytes"
  ld_open :: "u8 list \<Rightarrow> 's \<Rightarrow> string + 'ds"
  ld_scan :: "'ds \<Rightarrow> 'sc"
  sc_batch_size :: "64 word \<Rightarrow> 'sc \<Rightarrow> 'sc"
  sc_project :: "string list \<Rightarrow> 'sc \<Rightarrow> string + 'sc"
  sc_filter :: "string \<Rightarrow> 'sc \<Rightarrow> string + 'sc"
  sc_limit :: "i64 option \<Rightarrow> i64 option \<Rightarrow> 'sc \<Rightarrow> string + 'sc"
  sc_scan_in_order :: "bool \<Rightarrow> 'sc \<Rightarrow> 'sc"
  sc_io_buffer_size :: "64 word \<Rightarrow> 'sc \<Rightarrow> 'sc"
  sc_try_into_batch :: "'sc \<Rightarrow> string + 'b"
  sc_try_into_stream :: "'sc \<Rightarrow> string + (string + 'b) list"
  ld_write :: "arrow_schema \<Rightarrow> (arrow_error + 'b) list \<Rightarrow> u8 list \<Rightarrow> write_params \<Rightarrow> 's \<Rightarrow> (string + unit) \<times> 's"
  vx_from_arrow :: "'b \<Rightarrow> 'a"
  vx_dtype :: "'a \<Rightarrow> 'dt"
  vx_open_scan :: "vortex_open_options \<Rightarrow> 'dt option \<Rightarrow> u8 list \<Rightarrow> 's \<Rightarrow> string + ('dt vortex_error + 'a) list"
  vx_read_all :: "('dt vortex_error + 'a) list \<Rightarrow> string + 'a"
  vx_to_batch :: "'a \<Rightarrow> string + 'b"
  vx_message :: "'dt vortex_error \<Rightarrow> string"
  vx_write :: "vortex_write_options \<Rightarrow> 'dt \<Rightarrow> ('dt vortex_error + 'a) list \<Rightarrow> (string + unit) \<times> bytes"

type_synonym 'b batch_stream = "(storage_error + 'b) list"

abbreviation io_error :: "string + 'a \<Rightarrow> storage_error + 'a" where
  "io_error r \<equiv> map_err (\<lambda>e. IoError (ExternalMsg e)) r"

section \<open>Parquet\<close>

record 'o parquet_read_options =
  po_arrow_options :: 'o
  po_batch_size :: "64 word option"

definition parquet_read_options_default ::
  "('b, 'o, 'k, 'w, 'ds, 'sc, 'a, 'dt, 's) storage_lib \<Rightarrow> 'o parquet_read_options" where
  "parquet_read_options_default lib = \<lparr>po_arrow_options = pq_default_options lib, po_batch_size = None\<rparr>"

definition parquet_apply_read_options ::
  "('b, 'o, 'k, 'w, 'ds, 'sc, 'a, 'dt, 's) storage_lib \<Rightarrow> 'k \<Rightarrow> 'o parquet_read_options \<Rightarrow> 'k" where
  "parquet_apply_read_options lib builder options =
     (case po_batch_size options of
        Some batch_size \<Rightarrow> pq_with_batch_size lib batch_size builder
      | None \<Rightarrow> builder)"

definition parquet_open ::
  "('b, 'o, 'k, 'w, 'ds, 'sc, 'a, 'dt, 's) storage_lib \<Rightarrow> path \<Rightarrow> 'o parquet_read_options \<Rightarrow> 's
     \<Rightarrow> storage_error + 'k" where
  "parquet_open lib path options s =
     rbind (io_error (fl_open lib path s)) (\<lambda>file.
     rbind (map_err StorageParquet (pq_new_with_options lib file (po_arrow_options options))) (\<lambda>builder.
       Inr (parquet_apply_read_options lib builder options)))"

definition parquet_read_with_options ::
  "('b, 'o, 'k, 'w, 'ds, 'sc, 'a, 'dt, 's) storage_lib \<Rightarrow> path \<Rightarrow> 'o parquet_read_options \<Rightarrow> 's
     \<Rightarrow> storage_error + 'b" where
  "parquet_read_with_options lib path options s =
     rbind (parquet_open lib path options s) (\<lambda>builder.
       let schema = pq_schema lib builder in
     rbind (map_err StorageParquet (pq_build lib builder)) (\<lambda>stream.
     rbind (map_err StorageParquet (mapM (\<lambda>item. item) stream)) (\<lambda>batches.
       case batches of
         [] \<Rightarrow> Inr (ar_new_empty lib schema)
       | [batch] \<Rightarrow> Inr batch
       | first # _ \<Rightarrow> map_err StorageArrow (ar_concat_batches lib (ar_schema lib first) batches))))"

definition parquet_read_stream ::
  "('b, 'o, 'k, 'w, 'ds, 'sc, 'a, 'dt, 's) storage_lib \<Rightarrow> path \<Rightarrow> 'o parquet_read_options \<Rightarrow> 's
     \<Rightarrow> storage_error + 'b batch_stream" where
  "parquet_read_stream lib path options s =
     rbind (parquet_open lib path options s) (\<lambda>builder.
     rbind (map_err StorageParquet (pq_build lib builder)) (\<lambda>stream.
       Inr (map (map_err StorageParquet) stream)))"

definition parquet_read ::
  "('b, 'o, 'k, 'w, 'ds, 'sc, 'a, 'dt, 's) storage_lib \<Rightarrow> path \<Rightarrow> 's \<Rightarrow> storage_error + 'b" where
  "parquet_read lib path s = parquet_read_with_options lib path (parquet_read_options_default lib) s"

text \<open>Writing: the file is created (emptied) first; what the writer has flushed is what the file
  holds when the call returns, also on an error.\<close>

definition parquet_close ::
  "('b, 'o, 'k, 'w, 'ds, 'sc, 'a, 'dt, 's) storage_lib \<Rightarrow> 'w \<Rightarrow> (storage_error + unit) \<times> 'w" where
  "parquet_close lib w = (case pq_close lib w of (r, w') \<Rightarrow> (map_err StorageParquet r, w'))"

fun parquet_write_items ::
  "('b, 'o, 'k, 'w, 'ds, 'sc, 'a, 'dt, 's) storage_lib \<Rightarrow> arrow_schema \<Rightarrow> 'b batch_stream \<Rightarrow> 'w
     \<Rightarrow> (storage_error + unit) \<times> 'w" where
  "parquet_write_items lib expected_schema [] w = parquet_close lib w"
| "parquet_write_items lib expected_schema (Inl e # rest) w = (Inl e, w)"
| "parquet_write_items lib expected_schema (Inr batch # rest) w =
     (if ar_schema lib batch \<noteq> expected_schema
      then (Inl (Unsupported (SchemaMismatch expected_schema (ar_schema lib batch))), w)
      else case pq_write lib batch w of
             (Inl e, w') \<Rightarrow> (Inl (StorageParquet e), w')
           | (Inr _, w') \<Rightarrow> parquet_write_items lib expected_schema rest w')"

definition parquet_with_writer ::
  "('b, 'o, 'k, 'w, 'ds, 'sc, 'a, 'dt, 's) storage_lib \<Rightarrow> arrow_schema \<Rightarrow> writer_properties \<Rightarrow> path
     \<Rightarrow> ('w \<Rightarrow> (storage_error + unit) \<times> 'w) \<Rightarrow> 's \<Rightarrow> (storage_error + unit) \<times> 's" where
  "parquet_with_writer lib schema options path body s =
     (case pq_try_new lib schema options of
        Inl e \<Rightarrow> (Inl (StorageParquet e), s)
      | Inr w \<Rightarrow> (case body w of (r, w') \<Rightarrow> (r, fl_write lib path (pq_flushed lib w') s)))"

definition parquet_write_with_options ::
  "('b, 'o, 'k, 'w, 'ds, 'sc, 'a, 'dt, 's) storage_lib \<Rightarrow> 'b \<Rightarrow> path \<Rightarrow> writer_properties \<Rightarrow> 's
     \<Rightarrow> (storage_error + unit) \<times> 's" where
  "parquet_write_with_options lib batch path options s =
     (case fl_create lib path s of
        Inl e \<Rightarrow> (Inl (IoError (ExternalMsg e)), s)
      | Inr s1 \<Rightarrow> parquet_with_writer lib (ar_schema lib batch) options path
          (\<lambda>w. case pq_write lib batch w of
                 (Inl e, w') \<Rightarrow> (Inl (StorageParquet e), w')
               | (Inr _, w') \<Rightarrow> parquet_close lib w') s1)"

definition parquet_write_stream ::
  "('b, 'o, 'k, 'w, 'ds, 'sc, 'a, 'dt, 's) storage_lib \<Rightarrow> 'b batch_stream \<Rightarrow> path \<Rightarrow> writer_properties \<Rightarrow> 's
     \<Rightarrow> (storage_error + unit) \<times> 's" where
  "parquet_write_stream lib stream path options s =
     (case fl_create lib path s of
        Inl e \<Rightarrow> (Inl (IoError (ExternalMsg e)), s)
      | Inr s1 \<Rightarrow>
          (case stream of
             [] \<Rightarrow> (Inl (InvalidInput StreamEmpty), s1)
           | Inl e # _ \<Rightarrow> (Inl e, s1)
           | Inr first # rest \<Rightarrow>
               parquet_with_writer lib (ar_schema lib first) options path
                 (\<lambda>w. case pq_write lib first w of
                        (Inl e, w') \<Rightarrow> (Inl (StorageParquet e), w')
                      | (Inr _, w') \<Rightarrow> parquet_write_items lib (ar_schema lib first) rest w') s1))"

definition parquet_write ::
  "('b, 'o, 'k, 'w, 'ds, 'sc, 'a, 'dt, 's) storage_lib \<Rightarrow> 'b \<Rightarrow> path \<Rightarrow> 's \<Rightarrow> (storage_error + unit) \<times> 's" where
  "parquet_write lib batch path s = parquet_write_with_options lib batch path writer_properties_default s"

section \<open>Lance\<close>

record lance_read_options =
  lo_batch_size :: "64 word option"
  lo_columns :: "string list option"
  lo_filter :: "string option"
  lo_limit :: "i64 option"
  lo_offset :: "i64 option"
  lo_scan_in_order :: "bool option"
  lo_io_buffer_size :: "64 word option"

definition lance_read_options_default :: lance_read_options where
  "lance_read_options_default = \<lparr>lo_batch_size = None, lo_columns = None, lo_filter = None,
     lo_limit = None, lo_offset = None, lo_scan_in_order = None, lo_io_buffer_size = None\<rparr>"

definition lance_apply_read_options ::
  "('b, 'o, 'k, 'w, 'ds, 'sc, 'a, 'dt, 's) storage_lib \<Rightarrow> lance_read_options \<Rightarrow> 'sc \<Rightarrow> storage_error + 'sc" where
  "lance_apply_read_options lib options scanner =
     (let sc1 = (case lo_batch_size options of Some n \<Rightarrow> sc_batch_size lib n scanner | None \<Rightarrow> scanner) in
      rbind (case lo_columns options of
               Some columns \<Rightarrow> map_err StorageLance (sc_project lib columns sc1) | None \<Rightarrow> Inr sc1) (\<lambda>sc2.
      rbind (case lo_filter options of
               Some f \<Rightarrow> map_err StorageLance (sc_filter lib f sc2) | None \<Rightarrow> Inr sc2) (\<lambda>sc3.
      rbind (if lo_limit options \<noteq> None \<or> lo_offset options \<noteq> None
             then map_err StorageLance (sc_limit lib (lo_limit options) (lo_offset options) sc3)
             else Inr sc3) (\<lambda>sc4.
        let sc5 = (case lo_scan_in_order options of Some b \<Rightarrow> sc_scan_in_order lib b sc4 | None \<Rightarrow> sc4);
            sc6 = (case lo_io_buffer_size options of Some n \<Rightarrow> sc_io_buffer_size lib n sc5 | None \<Rightarrow> sc5)
        in Inr sc6))))"

definition lance_scanner ::
  "('b, 'o, 'k, 'w, 'ds, 'sc, 'a, 'dt, 's) storage_lib \<Rightarrow> path \<Rightarrow> lance_read_options \<Rightarrow> 's \<Rightarrow> storage_error + 'sc" where
  "lance_scanner lib path options s =
     rbind (path_to_utf8 path) (\<lambda>uri.
     rbind (map_err StorageLance (ld_open lib uri s)) (\<lambda>dataset.
       lance_apply_read_options lib options (ld_scan lib dataset)))"

definition lance_read_with_options ::
  "('b, 'o, 'k, 'w, 'ds, 'sc, 'a, 'dt, 's) storage_lib \<Rightarrow> path \<Rightarrow> lance_read_options \<Rightarrow> 's \<Rightarrow> storage_error + 'b" where
  "lance_read_with_options lib path options s =
     rbind (lance_scanner lib path options s) (\<lambda>scanner.
       map_err StorageLance (sc_try_into_batch lib scanner))"

definition lance_read_stream ::
  "('b, 'o, 'k, 'w, 'ds, 'sc, 'a, 'dt, 's) storage_lib \<Rightarrow> path \<Rightarrow> lance_read_options \<Rightarrow> 's \<Rightarrow> storage_error + 'b batch_stream" where
  "lance_read_stream lib path options s =
     rbind (lance_scanner lib path options s) (\<lambda>scanner.
     rbind (map_err StorageLance (sc_try_into_stream lib scanner)) (\<lambda>stream.
       Inr (map (map_err StorageLance) stream)))"

definition lance_read :: "('b, 'o, 'k, 'w, 'ds, 'sc, 'a, 'dt, 's) storage_lib \<Rightarrow> path \<Rightarrow> 's \<Rightarrow> storage_error + 'b" where
  "lance_read lib path s = lance_read_with_options lib path lance_read_options_default s"

definition lance_write_with_options ::
  "('b, 'o, 'k, 'w, 'ds, 'sc, 'a, 'dt, 's) storage_lib \<Rightarrow> 'b \<Rightarrow> path \<Rightarrow> write_params \<Rightarrow> 's \<Rightarrow> (storage_error + unit) \<times> 's" where
  "lance_write_with_options lib batch path options s =
     (case path_to_utf8 path of
        Inl e \<Rightarrow> (Inl e, s)
      | Inr uri \<Rightarrow> (case ld_write lib (ar_schema lib batch) [Inr batch] uri options s of
                      (r, s') \<Rightarrow> (map_err StorageLance r, s')))"

text \<open>The items the pump task sends for the rest of the stream: batches of the expected schema,
  up to and including the first error.\<close>

fun pump_items :: "('b \<Rightarrow> arrow_schema) \<Rightarrow> arrow_schema \<Rightarrow> 'b batch_stream \<Rightarrow> (arrow_error + 'b) list" where
  "pump_items schema_of expected_schema [] = []"
| "pump_items schema_of expected_schema (Inr batch # rest) =
     (if schema_of batch \<noteq> expected_schema
      then [Inl (ExternalError (InvalidInput (SchemaMismatch expected_schema (schema_of batch))))]
      else Inr batch # pump_items schema_of expected_schema rest)"
| "pump_items schema_of expected_schema (Inl err # rest) = [Inl (ExternalError err)]"

text \<open>The dataset writer pulls the first batch and then what arrives on the channel; theory
  \<open>Pump\<close> shows that this is the list \<open>pump_items\<close> gives, whatever the interleaving. A panic of
  one of the two tasks (a join error) is outside the model.\<close>

definition lance_write_stream ::
  "('b, 'o, 'k, 'w, 'ds, 'sc, 'a, 'dt, 's) storage_lib \<Rightarrow> 'b batch_stream \<Rightarrow> path \<Rightarrow> write_params \<Rightarrow> 's \<Rightarrow> (storage_error + unit) \<times> 's" where
  "lance_write_stream lib stream path options s =
     (case path_to_utf8 path of
        Inl e \<Rightarrow> (Inl e, s)
      | Inr uri \<Rightarrow>
          (case stream of
             [] \<Rightarrow> (Inl (InvalidInput StreamEmpty), s)
           | Inl e # _ \<Rightarrow> (Inl e, s)
           | Inr first # rest \<Rightarrow>
               (let schema = ar_schema lib first in
                case ld_write lib schema (Inr first # pump_items (ar_schema lib) schema rest) uri options s of
                  (r, s') \<Rightarrow> (map_err StorageLance r, s'))))"

definition lance_write :: "('b, 'o, 'k, 'w, 'ds, 'sc, 'a, 'dt, 's) storage_lib \<Rightarrow> 'b \<Rightarrow> path \<Rightarrow> 's \<Rightarrow> (storage_error + unit) \<times> 's" where
  "lance_write lib batch path s = lance_write_with_options lib batch path write_params_default s"

section \<open>Vortex\<close>

record 'dt vortex_read_options =
  vr_initial_read_size :: "64 word option"
  vr_segment_cache :: "bool option"
  vr_dtype :: "'dt option"

definition vortex_read_options_default :: "'dt vortex_read_options" where
  "vortex_read_options_default = \<lparr>vr_initial_read_size = None, vr_segment_cache = None, vr_dtype = None\<rparr>"

definition vortex_apply_read_options :: "'dt vortex_read_options \<Rightarrow> vortex_open_options \<times> 'dt option" where
  "vortex_apply_read_options options =
     (let oo1 = \<lparr>oo_initial_read_size = None, oo_segment_cache = True\<rparr>;
          oo2 = (case vr_initial_read_size options of Some n \<Rightarrow> oo1\<lparr>oo_initial_read_size := Some n\<rparr> | None \<Rightarrow> oo1);
          oo3 = (case vr_segment_cache options of
                   Some segment_cache \<Rightarrow> if \<not> segment_cache then oo2\<lparr>oo_segment_cache := False\<rparr> else oo2
                 | None \<Rightarrow> oo2)
      in (oo3, vr_dtype options))"

definition vortex_scan ::
  "('b, 'o, 'k, 'w, 'ds, 'sc, 'a, 'dt, 's) storage_lib \<Rightarrow> path \<Rightarrow> 'dt vortex_read_options \<Rightarrow> 's \<Rightarrow> storage_error + ('dt vortex_error + 'a) list" where
  "vortex_scan lib path options s =
     rbind (path_to_utf8 path) (\<lambda>path_str.
       case vortex_apply_read_options options of
         (oo, dtype) \<Rightarrow> map_err StorageVortex (vx_open_scan lib oo dtype path_str s))"

definition vortex_read_with_options ::
  "('b, 'o, 'k, 'w, 'ds, 'sc, 'a, 'dt, 's) storage_lib \<Rightarrow> path \<Rightarrow> 'dt vortex_read_options \<Rightarrow> 's \<Rightarrow> storage_error + 'b" where
  "vortex_read_with_options lib path options s =
     rbind (vortex_scan lib path options s) (\<lambda>stream.
     rbind (map_err StorageVortex (vx_read_all lib stream)) (\<lambda>arr.
       map_err StorageVortex (vx_to_batch lib arr)))"

definition vortex_read_stream ::
  "('b, 'o, 'k, 'w, 'ds, 'sc, 'a, 'dt, 's) storage_lib \<Rightarrow> path \<Rightarrow> 'dt vortex_read_options \<Rightarrow> 's \<Rightarrow> storage_error + 'b batch_stream" where
  "vortex_read_stream lib path options s =
     rbind (vortex_scan lib path options s) (\<lambda>stream.
       Inr (map (\<lambda>result. rbind (map_err (\<lambda>e. StorageVortex (vx_message lib e)) result)
                  (\<lambda>arr. map_err StorageVortex (vx_to_batch lib arr))) stream))"

definition vortex_read :: "('b, 'o, 'k, 'w, 'ds, 'sc, 'a, 'dt, 's) storage_lib \<Rightarrow> path \<Rightarrow> 's \<Rightarrow> storage_error + 'b" where
  "vortex_read lib path s = vortex_read_with_options lib path vortex_read_options_default s"

definition vortex_put ::
  "('b, 'o, 'k, 'w, 'ds, 'sc, 'a, 'dt, 's) storage_lib \<Rightarrow> 'dt \<Rightarrow> ('dt vortex_error + 'a) list \<Rightarrow> path \<Rightarrow> vortex_write_options \<Rightarrow> 's \<Rightarrow> (storage_error + unit) \<times> 's" where
  "vortex_put lib dtype items path options s =
     (case fl_create lib path s of
        Inl e \<Rightarrow> (Inl (IoError (ExternalMsg e)), s)
      | Inr s1 \<Rightarrow> (case vx_write lib options dtype items of
                     (r, content) \<Rightarrow> (map_err StorageVortex r, fl_write lib path content s1)))"

definition vortex_write_with_options ::
  "('b, 'o, 'k, 'w, 'ds, 'sc, 'a, 'dt, 's) storage_lib \<Rightarrow> 'b \<Rightarrow> path \<Rightarrow> vortex_write_options \<Rightarrow> 's \<Rightarrow> (storage_error + unit) \<times> 's" where
  "vortex_write_with_options lib batch path options s =
     (let arr = vx_from_arrow lib batch in vortex_put lib (vx_dtype lib arr) [Inr arr] path options s)"

definition vortex_item ::
  "('b \<Rightarrow> 'a) \<Rightarrow> ('a \<Rightarrow> 'dt) \<Rightarrow> 'dt \<Rightarrow> storage_error + 'b \<Rightarrow> 'dt vortex_error + 'a" where
  "vortex_item from_arrow dtype_of expected_dtype item =
     (case item of
        Inr batch \<Rightarrow>
          (let arr = from_arrow batch in
           if dtype_of arr \<noteq> expected_dtype then Inl (DtypeMismatch expected_dtype (dtype_of arr)) else Inr arr)
      | Inl err \<Rightarrow> Inl (SourceError err))"

definition vortex_write_stream ::
  "('b, 'o, 'k, 'w, 'ds, 'sc, 'a, 'dt, 's) storage_lib \<Rightarrow> 'b batch_stream \<Rightarrow> path \<Rightarrow> vortex_write_options \<Rightarrow> 's \<Rightarrow> (storage_error + unit) \<times> 's" where
  "vortex_write_stream lib stream path options s =
     (case stream of
        [] \<Rightarrow> (Inl (InvalidInput StreamEmpty), s)
      | Inl e # _ \<Rightarrow> (Inl e, s)
      | Inr first # rest \<Rightarrow>
          (let first_array = vx_from_arrow lib first;
               dtype = vx_dtype lib first_array
           in vortex_put lib dtype
                (Inr first_array # map (vortex_item (vx_from_arrow lib) (vx_dtype lib) dtype) rest) path options s))"

definition vortex_write :: "('b, 'o, 'k, 'w, 'ds, 'sc, 'a, 'dt, 's) storage_lib \<Rightarrow> 'b \<Rightarrow> path \<Rightarrow> 's \<Rightarrow> (storage_error + unit) \<times> 's" where
  "vortex_write lib batch path s = vortex_write_with_options lib batch path vortex_write_options_default s"

section \<open>Dispatch over the formats\<close>

datatype ('o, 'dt) format_read_options =
    ReadParquet "'o parquet_read_options"
  | ReadLance lance_read_options
  | ReadVortex "'dt vortex_read_options"

datatype format_write_options =
    WriteParquet writer_properties
  | WriteLance write_params
  | WriteVortex vortex_write_options

datatype reader_enum = ParquetReader | LanceReader | VortexReader
datatype writer_enum = ParquetWriter | LanceWriter | VortexWriter

fun reader_new :: "Format \<Rightarrow> reader_enum" where
  "reader_new Parquet = ParquetReader"
| "reader_new Lance = LanceReader"
| "reader_new Vortex = VortexReader"

fun writer_new :: "Format \<Rightarrow> writer_enum" where
  "writer_new Parquet = ParquetWriter"
| "writer_new Lance = LanceWriter"
| "writer_new Vortex = VortexWriter"

definition reader_from_str :: "string \<Rightarrow> storage_error + reader_enum" where
  "reader_from_str format_str = rbind (format_from_str format_str) (\<lambda>format. Inr (reader_new format))"

definition writer_from_str :: "string \<Rightarrow> storage_error + writer_enum" where
  "writer_from_str format_str = rbind (format_from_str format_str) (\<lambda>format. Inr (writer_new format))"

fun reader_read_with_options ::
  "('b, 'o, 'k, 'w, 'ds, 'sc, 'a, 'dt, 's) storage_lib \<Rightarrow> reader_enum \<Rightarrow> path \<Rightarrow> ('o, 'dt) format_read_options \<Rightarrow> 's \<Rightarrow> storage_error + 'b" where
  "reader_read_with_options lib ParquetReader path (ReadParquet options) s = parquet_read_with_options lib path options s"
| "reader_read_with_options lib LanceReader path (ReadLance options) s = lance_read_with_options lib path options s"
| "reader_read_with_options lib VortexReader path (ReadVortex options) s = vortex_read_with_options lib path options s"
| "reader_read_with_options lib _ path _ s = Inl (Unsupported OptionsMismatchReader)"

fun reader_read_stream ::
  "('b, 'o, 'k, 'w, 'ds, 'sc, 'a, 'dt, 's) storage_lib \<Rightarrow> reader_enum \<Rightarrow> path \<Rightarrow> ('o, 'dt) format_read_options \<Rightarrow> 's \<Rightarrow> storage_error + 'b batch_stream" where
  "reader_read_stream lib ParquetReader path (ReadParquet options) s = parquet_read_stream lib path options s"
| "reader_read_stream lib LanceReader path (ReadLance options) s = lance_read_stream lib path options s"
| "reader_read_stream lib VortexReader path (ReadVortex options) s = vortex_read_stream lib path options s"
| "reader_read_stream lib _ path _ s = Inl (Unsupported OptionsMismatchReader)"

fun reader_read :: "('b, 'o, 'k, 'w, 'ds, 'sc, 'a, 'dt, 's) storage_lib \<Rightarrow> reader_enum \<Rightarrow> path \<Rightarrow> 's \<Rightarrow> storage_error + 'b" where
  "reader_read lib ParquetReader path s = parquet_read lib path s"
| "reader_read lib LanceReader path s = lance_read lib path s"
| "reader_read lib VortexReader path s = vortex_read lib path s"

fun writer_write_with_options ::
  "('b, 'o, 'k, 'w, 'ds, 'sc, 'a, 'dt, 's) storage_lib \<Rightarrow> writer_enum \<Rightarrow> 'b \<Rightarrow> path \<Rightarrow> format_write_options \<Rightarrow> 's \<Rightarrow> (storage_error + unit) \<times> 's" where
  "writer_write_with_options lib ParquetWriter batch path (WriteParquet options) s = parquet_write_with_options lib batch path options s"
| "writer_write_with_options lib LanceWriter batch path (WriteLance options) s = lance_write_with_options lib batch path options s"
| "writer_write_with_options lib VortexWriter batch path (WriteVortex options) s = vortex_write_with_options lib batch path options s"
| "writer_write_with_options lib _ batch path _ s = (Inl (Unsupported OptionsMismatchWriter), s)"

fun writer_write_stream ::
  "('b, 'o, 'k, 'w, 'ds, 'sc, 'a, 'dt, 's) storage_lib \<Rightarrow> writer_enum \<Rightarrow> 'b batch_stream \<Rightarrow> path \<Rightarrow> format_write_options \<Rightarrow> 's \<Rightarrow> (storage_error + unit) \<times> 's" where
  "writer_write_stream lib ParquetWriter stream path (WriteParquet options) s = parquet_write_stream lib stream path options s"
| "writer_write_stream lib LanceWriter stream path (WriteLance options) s = lance_write_stream lib stream path options s"
| "writer_write_stream lib VortexWriter stream path (WriteVortex options) s = vortex_write_stream lib stream path options s"
| "writer_write_stream lib _ stream path _ s = (Inl (Unsupported OptionsMismatchWriter), s)"

fun writer_write :: "('b, 'o, 'k, 'w, 'ds, 'sc, 'a, 'dt, 's) storage_lib \<Rightarrow> writer_enum \<Rightarrow> 'b \<Rightarrow> path \<Rightarrow> 's \<Rightarrow> (storage_error + unit) \<times> 's" where
  "writer_write lib ParquetWriter batch path s = parquet_write lib batch path s"
| "writer_write lib LanceWriter batch path s = lance_write lib batch path s"
| "writer_write lib VortexWriter batch path s = vortex_write lib batch path s"

end
