(* ===== verification/Streams.thy ===== *)
theory Streams
  imports Storage
begin

text \<open>
  What readers and writers do with a stream of batches: the one-batch read of Parquet is the
  concatenation of its stream, the Parquet writer gets exactly the batches before the first
  error, and the three writers differ in what an empty stream does to the file.
\<close>

section \<open>A small concrete storage library\<close>

type_synonym tiny_batch = "arrow_schema \<times> bytes"
type_synonym tiny_store = "(path \<times> bytes) list"

definition tiny_storage ::
  "(tiny_batch, unit, bytes, bytes, unit, unit, tiny_batch, arrow_schema, tiny_store) storage_lib" where
  "tiny_storage =
     \<lparr>ar_schema = fst,
      ar_new_empty = (\<lambda>s. (s, [])),
      ar_concat_batches = (\<lambda>s bs. Inr (s, concat (map snd bs))),
      fl_open = (\<lambda>p s. case map_of s p of Some c \<Rightarrow> Inr c | None \<Rightarrow> Inl ''not found''),
      fl_create = (\<lambda>p s. Inr ((p, []) # s)),
      fl_write = (\<lambda>p c s. (p, c) # s),
      pq_default_options = (),
      pq_new_with_options = (\<lambda>c _. Inr c),
      pq_with_batch_size = (\<lambda>_ c. c),
      pq_schema = (\<lambda>_. []),
      pq_build = (\<lambda>c. Inr (map (\<lambda>x. Inr ([], [x])) c)),
      pq_try_new = (\<lambda>_ _. Inr []),
      pq_write = (\<lambda>b w. (Inr (), w @ snd b)),
      pq_close = (\<lambda>w. (Inr (), w)),
      pq_flushed = (\<lambda>w. w),
      ld_open = (\<lambda>_ _. Inr ()),
      ld_scan = (\<lambda>_. ()),
      sc_batch_size = (\<lambda>_ sc. sc),
      sc_project = (\<lambda>_ sc. Inr sc),
      sc_filter = (\<lambda>_ sc. Inr sc),
      sc_limit = (\<lambda>_ _ sc. Inr sc),
      sc_scan_in_order = (\<lambda>_ sc. sc),
      sc_io_buffer_size = (\<lambda>_ sc. sc),
      sc_try_into_batch = (\<lambda>_. Inr ([], [])),
      sc_try_into_stream = (\<lambda>_. Inr []),
      ld_write = (\<lambda>_ items uri _ s.
        if list_all (\<lambda>i. \<not> isl i) items then (Inr (), (uri, concat (map (\<lambda>i. snd (projr i)) items)) # s)
        else (Inl ''item'', s)),
      vx_from_arrow = (\<lambda>b. b),
      vx_dtype = fst,
      vx_open_scan = (\<lambda>_ _ _ _. Inr []),
      vx_read_all = (\<lambda>_. Inl ''empty''),
      vx_to_batch = (\<lambda>a. Inr a),
      vx_message = (\<lambda>_. ''vortex''),
      vx_write = (\<lambda>_ _ items.
        if list_all (\<lambda>i. \<not> isl i) items then (Inr (), concat (map (\<lambda>i. snd (projr i)) items))
        else (Inl ''item'', []))\<rparr>"

section \<open>Reading\<close>

text \<open>What is used of the Arrow library: a new empty batch has no rows, and concatenation keeps
  the rows in order.\<close>

definition concat_keeps_rows ::
  "('b, 'o, 'k, 'w, 'ds, 'sc, 'a, 'dt, 's) storage_lib \<Rightarrow> ('b \<Rightarrow> 'r list) \<Rightarrow> bool" where
  "concat_keeps_rows lib rows \<longleftrightarrow> (\<forall>schema. rows (ar_new_empty lib schema) = [])
     \<and> (\<forall>schema bs b. ar_concat_batches lib schema bs = Inr b \<longrightarrow> rows b = concat (map rows bs))"

lemma mapM_id_Inr: "mapM (\<lambda>item. item) items = Inr bs \<longleftrightarrow> items = map Inr bs"
  by (induction items arbitrary: bs) (auto simp: result_simps)

lemma mapM_id_Inl: "mapM (\<lambda>item. item) items = Inl e \<Longrightarrow> \<exists>bs rest. items = map Inr bs @ Inl e # rest"
proof (induction items)
  case (Cons i items)
  show ?case
  proof (cases i)
    case (Inl e')
    with Cons.prems show ?thesis by (intro exI [of _ "[]"] exI [of _ items]) simp
  next
    case (Inr b)
    with Cons.prems have "mapM (\<lambda>item. item) items = Inl e" by (cases "mapM (\<lambda>item. item) items") simp_all
    with Cons.IH obtain bs rest where "items = map Inr bs @ Inl e # rest" by blast
    with Inr show ?thesis by (intro exI [of _ "b # bs"]) simp
  qed
qed simp

lemma find_first_error: "find isl (map (map_err h) (map Inr bs @ Inl err # rest)) = Some (Inl (h err))"
  by (induction bs) simp_all



section \<open>Writing a stream\<close>

definition item_ok :: "('b \<Rightarrow> arrow_schema) \<Rightarrow> arrow_schema \<Rightarrow> storage_error + 'b \<Rightarrow> bool" where
  "item_ok schema_of expected i \<longleftrightarrow> (case i of Inr b \<Rightarrow> schema_of b = expected | Inl _ \<Rightarrow> False)"

definition item_error :: "('b \<Rightarrow> arrow_schema) \<Rightarrow> arrow_schema \<Rightarrow> storage_error + 'b \<Rightarrow> storage_error" where
  "item_error schema_of expected i =
     (case i of Inr b \<Rightarrow> Unsupported (SchemaMismatch expected (schema_of b)) | Inl e \<Rightarrow> e)"

text \<open>What the writer has seen after a list of items.\<close>

definition written ::
  "('b, 'o, 'k, 'w, 'ds, 'sc, 'a, 'dt, 's) storage_lib \<Rightarrow> 'b batch_stream \<Rightarrow> 'w \<Rightarrow> 'w" where
  "written lib items w = fold (\<lambda>i w. snd (pq_write lib (projr i) w)) items w"

lemma item_simps [simp]:
  "item_ok f e (Inr b) \<longleftrightarrow> f b = e" "\<not> item_ok f e (Inl err)"
  "item_error f e (Inr b) = Unsupported (SchemaMismatch e (f b))" "item_error f e (Inl err) = err"
  by (simp_all add: item_ok_def item_error_def)

lemma written_simps [simp]:
  "written lib [] w = w" "written lib (Inr b # items) w = written lib items (snd (pq_write lib b w))"
  by (simp_all add: written_def)

lemma parquet_write_items_exact:
  assumes "\<And>b w. fst (pq_write lib b w) = Inr ()"
  shows "parquet_write_items lib expected items w =
     (let good = takeWhile (item_ok (ar_schema lib) expected) items;
          w' = written lib good w
      in case dropWhile (item_ok (ar_schema lib) expected) items of
           [] \<Rightarrow> parquet_close lib w'
         | bad # _ \<Rightarrow> (Inl (item_error (ar_schema lib) expected bad), w'))"
proof (induction items arbitrary: w)
  case (Cons i items)
  show ?case
  proof (cases i)
    case (Inr b)
    obtain w' where "pq_write lib b w = (Inr (), w')" using assms [of b w] by (cases "pq_write lib b w") auto
    with Inr Cons.IH [of w'] show ?thesis
      by (cases "dropWhile (item_ok (ar_schema lib) expected) items")
         (simp_all add: Let_def del: dropWhile_eq_Nil_conv)
  qed simp
qed simp


definition tiny_mismatch :: "tiny_batch batch_stream" where
  "tiny_mismatch = [Inr ([], [1, 2]), Inr ([], [3]), Inr ([Field ''x'' Int8 True], [4]), Inr ([], [5])]"


text \<open>C30. An empty stream is refused by all three writers, but not alike: Lance and Vortex leave
  the storage as it was, while Parquet has created the file before it looks at the stream, so
  a file that was there is emptied. The hypothesis says that a created file is empty.\<close>

theorem empty_stream_refused:
  assumes "path_to_utf8 path = Inr uri" and "fl_create lib path s = Inr s1" and "fl_open lib path s1 = Inr []"
  shows "writer_write_stream lib LanceWriter [] path (WriteLance lo) s = (Inl (InvalidInput StreamEmpty), s)
    \<and> writer_write_stream lib VortexWriter [] path (WriteVortex vo) s = (Inl (InvalidInput StreamEmpty), s)
    \<and> fst (writer_write_stream lib ParquetWriter [] path (WriteParquet po) s) = Inl (InvalidInput StreamEmpty)
    \<and> fl_open lib path (snd (writer_write_stream lib ParquetWriter [] path (WriteParquet po) s)) = Inr []"
  using assms by (simp add: lance_write_stream_def vortex_write_stream_def parquet_write_stream_def)

theorem empty_stream_refused_witness:
  "fl_open tiny_storage [112] [([112], [1, 2, 3])] = Inr [1, 2, 3]
   \<and> fl_open tiny_storage [112] (snd (writer_write_stream tiny_storage ParquetWriter [] [112]
        (WriteParquet writer_properties_default) [([112], [1, 2, 3])])) = Inr []"
proof -
  have "path_to_utf8 [112] = Inr [112]" "fl_create tiny_storage [112] [([112], [1, 2, 3])] = Inr [([112], []), ([112], [1, 2, 3])]"
    "fl_open tiny_storage [112] [([112], []), ([112], [1, 2, 3])] = Inr []"
    "fl_open tiny_storage [112] [([112], [1, 2, 3])] = Inr [1, 2, 3]" by code_simp+
  from this(4) empty_stream_refused [OF this(1-3)] show ?thesis by blast
qed

section \<open>Options of another format\<close>

fun read_options_format :: "('o, 'dt) format_read_options \<Rightarrow> Format" where
  "read_options_format (ReadParquet _) = Parquet"
| "read_options_format (ReadLance _) = Lance"
| "read_options_format (ReadVortex _) = Vortex"

fun write_options_format :: "format_write_options \<Rightarrow> Format" where
  "write_options_format (WriteParquet _) = Parquet"
| "write_options_format (WriteLance _) = Lance"
| "write_options_format (WriteVortex _) = Vortex"

text \<open>Readers and writers made from a format name serve that format only: with the options of
  another format every call is refused before the storage is touched, for a name in any case.\<close>

lemma mismatched_options_refused:
  assumes "reader_from_str name = Inr r" and "writer_from_str name = Inr w"
    and "to_lowercase name \<noteq> format_as_str (read_options_format ro)"
    and "to_lowercase name \<noteq> format_as_str (write_options_format wo)"
  shows "reader_read_with_options lib r path ro s = Inl (Unsupported OptionsMismatchReader)
    \<and> reader_read_stream lib r path ro s = Inl (Unsupported OptionsMismatchReader)
    \<and> writer_write_with_options lib w b path wo s = (Inl (Unsupported OptionsMismatchWriter), s)
    \<and> writer_write_stream lib w stream path wo s = (Inl (Unsupported OptionsMismatchWriter), s)"
proof -
  from assms(1) obtain f where f: "format_from_str name = Inr f" "r = reader_new f"
    by (auto simp: reader_from_str_def result_simps)
  have low: "to_lowercase name = format_as_str f"
    using f(1) by (auto simp: format_from_str_def Let_def split: if_splits)
  have w: "w = writer_new f" using assms(2) f(1) by (simp add: writer_from_str_def)
  have "f \<noteq> read_options_format ro" "f \<noteq> write_options_format wo" using low assms(3,4) by auto
  then show ?thesis using f(2) w by (cases f; cases ro; cases wo) simp_all
qed

end
