(* ===== verification/Pump.thy ===== *)
theory Pump
  imports Storage "HOL-Library.Sublist"
begin

text \<open>
  The two tasks of \<open>LanceWriter::write_stream\<close> (\<open>storage/file_format/lance.rs\<close>): a pump that
  pulls batches from the source stream and sends them on a bounded channel, and the dataset
  writer that reads them through \<open>StreamRecordBatchReader\<close>. They run concurrently; here every
  interleaving is a run of a step relation. The channel of the runtime library is a parameter:
  its operations either go through or report that the task has to wait, and \<open>channel_ok\<close> says
  that it is a queue of bounded length.
\<close>

section \<open>The channel\<close>

record ('x, 'c) channel_lib =
  ch_new :: 'c
  ch_try_send :: "'x \<Rightarrow> 'c \<Rightarrow> 'c option"
  ch_try_recv :: "'c \<Rightarrow> ('x \<times> 'c) option"

definition channel_ok :: "nat \<Rightarrow> ('x, 'c) channel_lib \<Rightarrow> ('c \<Rightarrow> 'x list) \<Rightarrow> bool" where
  "channel_ok cap ch queue \<longleftrightarrow> queue (ch_new ch) = []
     \<and> (\<forall>x c. (case ch_try_send ch x c of
                 Some c' \<Rightarrow> length (queue c) < cap \<and> queue c' = queue c @ [x]
               | None \<Rightarrow> cap \<le> length (queue c)))
     \<and> (\<forall>c. (case ch_try_recv ch c of
               Some (x, c') \<Rightarrow> queue c = x # queue c'
             | None \<Rightarrow> queue c = []))"

section \<open>States and steps\<close>

text \<open>The pump is about to pull the next batch, waits to send an item, or has returned (which
  drops the sender).\<close>

datatype 'b pump_pc = Pulling | Sending "arrow_error + 'b" | Returned

record ('b, 'c) pump_state =
  ps_source :: "'b batch_stream"
  ps_pump :: "'b pump_pc"
  ps_chan :: 'c
  ps_first :: "'b option"
  ps_delivered :: "(arrow_error + 'b) list"
  ps_open :: bool
  ps_ended :: bool

definition pump_init :: "('x, 'c) channel_lib \<Rightarrow> 'b \<Rightarrow> 'b batch_stream \<Rightarrow> ('b, 'c) pump_state" where
  "pump_init ch first rest =
     \<lparr>ps_source = rest, ps_pump = Pulling, ps_chan = ch_new ch, ps_first = Some first,
      ps_delivered = [], ps_open = True, ps_ended = False\<rparr>"

definition pump_item :: "('b \<Rightarrow> arrow_schema) \<Rightarrow> arrow_schema \<Rightarrow> storage_error + 'b \<Rightarrow> arrow_error + 'b" where
  "pump_item schema_of expected_schema item =
     (case item of
        Inr batch \<Rightarrow>
          if schema_of batch \<noteq> expected_schema
          then Inl (ExternalError (InvalidInput (SchemaMismatch expected_schema (schema_of batch))))
          else Inr batch
      | Inl err \<Rightarrow> Inl (ExternalError err))"

definition after_send :: "arrow_error + 'b \<Rightarrow> 'b pump_pc" where
  "after_send item = (if isl item then Returned else Pulling)"

text \<open>The reader's \<open>next\<close>: the first batch once, then whatever the channel yields; \<open>None\<close> when the
  channel is drained and the sender is gone. The dataset writer may drop the reader at any
  time, after which a send fails and the pump returns.\<close>

inductive pump_step ::
  "(arrow_error + 'b, 'c) channel_lib \<Rightarrow> ('b \<Rightarrow> arrow_schema) \<Rightarrow> arrow_schema
     \<Rightarrow> ('b, 'c) pump_state \<Rightarrow> ('b, 'c) pump_state \<Rightarrow> bool"
  for ch schema_of expected where
  pull: "pump_step ch schema_of expected s (s\<lparr>ps_source := rest, ps_pump := Sending (pump_item schema_of expected item)\<rparr>)"
    if "ps_pump s = Pulling" and "ps_source s = item # rest"
| pull_end: "pump_step ch schema_of expected s (s\<lparr>ps_pump := Returned\<rparr>)"
    if "ps_pump s = Pulling" and "ps_source s = []"
| send: "pump_step ch schema_of expected s (s\<lparr>ps_chan := c, ps_pump := after_send item\<rparr>)"
    if "ps_pump s = Sending item" and "ps_open s" and "ch_try_send ch item (ps_chan s) = Some c"
| send_closed: "pump_step ch schema_of expected s (s\<lparr>ps_pump := Returned\<rparr>)"
    if "ps_pump s = Sending item" and "\<not> ps_open s"
| next_first: "pump_step ch schema_of expected s (s\<lparr>ps_first := None, ps_delivered := ps_delivered s @ [Inr b]\<rparr>)"
    if "ps_open s" and "\<not> ps_ended s" and "ps_first s = Some b"
| next_recv: "pump_step ch schema_of expected s (s\<lparr>ps_chan := c, ps_delivered := ps_delivered s @ [x]\<rparr>)"
    if "ps_open s" and "\<not> ps_ended s" and "ps_first s = None" and "ch_try_recv ch (ps_chan s) = Some (x, c)"
| next_end: "pump_step ch schema_of expected s (s\<lparr>ps_ended := True\<rparr>)"
    if "ps_open s" and "\<not> ps_ended s" and "ps_first s = None" and "ch_try_recv ch (ps_chan s) = None"
      and "ps_pump s = Returned"
| drop_reader: "pump_step ch schema_of expected s (s\<lparr>ps_open := False\<rparr>)"
    if "ps_open s"

inductive_cases pump_stepE: "pump_step ch schema_of expected s s'"

section \<open>Invariant\<close>

definition still_to_send :: "('b \<Rightarrow> arrow_schema) \<Rightarrow> arrow_schema \<Rightarrow> ('b, 'c) pump_state \<Rightarrow> (arrow_error + 'b) list" where
  "still_to_send schema_of expected s =
     (case ps_pump s of
        Pulling \<Rightarrow> pump_items schema_of expected (ps_source s)
      | Sending x \<Rightarrow> x # (if isl x then [] else pump_items schema_of expected (ps_source s))
      | Returned \<Rightarrow> [])"

definition first_item :: "('b, 'c) pump_state \<Rightarrow> (arrow_error + 'b) list" where
  "first_item s = (case ps_first s of Some b \<Rightarrow> [Inr b] | None \<Rightarrow> [])"

definition pump_inv ::
  "nat \<Rightarrow> ('c \<Rightarrow> (arrow_error + 'b) list) \<Rightarrow> ('b \<Rightarrow> arrow_schema) \<Rightarrow> arrow_schema \<Rightarrow> (arrow_error + 'b) list
     \<Rightarrow> ('b, 'c) pump_state \<Rightarrow> bool" where
  "pump_inv cap queue schema_of expected full s \<longleftrightarrow>
     prefix (ps_delivered s) full \<and> length (queue (ps_chan s)) \<le> cap
     \<and> (ps_open s \<longrightarrow> ps_delivered s @ first_item s @ queue (ps_chan s) @ still_to_send schema_of expected s = full)
     \<and> (ps_ended s \<longrightarrow> ps_delivered s = full)"

lemma pump_items_Cons:
  "pump_items schema_of expected (item # rest) =
     (let x = pump_item schema_of expected item in x # (if isl x then [] else pump_items schema_of expected rest))"
  by (cases item) (simp_all add: pump_item_def)

lemma channel_send:
  "channel_ok cap ch queue \<Longrightarrow> ch_try_send ch x c = Some c' \<Longrightarrow> length (queue c) < cap \<and> queue c' = queue c @ [x]"
  unfolding channel_ok_def by (metis (mono_tags, lifting) option.simps(5))

lemma channel_recv:
  assumes "channel_ok cap ch queue"
  shows "ch_try_recv ch c = Some (x, c') \<Longrightarrow> queue c = x # queue c'"
    and "ch_try_recv ch c = None \<Longrightarrow> queue c = []"
proof -
  have "case ch_try_recv ch c of Some (x, c') \<Rightarrow> queue c = x # queue c' | None \<Rightarrow> queue c = []"
    using assms unfolding channel_ok_def by blast
  then show "ch_try_recv ch c = Some (x, c') \<Longrightarrow> queue c = x # queue c'" "ch_try_recv ch c = None \<Longrightarrow> queue c = []"
    by simp_all
qed

lemma still_to_send_frame [simp]:
  "still_to_send f e (s\<lparr>ps_first := x, ps_delivered := y\<rparr>) = still_to_send f e s"
  "still_to_send f e (s\<lparr>ps_chan := c, ps_delivered := y\<rparr>) = still_to_send f e s"
  by (simp_all add: still_to_send_def split: pump_pc.split)

lemma pump_inv_step:
  assumes ok: "channel_ok cap ch queue" and st: "pump_step ch schema_of expected s s'"
    and inv: "pump_inv cap queue schema_of expected full s"
  shows "pump_inv cap queue schema_of expected full s'"
  using st
proof cases
  case (pull item rest)
  then show ?thesis
    using inv by (auto simp: pump_inv_def still_to_send_def first_item_def pump_items_Cons Let_def split: if_splits)
next
  case pull_end
  then show ?thesis using inv by (simp add: pump_inv_def still_to_send_def first_item_def)
next
  case (send item c)
  then show ?thesis
    using inv channel_send [OF ok send(4)]
    by (auto simp: pump_inv_def still_to_send_def first_item_def after_send_def)
next
  case (send_closed item)
  then show ?thesis using inv by (simp add: pump_inv_def)
next
  case (next_first b)
  then show ?thesis
    using inv by (auto simp: pump_inv_def first_item_def prefix_def)
next
  case (next_recv x c)
  then show ?thesis
    using inv channel_recv(1) [OF ok next_recv(5)]
    by (auto simp: pump_inv_def first_item_def prefix_def)
next
  case next_end
  then show ?thesis
    using inv channel_recv(2) [OF ok next_end(5)] by (simp add: pump_inv_def still_to_send_def first_item_def)
next
  case drop_reader
  then show ?thesis using inv by (simp add: pump_inv_def)
qed

lemma pump_inv_run:
  assumes ok: "channel_ok cap ch queue" and run: "(pump_step ch schema_of expected)\<^sup>*\<^sup>* (pump_init ch first rest) s"
  shows "pump_inv cap queue schema_of expected (Inr first # pump_items schema_of expected rest) s"
  using run
proof (induction rule: rtranclp_induct)
  case base
  show ?case using ok by (simp add: pump_init_def pump_inv_def still_to_send_def first_item_def channel_ok_def)
next
  case (step s s')
  then show ?case using pump_inv_step [OF ok] by blast
qed

section \<open>Every run ends\<close>

definition pump_bound :: "('c \<Rightarrow> (arrow_error + 'b) list) \<Rightarrow> ('b, 'c) pump_state \<Rightarrow> nat" where
  "pump_bound queue s = 4 * length (ps_source s)
     + (case ps_pump s of Pulling \<Rightarrow> 1 | Sending _ \<Rightarrow> 3 | Returned \<Rightarrow> 0)
     + length (queue (ps_chan s)) + (if ps_first s = None then 0 else 1)
     + (if ps_open s then 1 else 0) + (if ps_ended s then 0 else 1)"

lemma pump_bound_decreases:
  assumes ok: "channel_ok cap ch queue" and st: "pump_step ch schema_of expected s s'"
  shows "pump_bound queue s' < pump_bound queue s"
  using st
proof cases
  case (send item c)
  then show ?thesis using channel_send [OF ok send(4)] by (simp add: pump_bound_def after_send_def)
next
  case (next_recv x c)
  then show ?thesis using channel_recv(1) [OF ok next_recv(5)] by (simp add: pump_bound_def)
qed (simp_all add: pump_bound_def)

lemma pump_runs_bounded:
  assumes ok: "channel_ok cap ch queue" and "(pump_step ch schema_of expected ^^ n) s s'"
  shows "n + pump_bound queue s' \<le> pump_bound queue s"
  using assms(2)
proof (induction n arbitrary: s')
  case (Suc n)
  then obtain t where t: "(pump_step ch schema_of expected ^^ n) s t" "pump_step ch schema_of expected t s'" by auto
  from Suc.IH [OF t(1)] pump_bound_decreases [OF ok t(2)] show ?case by linarith
qed simp

lemma pump_no_deadlock:
  assumes ok: "channel_ok cap ch queue" and "0 < cap" and "ps_open s" and "\<not> ps_ended s"
  shows "\<exists>s'. pump_step ch schema_of expected s s' \<and> ps_open s'"
proof (cases "ps_first s")
  case (Some b)
  then show ?thesis using assms(3,4) by (fastforce intro: pump_step.next_first)
next
  case None
  show ?thesis
  proof (cases "ch_try_recv ch (ps_chan s)")
    case (Some p)
    then show ?thesis using None assms(3,4) by (cases p) (fastforce intro: pump_step.next_recv)
  next
    case empty: None
    show ?thesis
    proof (cases "ps_pump s")
      case Pulling
      then show ?thesis
        using assms(3) by (cases "ps_source s") (fastforce intro: pump_step.pull pump_step.pull_end)+
    next
      case (Sending x)
      have "queue (ps_chan s) = []" using channel_recv(2) [OF ok empty] .
      moreover have "ch_try_send ch x (ps_chan s) = None \<Longrightarrow> cap \<le> length (queue (ps_chan s))"
        using ok unfolding channel_ok_def by (metis (mono_tags, lifting) option.simps(4))
      ultimately obtain c where "ch_try_send ch x (ps_chan s) = Some c" using assms(2) by fastforce
      with Sending show ?thesis using assms(3) by (fastforce intro: pump_step.send)
    next
      case Returned
      then show ?thesis using None empty assms(3,4) by (fastforce intro: pump_step.next_end)
    qed
  qed
qed

text \<open>C24. The dataset writer sees the stream exactly, whatever the interleaving of the two tasks:
  in every reachable state the items it has read are an initial part of the first batch
  followed by the batches of the rest up to and including the first error (a source error or a
  schema mismatch), the channel holds at most two items, and once the reader reports the end,
  the items read are all of them. This is the list the model of \<open>write_stream\<close> hands to the
  dataset writer.\<close>

theorem pump_delivers_stream:
  assumes "channel_ok 2 ch queue"
    and "(pump_step ch schema_of expected)\<^sup>*\<^sup>* (pump_init ch first rest) s"
  shows "prefix (ps_delivered s) (Inr first # pump_items schema_of expected rest)
    \<and> length (queue (ps_chan s)) \<le> 2
    \<and> (ps_ended s \<longrightarrow> ps_delivered s = Inr first # pump_items schema_of expected rest)"
  using pump_inv_run [OF assms] by (simp add: pump_inv_def)

text \<open>C25. The two tasks never deadlock and always end: every run from the start has at most four
  steps per item of the rest and four more, and as long as the writer has neither seen the end
  nor dropped the reader, a step of the pump or of the reader is possible; after the reader is
  dropped, the pump can return.\<close>

theorem pump_terminates:
  assumes "channel_ok 2 ch queue"
    and "(pump_step ch schema_of expected ^^ n) (pump_init ch first rest) s"
  shows "n \<le> 4 * length rest + 4
    \<and> (ps_open s \<and> \<not> ps_ended s \<longrightarrow> (\<exists>s'. pump_step ch schema_of expected s s' \<and> ps_open s'))
    \<and> (\<not> ps_open s \<and> ps_pump s \<noteq> Returned \<longrightarrow> (\<exists>s'. pump_step ch schema_of expected s s'))"
proof (intro conjI impI)
  have "queue (ch_new ch) = []" using assms(1) by (simp add: channel_ok_def)
  then show "n \<le> 4 * length rest + 4"
    using pump_runs_bounded [OF assms] by (simp add: pump_bound_def pump_init_def)
  show "\<exists>s'. pump_step ch schema_of expected s s' \<and> ps_open s'" if "ps_open s \<and> \<not> ps_ended s"
    using pump_no_deadlock [OF assms(1)] that by simp
  show "\<exists>s'. pump_step ch schema_of expected s s'" if "\<not> ps_open s \<and> ps_pump s \<noteq> Returned"
    using that by (cases "ps_pump s"; cases "ps_source s")
      (auto intro: pump_step.pull pump_step.pull_end pump_step.send_closed)
qed

section \<open>A concrete channel\<close>

definition list_channel :: "('x, 'x list) channel_lib" where
  "list_channel = \<lparr>ch_new = [],
     ch_try_send = (\<lambda>x c. if length c < 2 then Some (c @ [x]) else None),
     ch_try_recv = (\<lambda>c. case c of [] \<Rightarrow> None | x # xs \<Rightarrow> Some (x, xs))\<rparr>"

lemma list_channel_ok: "channel_ok 2 list_channel (\<lambda>c. c)"
  by (auto simp: channel_ok_def list_channel_def split: list.splits)

abbreviation demo_pump_step :: "(nat, (arrow_error + nat) list) pump_state \<Rightarrow> (nat, (arrow_error + nat) list) pump_state \<Rightarrow> bool" where
  "demo_pump_step \<equiv> pump_step list_channel (\<lambda>_. []) []"

text \<open>A run on a stream of two batches, the pump sending before the first batch is read.\<close>

lemma demo_pump_run:
  "(demo_pump_step ^^ 6) (pump_init list_channel 1 [Inr 2])
     \<lparr>ps_source = [], ps_pump = Returned, ps_chan = [], ps_first = None,
      ps_delivered = [Inr 1, Inr 2], ps_open = True, ps_ended = True\<rparr>"
proof -
  let ?s = "\<lambda>src pc c f dl e. \<lparr>ps_source = src, ps_pump = pc, ps_chan = c, ps_first = f, ps_delivered = dl,
     ps_open = True, ps_ended = e\<rparr> :: (nat, (arrow_error + nat) list) pump_state"
  have 1: "demo_pump_step (?s [Inr 2] Pulling [] (Some 1) [] False) (?s [] (Sending (Inr 2)) [] (Some 1) [] False)"
    using pump_step.pull [of "?s [Inr 2] Pulling [] (Some 1) [] False" "Inr 2" "[]" list_channel "\<lambda>_. []" "[]"]
    by (simp add: pump_item_def)
  have 2: "demo_pump_step (?s [] (Sending (Inr 2)) [] (Some 1) [] False) (?s [] Pulling [Inr 2] (Some 1) [] False)"
    using pump_step.send [of "?s [] (Sending (Inr 2)) [] (Some 1) [] False" "Inr 2" list_channel "[Inr 2]" "\<lambda>_. []" "[]"]
    by (simp add: list_channel_def after_send_def)
  have 3: "demo_pump_step (?s [] Pulling [Inr 2] (Some 1) [] False) (?s [] Returned [Inr 2] (Some 1) [] False)"
    using pump_step.pull_end [of "?s [] Pulling [Inr 2] (Some 1) [] False" list_channel "\<lambda>_. []" "[]"] by simp
  have 4: "demo_pump_step (?s [] Returned [Inr 2] (Some 1) [] False) (?s [] Returned [Inr 2] None [Inr 1] False)"
    using pump_step.next_first [of "?s [] Returned [Inr 2] (Some 1) [] False" 1 list_channel "\<lambda>_. []" "[]"] by simp
  have 5: "demo_pump_step (?s [] Returned [Inr 2] None [Inr 1] False) (?s [] Returned [] None [Inr 1, Inr 2] False)"
    using pump_step.next_recv [of "?s [] Returned [Inr 2] None [Inr 1] False" list_channel "Inr 2" "[]" "\<lambda>_. []" "[]"]
    by (simp add: list_channel_def)
  have 6: "demo_pump_step (?s [] Returned [] None [Inr 1, Inr 2] False) (?s [] Returned [] None [Inr 1, Inr 2] True)"
    using pump_step.next_end [of "?s [] Returned [] None [Inr 1, Inr 2] False" list_channel "\<lambda>_. []" "[]"]
    by (simp add: list_channel_def)
  have "pump_init list_channel 1 [Inr 2] = ?s [Inr 2] Pulling [] (Some 1) [] False"
    by (simp add: pump_init_def list_channel_def)
  moreover have 0: "(demo_pump_step ^^ 0) (?s [Inr 2] Pulling [] (Some 1) [] False) (?s [Inr 2] Pulling [] (Some 1) [] False)" by simp
  have "(demo_pump_step ^^ Suc (Suc (Suc (Suc (Suc (Suc 0))))))
      (?s [Inr 2] Pulling [] (Some 1) [] False) (?s [] Returned [] None [Inr 1, Inr 2] True)"
    by (rule relpowp_Suc_I [OF relpowp_Suc_I [OF relpowp_Suc_I [OF relpowp_Suc_I [OF relpowp_Suc_I
          [OF relpowp_Suc_I [OF 0 1] 2] 3] 4] 5] 6])
  moreover have "Suc (Suc (Suc (Suc (Suc (Suc 0))))) = 6" by simp
  ultimately show ?thesis by (simp only:)
qed

theorem pump_delivers_stream_witness:
  "prefix [Inr 1, Inr (2 :: nat)] (Inr 1 # pump_items (\<lambda>_. []) [] [Inr 2])
   \<and> [Inr 1, Inr (2 :: nat)] = Inr 1 # pump_items (\<lambda>_. []) [] [Inr 2]"
  using pump_delivers_stream [OF list_channel_ok relpowp_imp_rtranclp [OF demo_pump_run]] by simp

theorem pump_terminates_witness: "6 \<le> 4 * length [Inr 2 :: storage_error + nat] + 4"
  using pump_terminates [OF list_channel_ok demo_pump_run] by simp

end
