(* ===== verification/Queries.thy ===== *)
theory Queries
  imports History
begin

text \<open>
  The reads of the catalog, query by query. \<open>read_table\<close>, \<open>list_transaction_events\<close> and
  \<open>diff_table\<close> run each of their queries on the pool, outside any transaction, so commits of
  other clients may fall between two queries of one read. Here a read runs against a sequence of
  databases: its first query sees \<open>ds k\<close>, the next one \<open>ds (k + 1)\<close>, and so on, and the result
  carries the number of the next query. \<open>Atomicity\<close> compares these reads with those of
  \<open>History\<close>, which see one database.
\<close>

type_synonym db_run = "nat \<Rightarrow> db"

section \<open>One database per query\<close>

function walk_history_run ::
  "db_run \<Rightarrow> uuid \<Rightarrow> txn_id \<Rightarrow> txn_id list \<Rightarrow> nat \<Rightarrow> txn_id \<Rightarrow> catalog_error + bool \<times> nat" where
  "walk_history_run ds table_uuid target visited k cursor_txn =
     (if cursor_txn \<in> set visited then Inl (InvalidState ChainCycle)
      else if cursor_txn = target then Inr (True, k)
      else case select_txn table_uuid cursor_txn (ds k) of
        None \<Rightarrow> Inl (InvalidState ChainBroken)
      | Some row \<Rightarrow>
          (case x_parent_transaction_id row of
             Some parent_id \<Rightarrow> walk_history_run ds table_uuid target (cursor_txn # visited) (k + 1) parent_id
           | None \<Rightarrow> Inr (False, k + 1)))"
  by pat_completeness auto

lemma unseen_decreases: "c \<notin> set vs \<Longrightarrow> card (- insert c (set vs)) < card (- set vs)" for c :: txn_id
  by (intro psubset_card_mono) auto

termination walk_history_run
  by (relation "measure (\<lambda>(ds, tu, t, vs, k, c). card (- set vs))") (auto simp: unseen_decreases)

definition check_in_history_run ::
  "uuid \<Rightarrow> txn_id \<Rightarrow> txn_id \<Rightarrow> db_run \<Rightarrow> nat \<Rightarrow> catalog_error + nat" where
  "check_in_history_run table_uuid current_txn effective ds k =
     (if effective = current_txn then Inr k
      else rbind (walk_history_run ds table_uuid effective [] k current_txn) (\<lambda>(found, k).
        if found then Inr k else Inl (InvalidState NotInHistory)))"

definition read_schema_run ::
  "libs \<Rightarrow> table_ident \<Rightarrow> uuid \<Rightarrow> txn_id \<Rightarrow> db_run \<Rightarrow> nat \<Rightarrow> catalog_error + schema_struct" where
  "read_schema_run lib ident table_uuid t ds k =
     rbind (ok_or (NotFound (NoSchemaAt (ti_namespace ident) (ti_name ident) t))
              (find (schema_valid_at table_uuid t) (db_schemas (ds k)))) (\<lambda>schema_row.
     rbind (schema_columns lib (ColumnCount MAX_COLUMNS_PER_SCHEMA) (s_schema_uuid schema_row) (ds (k + 1)))
       (\<lambda>columns. Inr (schema_struct_of_row schema_row columns)))"

definition read_table_run ::
  "sql_catalog \<Rightarrow> table_ident \<Rightarrow> txn_id option \<Rightarrow> db_run \<Rightarrow> nat \<Rightarrow> catalog_error + table_view \<times> nat" where
  "read_table_run cat ident at_transaction_id ds k =
     rbind (read_head cat ident (ds k)) (\<lambda>(table_row, properties, current_txn).
       let table_uuid = t_table_uuid table_row;
           effective = (case at_transaction_id of Some t \<Rightarrow> t | None \<Rightarrow> current_txn)
       in
     rbind (check_in_history_run table_uuid current_txn effective ds (k + 1)) (\<lambda>k.
     rbind (read_schema_run (cat_libs cat) ident table_uuid effective ds k) (\<lambda>schema.
     rbind (read_files (cat_libs cat) table_uuid effective (ds (k + 2))) (\<lambda>files.
       Inr (\<lparr>tv_ident = ident, tv_table_uuid = table_uuid, tv_transaction_id = effective,
             tv_schema = schema, tv_files = files, tv_properties = properties,
             tv_stats = read_stats table_uuid effective (ds (k + 3))\<rparr>, k + 4)))))"

function walk_events_run ::
  "db_run \<Rightarrow> uuid \<Rightarrow> txn_id option \<Rightarrow> txn_id list \<Rightarrow> nat \<Rightarrow> txn_id
     \<Rightarrow> catalog_error + (txn_id list \<times> bool) \<times> nat" where
  "walk_events_run ds table_uuid from_exclusive txn_ids_desc k cursor_txn =
     (if cursor_txn \<in> set txn_ids_desc then Inl (InvalidState ChainCycle)
      else case select_txn table_uuid cursor_txn (ds k) of
        None \<Rightarrow> Inl (InvalidState RequestedTxnMissing)
      | Some row \<Rightarrow>
          (let desc' = txn_ids_desc @ [cursor_txn] in
           if unat MAX_TRANSACTIONS_PER_SCAN < length desc'
           then Inl (LimitExceeded (TransactionScan MAX_TRANSACTIONS_PER_SCAN))
           else case x_parent_transaction_id row of
             Some parent_id \<Rightarrow>
               if Some parent_id = from_exclusive then Inr ((desc', True), k + 1)
               else walk_events_run ds table_uuid from_exclusive desc' (k + 1) parent_id
           | None \<Rightarrow> Inr ((desc', from_exclusive = None), k + 1)))"
  by pat_completeness auto

termination walk_events_run
  by (relation "measure (\<lambda>(ds, tu, f, desc, k, c). card (- set desc))") (auto simp: unseen_decreases)

declare walk_events_run.simps [simp del] walk_history_run.simps [simp del]

definition event_range_run ::
  "sql_catalog \<Rightarrow> table_ident \<Rightarrow> txn_range_cursor \<Rightarrow> db_run \<Rightarrow> nat
     \<Rightarrow> catalog_error + (uuid \<times> txn_id list) \<times> nat" where
  "event_range_run cat ident cursor ds k =
     rbind (ok_or (NotFound (TableName (ti_namespace ident) (ti_name ident)))
              (select_table (ti_namespace ident) (ti_name ident) (ds k))) (\<lambda>table_row.
     rbind (ok_or (InvalidState NoCurrentTransaction) (t_current_transaction_id table_row)) (\<lambda>current_txn.
     let ask = (current_txn \<noteq> rc_to_inclusive cursor); k' = (if ask then k + 2 else k + 1) in
     if ask \<and> select_txn (t_table_uuid table_row) (rc_to_inclusive cursor) (ds (k + 1)) = None
     then Inl (InvalidState RequestedTxnMissing)
     else rbind (walk_events_run ds (t_table_uuid table_row) (rc_from_exclusive cursor) [] k' (rc_to_inclusive cursor))
       (\<lambda>((txn_ids_desc, reached_from_boundary), k).
          if \<not> reached_from_boundary then Inl (InvalidState NotAncestor)
          else Inr ((t_table_uuid table_row, rev txn_ids_desc), k))))"

definition schema_event_run ::
  "libs \<Rightarrow> uuid \<Rightarrow> nat \<Rightarrow> txn_id \<Rightarrow> db_run \<Rightarrow> nat \<Rightarrow> catalog_error + (nat \<times> txn_schema_change option) \<times> nat" where
  "schema_event_run lib table_uuid schema_change_events transaction_id ds k =
     (let schema_rows = take 2 (filter (\<lambda>r. s_table_uuid r = table_uuid
                                        \<and> s_valid_from r = transaction_id) (db_schemas (ds k)))
      in if 1 < length schema_rows then Inl (InvalidState MultipleSchemas)
         else case schema_rows of
           [] \<Rightarrow> Inr ((schema_change_events, None), k + 1)
         | schema_row # _ \<Rightarrow>
             let n = schema_change_events + 1 in
             if unat MAX_SCHEMA_CHANGES_PER_SCAN < n
             then Inl (LimitExceeded (SchemaChangeEvents MAX_SCHEMA_CHANGES_PER_SCAN))
             else rbind (schema_columns lib (SchemaChangeColumns MAX_COLUMNS_PER_SCHEMA)
                           (s_schema_uuid schema_row) (ds (k + 1))) (\<lambda>columns.
               Inr ((n, Some \<lparr>sg_transaction_id = s_valid_from schema_row,
                              sg_schema = schema_struct_of_row schema_row columns\<rparr>), k + 2)))"

definition transaction_event_run ::
  "libs \<Rightarrow> uuid \<Rightarrow> db_run \<Rightarrow> (event_counts \<times> txn_event list) \<times> nat \<Rightarrow> txn_id
     \<Rightarrow> catalog_error + (event_counts \<times> txn_event list) \<times> nat" where
  "transaction_event_run lib table_uuid ds s transaction_id =
     (case s of ((n, events), k) \<Rightarrow>
        let added_rows = limit_rows MAX_FILES_PER_QUERY (filter (\<lambda>r. f_table_uuid r = table_uuid
                           \<and> f_added_in r = transaction_id) (db_files (ds k)));
            removed_rows = limit_rows MAX_FILES_PER_QUERY (filter (\<lambda>r. f_table_uuid r = table_uuid
                             \<and> f_removed_in r = Some transaction_id) (db_files (ds (k + 1))))
        in rbind (foldM (added_change lib) (n_added n, []) added_rows) (\<lambda>(a, changes1).
           rbind (foldM (removed_change lib) (n_removed n, changes1) removed_rows) (\<lambda>(b, changes2).
           rbind (schema_event_run lib table_uuid (n_schema n) transaction_id ds (k + 2)) (\<lambda>((c, schema_change), k).
             Inr ((\<lparr>n_added = a, n_removed = b, n_schema = c\<rparr>,
                   events @ [\<lparr>ev_transaction_id = transaction_id, ev_file_changes = changes2,
                              ev_schema_change = schema_change\<rparr>]), k)))))"

definition list_transaction_events_run ::
  "sql_catalog \<Rightarrow> table_ident \<Rightarrow> txn_range_cursor \<Rightarrow> db_run \<Rightarrow> nat \<Rightarrow> catalog_error + txn_event list \<times> nat" where
  "list_transaction_events_run cat ident cursor ds k =
     rbind (event_range_run cat ident cursor ds k) (\<lambda>((table_uuid, txns), k).
     rbind (foldM (transaction_event_run (cat_libs cat) table_uuid ds)
              ((\<lparr>n_added = 0, n_removed = 0, n_schema = 0\<rparr>, []), k) txns) (\<lambda>((_, events), k).
       Inr (events, k)))"

definition diff_table_run ::
  "sql_catalog \<Rightarrow> table_ident \<Rightarrow> txn_id \<Rightarrow> txn_id \<Rightarrow> db_run \<Rightarrow> nat \<Rightarrow> catalog_error + table_delta \<times> nat" where
  "diff_table_run cat ident from_id to_id ds k =
     rbind (list_transaction_events_run cat ident
              \<lparr>rc_from_exclusive = Some from_id, rc_to_inclusive = to_id\<rparr> ds k) (\<lambda>(events, k).
     rbind (read_table_run cat ident (Some from_id) ds k) (\<lambda>(from_view, k).
     rbind (read_table_run cat ident (Some to_id) ds k) (\<lambda>(to_view, k).
       let new_schema = (if sc_schema_uuid (tv_schema from_view) \<noteq> sc_schema_uuid (tv_schema to_view)
                         then Some (tv_schema to_view) else None);
           new_properties = (if tv_properties from_view \<noteq> tv_properties to_view
                             then Some (tv_properties to_view) else None)
       in Inr (project_delta_range from_id to_id events new_schema new_properties, k))))"

lemmas walk_events_run_code [code] = walk_events_run.simps [unfolded unat_less_int]
lemmas schema_event_run_code [code] = schema_event_run_def [unfolded unat_less_int]

section \<open>Results that agree\<close>

text \<open>Two computations agree up to a relation when both fail with the same error or both succeed
  with related values.\<close>

abbreviation agree :: "('a \<Rightarrow> 'b \<Rightarrow> bool) \<Rightarrow> 'e + 'a \<Rightarrow> 'e + 'b \<Rightarrow> bool" where
  "agree R \<equiv> rel_sum (=) R"

lemma agree_bind:
  assumes "agree A m m'" and "\<And>x y. A x y \<Longrightarrow> m = Inr x \<Longrightarrow> m' = Inr y \<Longrightarrow> agree B (f x) (g y)"
  shows "agree B (rbind m f) (rbind m' g)"
  using assms by (cases m; cases m') auto

lemma agree_ok_or: "rel_option A x y \<Longrightarrow> agree A (ok_or e x) (ok_or e y)"
  by (cases x; cases y) auto

lemma agree_foldM:
  assumes "list_all2 S xs ys" and "R s t"
    and "\<And>s t x y. R s t \<Longrightarrow> S x y \<Longrightarrow> agree R (f s x) (g t y)"
  shows "agree R (foldM f s xs) (foldM g t ys)"
  using assms(1,2)
proof (induction arbitrary: s t rule: list_all2_induct)
  case (Cons x xs y ys)
  show ?case unfolding foldM.simps by (rule agree_bind [OF assms(3) [OF Cons.prems Cons(1)]]) (rule Cons.IH)
qed simp

lemma agree_mapM:
  assumes "list_all2 S xs ys" and "\<And>x y. S x y \<Longrightarrow> agree R (f x) (g y)"
  shows "agree (list_all2 R) (mapM f xs) (mapM g ys)"
  using assms(1)
proof (induction rule: list_all2_induct)
  case (Cons x xs y ys)
  have "agree (list_all2 R) (rbind (mapM f xs) (\<lambda>zs. Inr (z # zs))) (rbind (mapM g ys) (\<lambda>zs. Inr (z' # zs)))"
    if "R z z'" for z z'
    using that by (intro agree_bind [OF Cons(3)]) simp
  then show ?case by (simp add: agree_bind [OF assms(2) [OF Cons(1)]])
qed simp

lemma agree_map_sum: "agree (\<lambda>x y. f x = g y) m m' \<longleftrightarrow> map_sum id f m = map_sum id g m'"
  by (cases m; cases m') auto

end
