(* ===== verification/Deltas.thy ===== *)
theory Deltas
  imports Guarantees
begin

text \<open>
  The event log and the deltas. \<open>list_transaction_events\<close> reports exactly the transactions
  between its bounds, in order; \<open>diff_table\<close>, which projects the net change from those
  events, agrees with the two snapshots it compares.
\<close>

section \<open>The range of the event log\<close>

lemma walk_events_limit:
  assumes wf: "wf_db d" and r: "r \<in> set (db_tables d)"
    and "i < length (txn_line (t_table_uuid r) d)"
    and "\<And>j. j \<le> i \<Longrightarrow> txn_line (t_table_uuid r) d ! j \<notin> set desc"
    and "50000 < length desc + Suc i - lo" and "lo \<le> i" and "length desc \<le> 50000"
    and "\<And>j. lo \<le> j \<Longrightarrow> j < i \<Longrightarrow> fr \<noteq> Some (txn_line (t_table_uuid r) d ! j)"
  shows "walk_events d (t_table_uuid r) fr desc (txn_line (t_table_uuid r) d ! i)
     = Inl (LimitExceeded (TransactionScan MAX_TRANSACTIONS_PER_SCAN))"
  using assms(3-8)
proof (induction i arbitrary: desc)
  case 0
  from select_txn_line [OF wf r 0(1)] obtain row where
    "select_txn (t_table_uuid r) (txn_line (t_table_uuid r) d ! 0) d = Some row" by auto
  then show ?case using 0 by (subst walk_events.simps) (auto simp: Let_def)
next
  case (Suc i)
  let ?ids = "txn_line (t_table_uuid r) d"
  from select_txn_line [OF wf r Suc.prems(1)] obtain row where row:
    "select_txn (t_table_uuid r) (?ids ! Suc i) d = Some row"
    "x_parent_transaction_id row = Some (?ids ! i)" by auto
  have fresh: "?ids ! Suc i \<notin> set desc" using Suc.prems(2) by simp
  show ?case
  proof (cases "length desc < 50000")
    case True
    then have lo: "lo \<le> i" using Suc.prems(3) by simp
    then have fr: "fr \<noteq> Some (?ids ! i)" using Suc.prems(6) [of i] by simp
    have "?ids ! j \<notin> set (desc @ [?ids ! Suc i])" if "j \<le> i" for j
      using Suc.prems(1,2) that txn_line_props(3) [OF wf r] by (auto simp: nth_eq_iff_index_eq)
    from Suc.IH [OF _ this _ lo] Suc.prems True
    have IH: "walk_events d (t_table_uuid r) fr (desc @ [?ids ! Suc i]) (?ids ! i)
        = Inl (LimitExceeded (TransactionScan MAX_TRANSACTIONS_PER_SCAN))" by simp
    show ?thesis using fr row fresh IH True by (subst walk_events.simps) (auto simp: Let_def)
  next
    case False
    then show ?thesis using row fresh by (subst walk_events.simps) (auto simp: Let_def)
  qed
qed

definition since :: "txn_id option \<Rightarrow> txn_id list \<Rightarrow> txn_id list" where
  "since fr before = (case fr of None \<Rightarrow> before | Some f \<Rightarrow> rev (takeWhile (\<lambda>x. x \<noteq> f) (rev before)))"

lemma since_drop:
  "\<exists>lo \<le> length before. since fr before = drop lo before
     \<and> (\<forall>j. lo \<le> j \<longrightarrow> j < length before \<longrightarrow> fr \<noteq> Some (before ! j))
     \<and> (0 < lo \<longrightarrow> fr = Some (before ! (lo - 1)))
     \<and> (0 < lo \<longleftrightarrow> (\<exists>f. fr = Some f \<and> f \<in> set before))"
proof (cases fr)
  case (Some f)
  show ?thesis
  proof (cases "f \<in> set before")
    case True
    then obtain as bs where b: "before = as @ f # bs" and nf: "f \<notin> set bs"
      by (metis split_list_last)
    have "takeWhile (\<lambda>x. x \<noteq> f) (rev bs @ f # rev as) = rev bs"
      using nf by (subst takeWhile_append2) auto
    then have "since fr before = drop (Suc (length as)) before" by (simp add: since_def Some b)
    moreover have "f \<noteq> before ! j" if "Suc (length as) \<le> j" "j < length before" for j
    proof -
      from that have "before ! j = bs ! (j - Suc (length as))" by (simp add: b nth_append)
      moreover have "j - Suc (length as) < length bs" using that by (simp add: b)
      ultimately show ?thesis using nf nth_mem by metis
    qed
    ultimately show ?thesis
      by (intro exI [of _ "Suc (length as)"]) (auto simp: Some b)
  next
    case False
    then have "takeWhile (\<lambda>x. x \<noteq> f) (rev before) = rev before" by (auto simp: takeWhile_eq_all_conv)
    then have "since fr before = before" unfolding since_def Some option.case by (simp only: rev_rev_ident)
    then show ?thesis using False by (intro exI [of _ 0]) (auto simp: Some)
  qed
qed (auto simp: since_def intro: exI [of _ 0])

lemma select_txn_in_line:
  "select_txn tu x d \<noteq> None \<longleftrightarrow> x \<in> set (txn_line tu d)"
  by (auto simp: select_txn_def txn_line_def table_txns_def find_None_iff)

lemma line_split:
  assumes "distinct line" and "to \<in> set line"
  defines "before \<equiv> takeWhile (\<lambda>x. x \<noteq> to) line"
  shows "length before < length line" and "line ! length before = to"
    and "take (Suc (length before)) line = before @ [to]"
    and "\<And>j. j < length before \<Longrightarrow> line ! j = before ! j"
proof -
  obtain bs cs where line: "line = bs @ to # cs" "to \<notin> set bs"
    using split_list_first [OF assms(2)] by blast
  have b: "before = bs" unfolding before_def line(1) using line(2) by (subst takeWhile_append2) auto
  show "length before < length line" "line ! length before = to" "take (Suc (length before)) line = before @ [to]"
    "\<And>j. j < length before \<Longrightarrow> line ! j = before ! j"
    by (simp_all add: b line(1) nth_append)
qed

lemma walk_events_since:
  assumes wf: "wf_db d" and r: "r \<in> set (db_tables d)" and to: "to \<in> set (txn_line (t_table_uuid r) d)"
  shows "walk_events d (t_table_uuid r) fr [] to =
     (let before = takeWhile (\<lambda>x. x \<noteq> to) (txn_line (t_table_uuid r) d)
      in if 50000 \<le> length (since fr before)
         then Inl (LimitExceeded (TransactionScan MAX_TRANSACTIONS_PER_SCAN))
         else Inr (rev (since fr before @ [to]), \<forall>f. fr = Some f \<longrightarrow> f \<in> set before))"
proof -
  let ?line = "txn_line (t_table_uuid r) d" and ?before = "takeWhile (\<lambda>x. x \<noteq> to) (txn_line (t_table_uuid r) d)"
  note split = line_split [OF txn_line_props(3) [OF wf r] to]
  obtain lo where lo: "lo \<le> length ?before" "since fr ?before = drop lo ?before"
    "\<And>j. lo \<le> j \<Longrightarrow> j < length ?before \<Longrightarrow> fr \<noteq> Some (?before ! j)"
    "0 < lo \<Longrightarrow> fr = Some (?before ! (lo - 1))"
    "0 < lo \<longleftrightarrow> (\<exists>f. fr = Some f \<and> f \<in> set ?before)"
    using since_drop [of ?before fr] by blast
  have fr: "\<And>j. lo \<le> j \<Longrightarrow> j < length ?before \<Longrightarrow> fr \<noteq> Some (?line ! j)"
    "0 < lo \<Longrightarrow> fr = Some (?line ! (lo - 1))"
    using lo(1,3,4) split(4) by simp_all
  have len: "length (since fr ?before) = length ?before - lo" using lo(2) by simp
  show ?thesis
  proof (cases "50000 \<le> length (since fr ?before)")
    case long: True
    have "walk_events d (t_table_uuid r) fr [] (?line ! length ?before)
        = Inl (LimitExceeded (TransactionScan MAX_TRANSACTIONS_PER_SCAN))"
      by (rule walk_events_limit [OF wf r split(1) _ _ lo(1)]) (use long len fr in auto)
    with long show ?thesis by (simp add: split(2) Let_def)
  next
    case False
    have "walk_events d (t_table_uuid r) fr [] (?line ! length ?before)
        = Inr ([] @ rev (drop lo (take (Suc (length ?before)) ?line)), 0 < lo \<or> fr = None)"
      by (rule walk_events_line [OF wf r split(1) _ _ lo(1)]) (use False len fr in auto)
    moreover have "drop lo (take (Suc (length ?before)) ?line) = since fr ?before @ [to]"
      using lo(1,2) by (simp add: split(3))
    ultimately show ?thesis using False lo(5) by (cases fr) (simp_all add: split(2) Let_def)
  qed
qed

lemma event_range_line:
  assumes wf: "wf_db d" and sel: "select_table (ti_namespace ident) (ti_name ident) d = Some r"
  shows "event_range cat ident \<lparr>rc_from_exclusive = fr, rc_to_inclusive = to\<rparr> d =
     (let line = txn_line (t_table_uuid r) d; before = takeWhile (\<lambda>x. x \<noteq> to) line
      in if to \<notin> set line then Inl (InvalidState RequestedTxnMissing)
         else if 50000 \<le> length (since fr before)
         then Inl (LimitExceeded (TransactionScan MAX_TRANSACTIONS_PER_SCAN))
         else if \<exists>f. fr = Some f \<and> f \<notin> set before then Inl (InvalidState NotAncestor)
         else Inr (t_table_uuid r, since fr before @ [to]))"
proof -
  let ?tu = "t_table_uuid r" and ?line = "txn_line (t_table_uuid r) d"
  have r: "r \<in> set (db_tables d)" using select_table_Some [OF sel] by simp
  have "event_range cat ident \<lparr>rc_from_exclusive = fr, rc_to_inclusive = to\<rparr> d =
      (if to \<notin> set ?line then Inl (InvalidState RequestedTxnMissing)
       else rbind (walk_events d ?tu fr [] to) (\<lambda>(txn_ids_desc, reached).
          if \<not> reached then Inl (InvalidState NotAncestor) else Inr (?tu, rev txn_ids_desc)))"
    using txn_line_props(1,4) [OF wf r] select_txn_in_line [of ?tu to d] by (auto simp: event_range_def sel)
  with walk_events_since [OF wf r, of to fr] show ?thesis
    by (cases "to \<in> set ?line") (auto simp: Let_def)
qed

text \<open>C14. The range of the event log is exact on every reachable database: for an upper bound that
  is a transaction of the table, the log covers the transactions after the lower bound up to
  the upper one, oldest first; it covers everything up to the upper bound when there is no
  lower bound; a lower bound that is not a proper ancestor of the upper one is refused; a
  range of more than 50000 transactions exceeds the scan limit; an unknown upper bound is
  refused. The walk always ends and never reports a cycle.\<close>

theorem event_range_exact:
  assumes "reachable lib d" and "select_table (ti_namespace ident) (ti_name ident) d = Some r"
  shows "event_range cat ident \<lparr>rc_from_exclusive = fr, rc_to_inclusive = to\<rparr> d =
     (let line = map x_transaction_id (filter (\<lambda>x. x_table_uuid x = t_table_uuid r) (db_transactions d));
          before = takeWhile (\<lambda>x. x \<noteq> to) line;
          after_from = (case fr of None \<Rightarrow> before | Some f \<Rightarrow> rev (takeWhile (\<lambda>x. x \<noteq> f) (rev before)))
      in if to \<notin> set line then Inl (InvalidState RequestedTxnMissing)
         else if 50000 \<le> length after_from
         then Inl (LimitExceeded (TransactionScan MAX_TRANSACTIONS_PER_SCAN))
         else if \<exists>f. fr = Some f \<and> f \<notin> set before then Inl (InvalidState NotAncestor)
         else Inr (t_table_uuid r, after_from @ [to]))"
  using event_range_line [OF reachable_wf [OF assms(1)] assms(2), of cat fr to]
  unfolding since_def txn_line_def table_txns_def Let_def .

lemma demo_select3:
  "select_table (ti_namespace demo_ident) (ti_name demo_ident) demo_db3 = Some (demo_row 30 3000 ''{owner:ann}'')"
  unfolding demo_db3_eq demo_db1_eq by code_simp

lemma demo_line3:
  "map x_transaction_id (filter (\<lambda>x. x_table_uuid x = t_table_uuid (demo_row 30 3000 ''{owner:ann}''))
     (db_transactions demo_db3)) = [10, 20, 30]"
  by (simp add: demo_db3_eq demo_txn_def demo_row_def)

theorem event_range_exact_witness:
  "event_range demo_cat demo_ident \<lparr>rc_from_exclusive = Some 10, rc_to_inclusive = 30\<rparr> demo_db3 = Inr (1000, [20, 30])"
  using event_range_exact [OF demo_reachable(3) demo_select3, of demo_cat "Some 10" 30, unfolded demo_line3]
  by (simp add: demo_row_def)

text \<open>Comparing a transaction with itself is refused: the lower bound of a diff has to be a
  proper ancestor of the upper one, so the empty delta is never returned.\<close>

lemma diff_of_one_transaction_refused:
  assumes "reachable lib d" and "select_table (ti_namespace ident) (ti_name ident) d = Some r"
    and "length (db_transactions d) \<le> 50000"
  shows "diff_table cat ident t t d =
     Inl (InvalidState (if t \<in> set (map x_transaction_id
            (filter (\<lambda>x. x_table_uuid x = t_table_uuid r) (db_transactions d)))
          then NotAncestor else RequestedTxnMissing))"
proof -
  let ?line = "txn_line (t_table_uuid r) d" and ?before = "takeWhile (\<lambda>x. x \<noteq> t) (txn_line (t_table_uuid r) d)"
  have "t \<notin> set ?before" by (auto dest: set_takeWhileD)
  moreover have "length (since (Some t) ?before) < 50000" if "t \<in> set ?line"
  proof -
    have "length (since (Some t) ?before) \<le> length ?before"
      by (simp add: since_def) (metis length_rev length_takeWhile_le)
    also have "\<dots> < length ?line"
      using line_split(1) [OF txn_line_props(3) that] reachable_wf [OF assms(1)] select_table_Some [OF assms(2)] by blast
    also have "\<dots> \<le> 50000"
      using assms(3) by (simp add: txn_line_def table_txns_def) (meson le_trans length_filter_le)
    finally show ?thesis .
  qed
  ultimately have "event_range cat ident \<lparr>rc_from_exclusive = Some t, rc_to_inclusive = t\<rparr> d
      = Inl (InvalidState (if t \<in> set ?line then NotAncestor else RequestedTxnMissing))"
    using event_range_line [OF reachable_wf [OF assms(1)] assms(2), of cat "Some t" t] by (auto simp: Let_def)
  then show ?thesis
    by (simp add: diff_table_def list_transaction_events_def txn_line_def table_txns_def)
qed

section \<open>The file changes of the events\<close>

text \<open>A file change is identified by its kind and the file.\<close>

abbreviation change_sig :: "txn_file_change \<Rightarrow> txn_file_change_kind \<times> uuid" where
  "change_sig c \<equiv> (ch_kind c, fi_file_uuid (ch_file c))"

lemma file_struct_uuid: "file_struct_of_row lib row = Inr f \<Longrightarrow> fi_file_uuid f = f_file_uuid row"
  by (auto simp: file_struct_of_row_def result_simps)

lemma added_change_Inr:
  "added_change lib (n, cs) row = Inr s \<longleftrightarrow> (\<exists>f. file_struct_of_row lib row = Inr f \<and> n + 1 \<le> 10000
     \<and> s = (n + 1, cs @ [\<lparr>ch_transaction_id = f_added_in row, ch_kind = Added, ch_file = f\<rparr>]))"
  by (auto simp: added_change_def Let_def result_simps)

lemma removed_change_Inr:
  "removed_change lib (n, cs) row = Inr s \<longleftrightarrow>
     (\<exists>f x. file_struct_of_row lib row = Inr f \<and> f_removed_in row = Some x \<and> n + 1 \<le> 10000
        \<and> s = (n + 1, cs @ [\<lparr>ch_transaction_id = x, ch_kind = Removed,
                 ch_file = f\<lparr>fi_removed_in_transaction_id := Some x\<rparr>\<rparr>]))"
  by (auto simp: removed_change_def Let_def result_simps)

lemma foldM_added_change:
  "foldM (added_change lib) (n, cs) rows = Inr (n', cs') \<Longrightarrow>
     map change_sig cs' = map change_sig cs @ map (\<lambda>r. (Added, f_file_uuid r)) rows
     \<and> (rows \<noteq> [] \<longrightarrow> n + length rows \<le> 10000)"
proof (induction rows arbitrary: n cs)
  case (Cons row rows)
  then obtain f where f: "file_struct_of_row lib row = Inr f" "n + 1 \<le> 10000"
    and rest: "foldM (added_change lib) (n + 1, cs @ [\<lparr>ch_transaction_id = f_added_in row, ch_kind = Added, ch_file = f\<rparr>]) rows
        = Inr (n', cs')"
    by (auto simp: added_change_Inr result_simps)
  from Cons.IH [OF rest] f file_struct_uuid [OF f(1)] show ?case by (cases "rows = []") auto
qed simp

lemma foldM_removed_change:
  "foldM (removed_change lib) (n, cs) rows = Inr (n', cs') \<Longrightarrow>
     map change_sig cs' = map change_sig cs @ map (\<lambda>r. (Removed, f_file_uuid r)) rows
     \<and> (rows \<noteq> [] \<longrightarrow> n + length rows \<le> 10000)"
proof (induction rows arbitrary: n cs)
  case (Cons row rows)
  then obtain f x where f: "file_struct_of_row lib row = Inr f" "n + 1 \<le> 10000"
    and rest: "foldM (removed_change lib) (n + 1, cs @ [\<lparr>ch_transaction_id = x, ch_kind = Removed,
        ch_file = f\<lparr>fi_removed_in_transaction_id := Some x\<rparr>\<rparr>]) rows = Inr (n', cs')"
    by (auto simp: removed_change_Inr result_simps)
  from Cons.IH [OF rest] f file_struct_uuid [OF f(1)] show ?case by (cases "rows = []") auto
qed simp

lemma limit_rows_all: "length (limit_rows m xs) \<le> unat m \<Longrightarrow> limit_rows m xs = xs"
  by (simp add: limit_rows_def)

definition txn_sigs :: "uuid \<Rightarrow> db \<Rightarrow> txn_id \<Rightarrow> (txn_file_change_kind \<times> uuid) list" where
  "txn_sigs tu d x =
     map (\<lambda>r. (Added, f_file_uuid r)) (filter (\<lambda>r. f_table_uuid r = tu \<and> f_added_in r = x) (db_files d))
     @ map (\<lambda>r. (Removed, f_file_uuid r)) (filter (\<lambda>r. f_table_uuid r = tu \<and> f_removed_in r = Some x) (db_files d))"

lemma transaction_event_sigs:
  assumes "transaction_event lib d tu (n, events) x = Inr (n', events')"
  shows "\<exists>e. events' = events @ [e] \<and> ev_transaction_id e = x \<and> map change_sig (ev_file_changes e) = txn_sigs tu d x"
proof -
  let ?add = "filter (\<lambda>r. f_table_uuid r = tu \<and> f_added_in r = x) (db_files d)"
  let ?rem = "filter (\<lambda>r. f_table_uuid r = tu \<and> f_removed_in r = Some x) (db_files d)"
  from assms obtain a b c1 c2 sc where
    1: "foldM (added_change lib) (n_added n, []) (limit_rows MAX_FILES_PER_QUERY ?add) = Inr (a, c1)"
    and 2: "foldM (removed_change lib) (n_removed n, c1) (limit_rows MAX_FILES_PER_QUERY ?rem) = Inr (b, c2)"
    and ev: "events' = events @ [\<lparr>ev_transaction_id = x, ev_file_changes = c2, ev_schema_change = sc\<rparr>]"
    by (auto simp: transaction_event_def Let_def result_simps)
  have "length (limit_rows MAX_FILES_PER_QUERY ?add) \<le> unat MAX_FILES_PER_QUERY"
    using foldM_added_change [OF 1] by (cases "limit_rows MAX_FILES_PER_QUERY ?add = []") auto
  then have add: "limit_rows MAX_FILES_PER_QUERY ?add = ?add" by (rule limit_rows_all)
  have "length (limit_rows MAX_FILES_PER_QUERY ?rem) \<le> unat MAX_FILES_PER_QUERY"
    using foldM_removed_change [OF 2] by (cases "limit_rows MAX_FILES_PER_QUERY ?rem = []") auto
  then have rem: "limit_rows MAX_FILES_PER_QUERY ?rem = ?rem" by (rule limit_rows_all)
  show ?thesis
    using foldM_added_change [OF 1] foldM_removed_change [OF 2]
    unfolding add rem ev by (auto simp: txn_sigs_def)
qed

lemma events_of_sigs:
  assumes "events_of lib d tu txns = Inr events"
  shows "map ev_transaction_id events = txns
     \<and> concat (map (\<lambda>e. map change_sig (ev_file_changes e)) events) = concat (map (txn_sigs tu d) txns)"
proof -
  have gen: "foldM (transaction_event lib d tu) (n, evs) txns = Inr (n', evs') \<Longrightarrow>
      \<exists>es. evs' = evs @ es \<and> map ev_transaction_id es = txns
        \<and> concat (map (\<lambda>e. map change_sig (ev_file_changes e)) es) = concat (map (txn_sigs tu d) txns)"
    for n evs n' evs'
  proof (induction txns arbitrary: n evs)
    case (Cons x txns)
    then obtain n1 evs1 where step: "transaction_event lib d tu (n, evs) x = Inr (n1, evs1)"
      and rest: "foldM (transaction_event lib d tu) (n1, evs1) txns = Inr (n', evs')"
      by (auto simp: result_simps)
    from transaction_event_sigs [OF step] obtain e where e: "evs1 = evs @ [e]" "ev_transaction_id e = x"
      "map change_sig (ev_file_changes e) = txn_sigs tu d x" by blast
    from Cons.IH [OF rest] obtain es where "evs' = evs1 @ es" "map ev_transaction_id es = txns"
      "concat (map (\<lambda>e. map change_sig (ev_file_changes e)) es) = concat (map (txn_sigs tu d) txns)" by blast
    with e show ?case by (intro exI [of _ "e # es"]) simp
  qed simp
  from assms show ?thesis by (auto simp: events_of_def result_simps dest!: gen)
qed

section \<open>Projecting the net change\<close>

text \<open>Per file, the projection is a machine with the states untouched, added and removed.\<close>

definition bstep :: "txn_file_change_kind \<Rightarrow> bool \<times> bool \<Rightarrow> bool \<times> bool" where
  "bstep k s = (case k of Added \<Rightarrow> (True, False)
     | Removed \<Rightarrow> if fst s then (False, snd s) else (False, True))"

definition keyed :: "file_map \<Rightarrow> bool" where
  "keyed m \<longleftrightarrow> list_all (\<lambda>(k, f). fi_file_uuid f = k) m"

definition member :: "uuid \<Rightarrow> file_map \<times> file_map \<Rightarrow> bool \<times> bool" where
  "member u s = (u \<in> fst ` set (fst s), u \<in> fst ` set (snd s))"

lemma project_change_keyed:
  "keyed (fst s) \<Longrightarrow> keyed (snd s) \<Longrightarrow> keyed (fst (project_change c s)) \<and> keyed (snd (project_change c s))"
  by (cases s; cases "ch_kind c")
     (auto simp: project_change_def keyed_def hash_insert_def hash_remove_def list_all_iff Let_def)

lemma fst_hash_remove: "fst ` set (hash_remove k m) = fst ` set m - {k}"
  by (auto simp: hash_remove_def)

lemma fst_hash_insert: "fst ` set (hash_insert k v m) = insert k (fst ` set m)"
  by (auto simp: hash_insert_def fst_hash_remove image_Un)

lemma project_change_member:
  "member u (project_change c s) =
     (if fi_file_uuid (ch_file c) = u then bstep (ch_kind c) (member u s) else member u s)"
  by (cases s; cases "ch_kind c")
     (auto simp: project_change_def member_def bstep_def Let_def fst_hash_remove fst_hash_insert map_of_eq_None_iff)

lemma fold_project_member:
  "member u (fold project_change cs s) = fold bstep (map fst (filter (\<lambda>c. snd c = u) (map change_sig cs))) (member u s)"
  by (induction cs arbitrary: s) (auto simp: project_change_member)

lemma fold_project_keyed:
  "keyed (fst s) \<Longrightarrow> keyed (snd s) \<Longrightarrow> keyed (fst (fold project_change cs s)) \<and> keyed (snd (fold project_change cs s))"
  by (induction cs arbitrary: s) (auto simp: project_change_keyed)

lemma fold_events_concat:
  "fold (\<lambda>e. fold project_change (ev_file_changes e)) events s = fold project_change (concat (map ev_file_changes events)) s"
  by (induction events arbitrary: s) auto

lemma keyed_uuids: "keyed m \<Longrightarrow> set (map fi_file_uuid (map snd m)) = fst ` set m"
  by (force simp: keyed_def list_all_iff)

lemma project_delta_files:
  fixes events u
  defines "kinds \<equiv> map fst (filter (\<lambda>c. snd c = u) (concat (map (\<lambda>e. map change_sig (ev_file_changes e)) events)))"
  shows "u \<in> set (map fi_file_uuid (td_added_files (project_delta_range f t events ns np)))
           \<longleftrightarrow> fst (fold bstep kinds (False, False))"
    and "u \<in> set (map fi_file_uuid (td_removed_files (project_delta_range f t events ns np)))
           \<longleftrightarrow> snd (fold bstep kinds (False, False))"
proof -
  let ?s = "fold project_change (concat (map ev_file_changes events)) ([], [])"
  have k: "keyed (fst ?s)" "keyed (snd ?s)"
    using fold_project_keyed [of "([], [])"] by (simp_all add: keyed_def)
  have m: "member u ?s = fold bstep kinds (False, False)"
    by (simp add: fold_project_member kinds_def map_concat comp_def) (simp add: member_def)
  have d: "td_added_files (project_delta_range f t events ns np) = map snd (fst ?s)"
    "td_removed_files (project_delta_range f t events ns np) = map snd (snd ?s)"
    by (simp_all add: project_delta_range_def fold_events_concat split_def Let_def)
  show "u \<in> set (map fi_file_uuid (td_added_files (project_delta_range f t events ns np)))
           \<longleftrightarrow> fst (fold bstep kinds (False, False))"
    unfolding d keyed_uuids [OF k(1)] m [symmetric] by (simp add: member_def)
  show "u \<in> set (map fi_file_uuid (td_removed_files (project_delta_range f t events ns np)))
           \<longleftrightarrow> snd (fold bstep kinds (False, False))"
    unfolding d keyed_uuids [OF k(2)] m [symmetric] by (simp add: member_def)
qed

section \<open>The net change agrees with the snapshots\<close>

lemma filter_unique:
  "distinct (map k xs) \<Longrightarrow> f \<in> set xs \<Longrightarrow> filter (\<lambda>r. P r \<and> k r = k f) xs = (if P f then [f] else [])"
proof (induction xs)
  case (Cons a xs)
  then show ?case by (cases "f = a") (auto simp: filter_empty_conv image_iff)
qed simp

lemma filter_swap: "filter (\<lambda>r. k r = u) (filter P xs) = filter (\<lambda>r. P r \<and> k r = u) xs"
  by (simp add: conj_commute)

lemma txn_sigs_of_file:
  assumes "distinct (map f_file_uuid (db_files d))" and f: "f \<in> set (db_files d)"
  shows "map fst (filter (\<lambda>c. snd c = f_file_uuid f) (txn_sigs tu d x)) =
     (if f_table_uuid f = tu \<and> f_added_in f = x then [Added] else [])
     @ (if f_table_uuid f = tu \<and> f_removed_in f = Some x then [Removed] else [])"
  using filter_unique [OF assms, of "\<lambda>r. f_table_uuid r = tu \<and> f_added_in r = x"]
    filter_unique [OF assms, of "\<lambda>r. f_table_uuid r = tu \<and> f_removed_in r = Some x"]
  by (simp add: txn_sigs_def filter_map comp_def conj_commute conj_left_commute)

lemma txn_sigs_absent:
  "u \<notin> f_file_uuid ` set (filter (\<lambda>r. f_table_uuid r = tu) (db_files d)) \<Longrightarrow> filter (\<lambda>c. snd c = u) (txn_sigs tu d x) = []"
  by (auto simp: txn_sigs_def filter_empty_conv)

lemma kinds_of_interval:
  fixes txns :: "txn_id list"
  assumes "sorted_wrt (<) txns" and "\<And>y. rem = Some y \<Longrightarrow> a \<le> y"
  shows "concat (map (\<lambda>x. (if a = x then [Added] else []) @ (if rem = Some x then [Removed] else [])) txns)
     = (if a \<in> set txns then [Added] else []) @ (if rem \<in> Some ` set txns then [Removed] else [])"
  using assms
proof (induction txns)
  case (Cons x xs)
  then have IH: "concat (map (\<lambda>x. (if a = x then [Added] else []) @ (if rem = Some x then [Removed] else [])) xs)
     = (if a \<in> set xs then [Added] else []) @ (if rem \<in> Some ` set xs then [Removed] else [])" by simp
  have "a \<notin> set xs" if "rem = Some x" using Cons.prems that by fastforce
  moreover have "rem \<notin> Some ` set xs" if "rem = Some x" using Cons.prems that by auto
  moreover have "a \<notin> set xs" if "a = x" using Cons.prems that by auto
  ultimately show ?case using IH by (cases "rem = Some x"; cases "a = x") auto
qed simp

lemma delta_of_file:
  assumes dist: "distinct (map f_file_uuid (db_files d))" and f: "f \<in> set (db_files d)" "f_table_uuid f = tu"
    and order: "\<And>y. f_removed_in f = Some y \<Longrightarrow> f_added_in f \<le> y"
    and srt: "sorted_wrt (<) txns" and ev: "events_of lib d tu txns = Inr events"
  shows "f_file_uuid f \<in> set (map fi_file_uuid (td_added_files (project_delta_range a b events ns np)))
      \<longleftrightarrow> f_added_in f \<in> set txns \<and> f_removed_in f \<notin> Some ` set txns"
    and "f_file_uuid f \<in> set (map fi_file_uuid (td_removed_files (project_delta_range a b events ns np)))
      \<longleftrightarrow> f_added_in f \<notin> set txns \<and> f_removed_in f \<in> Some ` set txns"
proof -
  have "map fst (filter (\<lambda>c. snd c = f_file_uuid f) (concat (map (\<lambda>e. map change_sig (ev_file_changes e)) events)))
      = concat (map (\<lambda>x. map fst (filter (\<lambda>c. snd c = f_file_uuid f) (txn_sigs tu d x))) txns)"
    using events_of_sigs [OF ev] by (simp add: filter_concat map_concat comp_def)
  also have "\<dots> = (if f_added_in f \<in> set txns then [Added] else [])
      @ (if f_removed_in f \<in> Some ` set txns then [Removed] else [])"
    using kinds_of_interval [OF srt order] by (simp add: txn_sigs_of_file [OF dist f(1)] f(2))
  finally have kinds: "map fst (filter (\<lambda>c. snd c = f_file_uuid f)
      (concat (map (\<lambda>e. map change_sig (ev_file_changes e)) events)))
      = (if f_added_in f \<in> set txns then [Added] else []) @ (if f_removed_in f \<in> Some ` set txns then [Removed] else [])" .
  show "f_file_uuid f \<in> set (map fi_file_uuid (td_added_files (project_delta_range a b events ns np)))
      \<longleftrightarrow> f_added_in f \<in> set txns \<and> f_removed_in f \<notin> Some ` set txns"
    and "f_file_uuid f \<in> set (map fi_file_uuid (td_removed_files (project_delta_range a b events ns np)))
      \<longleftrightarrow> f_added_in f \<notin> set txns \<and> f_removed_in f \<in> Some ` set txns"
    unfolding project_delta_files kinds by (auto simp: bstep_def)
qed

lemma delta_no_file:
  assumes "u \<notin> f_file_uuid ` set (filter (\<lambda>r. f_table_uuid r = tu) (db_files d))"
    and ev: "events_of lib d tu txns = Inr events"
  shows "u \<notin> set (map fi_file_uuid (td_added_files (project_delta_range a b events ns np)))"
    and "u \<notin> set (map fi_file_uuid (td_removed_files (project_delta_range a b events ns np)))"
proof -
  have "filter (\<lambda>c. snd c = u) (concat (map (\<lambda>e. map change_sig (ev_file_changes e)) events)) = []"
    using events_of_sigs [OF ev] txn_sigs_absent [OF assms(1)] by (simp add: filter_concat)
  then show "u \<notin> set (map fi_file_uuid (td_added_files (project_delta_range a b events ns np)))"
    "u \<notin> set (map fi_file_uuid (td_removed_files (project_delta_range a b events ns np)))"
    unfolding project_delta_files by simp_all
qed

lemma interval_mem:
  fixes line :: "txn_id list"
  assumes srt: "sorted_wrt (<) line" and to: "to \<in> set line"
    and fr: "fr \<in> set (takeWhile (\<lambda>x. x \<noteq> to) line)"
  defines "txns \<equiv> since (Some fr) (takeWhile (\<lambda>x. x \<noteq> to) line) @ [to]"
  shows "x \<in> set txns \<longleftrightarrow> x \<in> set line \<and> fr < x \<and> x \<le> to" and "sorted_wrt (<) txns"
proof -
  obtain bs cs where line: "line = bs @ to # cs" "to \<notin> set bs" using split_list_first [OF to] by blast
  have b: "takeWhile (\<lambda>x. x \<noteq> to) line = bs" unfolding line(1) using line(2) by (subst takeWhile_append2) auto
  obtain as ms where bs: "bs = as @ fr # ms" "fr \<notin> set ms" using fr b by (metis split_list_last)
  have "takeWhile (\<lambda>x. x \<noteq> fr) (rev ms @ fr # rev as) = rev ms"
    using bs(2) by (subst takeWhile_append2) auto
  then have txns: "txns = ms @ [to]" unfolding txns_def b since_def by (simp add: bs(1))
  show "x \<in> set txns \<longleftrightarrow> x \<in> set line \<and> fr < x \<and> x \<le> to" "sorted_wrt (<) txns"
    using srt by (auto simp: txns line(1) bs(1) sorted_wrt_append dest: less_trans)
qed

lemma mapM_file_uuids: "mapM (file_struct_of_row lib) rows = Inr fs \<Longrightarrow> map fi_file_uuid fs = map f_file_uuid rows"
  by (induction rows arbitrary: fs) (auto simp: result_simps file_struct_uuid)

lemma view_uuids:
  assumes "read_table cat ident (Some t) d = Inr v" and "select_table (ti_namespace ident) (ti_name ident) d = Some r"
  shows "map fi_file_uuid (tv_files v) = map f_file_uuid (filter (file_visible_at (t_table_uuid r) t) (db_files d))"
  using assms by (auto simp: read_table_Inr read_head_Inr read_files_Inr mapM_file_uuids)

lemma diff_table_Inr:
  assumes "diff_table cat ident fr to d = Inr delta"
  obtains r txns events vf vt where
    "select_table (ti_namespace ident) (ti_name ident) d = Some r"
    "event_range cat ident \<lparr>rc_from_exclusive = Some fr, rc_to_inclusive = to\<rparr> d = Inr (t_table_uuid r, txns)"
    "events_of (cat_libs cat) d (t_table_uuid r) txns = Inr events"
    "read_table cat ident (Some fr) d = Inr vf" "read_table cat ident (Some to) d = Inr vt"
    "delta = project_delta_range fr to events
       (if sc_schema_uuid (tv_schema vf) \<noteq> sc_schema_uuid (tv_schema vt) then Some (tv_schema vt) else None)
       (if tv_properties vf \<noteq> tv_properties vt then Some (tv_properties vt) else None)"
proof -
  from assms obtain tu txns events vf vt where
    range: "event_range cat ident \<lparr>rc_from_exclusive = Some fr, rc_to_inclusive = to\<rparr> d = Inr (tu, txns)"
    and ev: "events_of (cat_libs cat) d tu txns = Inr events"
    and views: "read_table cat ident (Some fr) d = Inr vf" "read_table cat ident (Some to) d = Inr vt"
    and delta: "delta = project_delta_range fr to events
       (if sc_schema_uuid (tv_schema vf) \<noteq> sc_schema_uuid (tv_schema vt) then Some (tv_schema vt) else None)
       (if tv_properties vf \<noteq> tv_properties vt then Some (tv_properties vt) else None)"
    by (auto simp: diff_table_def list_transaction_events_def Let_def result_simps)
  from range obtain r where r: "select_table (ti_namespace ident) (ti_name ident) d = Some r" "tu = t_table_uuid r"
    by (auto simp: event_range_def result_simps split: if_splits)
  show thesis by (rule that [of r txns events vf vt]) (use range ev views delta r in simp_all)
qed

lemma interval_added:
  fixes a y lo hi :: "'a::linorder"
  assumes "lo < hi" and "a \<le> y"
  shows "(lo < a \<and> a \<le> hi) \<and> \<not> (lo < y \<and> y \<le> hi) \<longleftrightarrow> (a \<le> hi \<and> hi < y) \<and> \<not> (a \<le> lo \<and> lo < y)"
proof -
  have "lo < y" if "lo < a" using that assms(2) by order
  moreover have "lo < y" if "hi < y" using that assms(1) by order
  ultimately show ?thesis by (cases "lo < a"; cases "hi < y"; auto)
qed

lemma interval_removed:
  fixes a y lo hi :: "'a::linorder"
  assumes "lo < hi" and "a \<le> y"
  shows "\<not> (lo < a \<and> a \<le> hi) \<and> (lo < y \<and> y \<le> hi) \<longleftrightarrow> (a \<le> lo \<and> lo < y) \<and> \<not> (a \<le> hi \<and> hi < y)"
proof -
  have "a \<le> hi" if "a \<le> lo" using that assms(1) by order
  moreover have "a \<le> hi" if "y \<le> hi" using that assms(2) by order
  ultimately show ?thesis by (cases "lo < a"; cases "hi < y"; auto)
qed

lemma interval_open:
  fixes a lo hi :: "'a::linorder"
  assumes "lo < hi"
  shows "lo < a \<and> a \<le> hi \<longleftrightarrow> a \<le> hi \<and> \<not> a \<le> lo" and "\<not> (a \<le> lo \<and> \<not> a \<le> hi)"
  using assms by auto

lemma delta_visible:
  assumes wf: "wf_db d" and r: "r \<in> set (db_tables d)" and f: "f \<in> set (db_files d)" "f_table_uuid f = t_table_uuid r"
    and txns: "\<And>x. x \<in> set txns \<longleftrightarrow> x \<in> set (txn_line (t_table_uuid r) d) \<and> fr < x \<and> x \<le> to" and le: "fr < to"
  shows "f_added_in f \<in> set txns \<and> f_removed_in f \<notin> Some ` set txns
      \<longleftrightarrow> file_visible_at (t_table_uuid r) to f \<and> \<not> file_visible_at (t_table_uuid r) fr f"
    and "f_added_in f \<notin> set txns \<and> f_removed_in f \<in> Some ` set txns
      \<longleftrightarrow> file_visible_at (t_table_uuid r) fr f \<and> \<not> file_visible_at (t_table_uuid r) to f"
    and "\<And>y. f_removed_in f = Some y \<Longrightarrow> f_added_in f \<le> y"
proof -
  have hist: "file_in_history (set (txn_line (t_table_uuid r) d)) f"
    using wf_dest(3) [OF wf r] f by (auto simp: list_all_iff table_files_def txn_line_def)
  have a: "f_added_in f \<in> set txns \<longleftrightarrow> fr < f_added_in f \<and> f_added_in f \<le> to"
    using hist by (simp add: txns file_in_history_def)
  have y: "Some y \<in> Some ` set txns \<longleftrightarrow> fr < y \<and> y \<le> to" "f_added_in f \<le> y"
    if "f_removed_in f = Some y" for y
    using hist that by (simp_all add: txns file_in_history_def image_iff)
  show "f_added_in f \<in> set txns \<and> f_removed_in f \<notin> Some ` set txns
      \<longleftrightarrow> file_visible_at (t_table_uuid r) to f \<and> \<not> file_visible_at (t_table_uuid r) fr f"
  proof (cases "f_removed_in f")
    case None
    then show ?thesis using interval_open(1) [OF le] f(2) by (simp add: a file_visible_at_def image_iff)
  next
    case (Some z)
    then show ?thesis
      unfolding Some a y(1) [OF Some] file_visible_at_def
      using interval_added [OF le y(2) [OF Some]] f(2) by simp
  qed
  show "f_added_in f \<notin> set txns \<and> f_removed_in f \<in> Some ` set txns
      \<longleftrightarrow> file_visible_at (t_table_uuid r) fr f \<and> \<not> file_visible_at (t_table_uuid r) to f"
  proof (cases "f_removed_in f")
    case None
    then show ?thesis using interval_open(2) [OF le] f(2) by (simp add: file_visible_at_def image_iff)
  next
    case (Some z)
    then show ?thesis
      unfolding Some a y(1) [OF Some] file_visible_at_def
      using interval_removed [OF le y(2) [OF Some]] f(2) by simp
  qed
  show "\<And>y. f_removed_in f = Some y \<Longrightarrow> f_added_in f \<le> y" using hist by (simp add: file_in_history_def)
qed

lemma diff_files:
  assumes wf: "wf_db d" and r: "r \<in> set (db_tables d)" and ev: "events_of lib d (t_table_uuid r) txns = Inr events"
    and txns: "\<And>x. x \<in> set txns \<longleftrightarrow> x \<in> set (txn_line (t_table_uuid r) d) \<and> fr < x \<and> x \<le> to"
    and srt: "sorted_wrt (<) txns" and le: "fr < to"
  defines "at \<equiv> \<lambda>t. set (map f_file_uuid (filter (file_visible_at (t_table_uuid r) t) (db_files d)))"
  shows "set (map fi_file_uuid (td_added_files (project_delta_range fr to events ns np))) = at to - at fr
     \<and> set (map fi_file_uuid (td_removed_files (project_delta_range fr to events ns np))) = at fr - at to"
proof -
  let ?tu = "t_table_uuid r"
  have dist: "distinct (map f_file_uuid (db_files d))" using wf by (simp add: wf_db_def keys_ok_def)
  have "(u \<in> set (map fi_file_uuid (td_added_files (project_delta_range fr to events ns np))) \<longleftrightarrow> u \<in> at to - at fr)
      \<and> (u \<in> set (map fi_file_uuid (td_removed_files (project_delta_range fr to events ns np))) \<longleftrightarrow> u \<in> at fr - at to)" for u
  proof (cases "u \<in> f_file_uuid ` set (filter (\<lambda>r. f_table_uuid r = ?tu) (db_files d))")
    case True
    then obtain f where f: "f \<in> set (db_files d)" "f_table_uuid f = ?tu" and u: "u = f_file_uuid f" by auto
    have "u \<in> at t \<longleftrightarrow> file_visible_at ?tu t f" for t
      using f(1) dist u by (auto simp: at_def distinct_map inj_on_def)
    then show ?thesis
      using delta_of_file [OF dist f delta_visible(3) [OF wf r f txns le] srt ev] delta_visible(1,2) [OF wf r f txns le] u
      by blast
  next
    case False
    then have "u \<notin> at t" for t by (auto simp: at_def file_visible_at_def)
    then show ?thesis using delta_no_file [OF False ev] by blast
  qed
  then show ?thesis by blast
qed

text \<open>C9. A delta is exactly the difference of the two snapshots: whenever \<open>diff_table\<close> succeeds on
  a reachable database, both transactions can be read, the added files are those visible at the
  later transaction and not at the earlier one, the removed files are those visible at the
  earlier one and not at the later one, and a new schema is reported exactly when the schemas
  differ. A file added and removed in between does not appear. The properties are never
  reported as changed: they are not versioned, both snapshots carry the current ones.\<close>

theorem diff_is_snapshot_difference:
  assumes "reachable lib d" and "diff_table cat ident fr to d = Inr delta"
  shows "\<exists>vf vt. read_table cat ident (Some fr) d = Inr vf \<and> read_table cat ident (Some to) d = Inr vt
    \<and> set (map fi_file_uuid (td_added_files delta))
        = set (map fi_file_uuid (tv_files vt)) - set (map fi_file_uuid (tv_files vf))
    \<and> set (map fi_file_uuid (td_removed_files delta))
        = set (map fi_file_uuid (tv_files vf)) - set (map fi_file_uuid (tv_files vt))
    \<and> td_new_schema delta = (if sc_schema_uuid (tv_schema vf) = sc_schema_uuid (tv_schema vt)
                              then None else Some (tv_schema vt))
    \<and> td_new_properties delta = None"
proof -
  have wf: "wf_db d" using assms(1) by (rule reachable_wf)
  from assms(2) show ?thesis
  proof (rule diff_table_Inr)
    fix r txns events vf vt
    assume sel: "select_table (ti_namespace ident) (ti_name ident) d = Some r"
      and range: "event_range cat ident \<lparr>rc_from_exclusive = Some fr, rc_to_inclusive = to\<rparr> d = Inr (t_table_uuid r, txns)"
      and ev: "events_of (cat_libs cat) d (t_table_uuid r) txns = Inr events"
      and views: "read_table cat ident (Some fr) d = Inr vf" "read_table cat ident (Some to) d = Inr vt"
      and delta: "delta = project_delta_range fr to events
       (if sc_schema_uuid (tv_schema vf) \<noteq> sc_schema_uuid (tv_schema vt) then Some (tv_schema vt) else None)
       (if tv_properties vf \<noteq> tv_properties vt then Some (tv_properties vt) else None)"
    let ?line = "txn_line (t_table_uuid r) d"
    have r: "r \<in> set (db_tables d)" using select_table_Some [OF sel] by simp
    from range event_range_line [OF wf sel, of cat "Some fr" to]
    have to: "to \<in> set ?line" and fr: "fr \<in> set (takeWhile (\<lambda>x. x \<noteq> to) ?line)"
      and txns: "txns = since (Some fr) (takeWhile (\<lambda>x. x \<noteq> to) ?line) @ [to]"
      by (auto simp: Let_def split: if_splits)
    note mem = interval_mem [OF txn_line_props(2) [OF wf r] to fr, folded txns]
    have "fr < to" using mem(1) [of to] by (simp add: txns)
    note files = diff_files [OF wf r ev mem(1) mem(2) this]
    have "tv_properties vf = tv_properties vt" using views by (auto simp: read_table_Inr read_head_Inr)
    then show ?thesis
      using files [of _ None] views delta
      unfolding view_uuids [OF views(1) sel, symmetric] view_uuids [OF views(2) sel, symmetric]
      by (auto simp: project_delta_range_def split_def Let_def)
  qed
qed

definition demo_delta :: "catalog_error + table_delta \<Rightarrow> (uuid list \<times> uuid list) option" where
  "demo_delta res = (case res of Inr x \<Rightarrow> Some (map fi_file_uuid (td_added_files x), map fi_file_uuid (td_removed_files x))
     | Inl _ \<Rightarrow> None)"

theorem diff_is_snapshot_difference_witness:
  "\<exists>delta vf vt. diff_table demo_cat demo_ident 20 30 demo_db3 = Inr delta
     \<and> read_table demo_cat demo_ident (Some 20) demo_db3 = Inr vf
     \<and> read_table demo_cat demo_ident (Some 30) demo_db3 = Inr vt
     \<and> set (map fi_file_uuid (tv_files vt)) - set (map fi_file_uuid (tv_files vf)) = {3}
     \<and> set (map fi_file_uuid (tv_files vf)) - set (map fi_file_uuid (tv_files vt)) = {1}"
proof -
  have "demo_delta (diff_table demo_cat demo_ident 20 30 demo_db3) = Some ([3], [1])"
    unfolding demo_db3_eq demo_db1_eq by code_simp
  then obtain delta where d: "diff_table demo_cat demo_ident 20 30 demo_db3 = Inr delta"
    and fs: "map fi_file_uuid (td_added_files delta) = [3]" "map fi_file_uuid (td_removed_files delta) = [1]"
    by (auto simp: demo_delta_def split: sum.splits)
  from diff_is_snapshot_difference [OF demo_reachable(3) d] d fs show ?thesis by auto
qed

end
