(* ===== verification/Atomicity.thy ===== *)
theory Atomicity
  imports Queries Deltas Progress
begin

text \<open>
  A read of several queries looks like a read of one database. Later operations only append
  transactions, never change the columns of a schema, and change the files and schemas of a
  transaction only by marks; so each query of a read finds what the database of its first (or
  second) query had, and the results, errors included, agree up to those marks.
\<close>

section \<open>Rows that later operations do not touch\<close>

abbreviation added_at :: "uuid \<Rightarrow> txn_id \<Rightarrow> file_row \<Rightarrow> bool" where
  "added_at tu t r \<equiv> f_table_uuid r = tu \<and> f_added_in r = t"

abbreviation removed_at :: "uuid \<Rightarrow> txn_id \<Rightarrow> file_row \<Rightarrow> bool" where
  "removed_at tu t r \<equiv> f_table_uuid r = tu \<and> f_removed_in r = Some t"

abbreviation starts_at :: "uuid \<Rightarrow> txn_id \<Rightarrow> schema_row \<Rightarrow> bool" where
  "starts_at tu t r \<equiv> s_table_uuid r = tu \<and> s_valid_from r = t"

text \<open>What every later database still has: all transaction rows, in their order; the columns of
  every schema; and, for a transaction, the files it added and removed and the schema it
  started, up to the marks that later transactions put on them.\<close>

definition grows :: "db \<Rightarrow> db \<Rightarrow> bool" where
  "grows d d' \<longleftrightarrow> (\<exists>xs. db_transactions d' = db_transactions d @ xs)
     \<and> schema_ids d \<subseteq> schema_ids d'
     \<and> (\<forall>u \<in> schema_ids d. select_columns u d' = select_columns u d)"

definition events_kept :: "uuid \<Rightarrow> txn_id \<Rightarrow> db \<Rightarrow> db \<Rightarrow> bool" where
  "events_kept tu t d d' \<longleftrightarrow>
     list_all2 same_file (filter (added_at tu t) (db_files d)) (filter (added_at tu t) (db_files d'))
     \<and> filter (removed_at tu t) (db_files d') = filter (removed_at tu t) (db_files d)
     \<and> list_all2 same_schema (filter (starts_at tu t) (db_schemas d)) (filter (starts_at tu t) (db_schemas d'))"

lemma grows_refl [simp]: "grows d d"
  by (simp add: grows_def)

lemma grows_schema:
  assumes "grows d d'" and "u \<in> schema_ids d"
  shows "u \<in> schema_ids d'" and "select_columns u d' = select_columns u d"
  using assms unfolding grows_def by (blast, blast)

lemma grows_trans: "grows a b \<Longrightarrow> grows b c \<Longrightarrow> grows a c"
proof -
  assume ab: "grows a b" and bc: "grows b c"
  have "select_columns u c = select_columns u a" if "u \<in> schema_ids a" for u
    using grows_schema [OF ab that] grows_schema(2) [OF bc] by simp
  moreover have "\<exists>xs. db_transactions c = db_transactions a @ xs"
  proof -
    from ab obtain xs where "db_transactions b = db_transactions a @ xs" unfolding grows_def by blast
    moreover from bc obtain ys where "db_transactions c = db_transactions b @ ys" unfolding grows_def by blast
    ultimately show ?thesis by simp
  qed
  moreover have "schema_ids a \<subseteq> schema_ids c"
    using grows_schema(1) [OF ab] grows_schema(1) [OF bc] by (intro subsetI) simp
  ultimately show ?thesis unfolding grows_def by blast
qed

lemma grows_select_txn: "grows d d' \<Longrightarrow> select_txn tu t d = Some r \<Longrightarrow> select_txn tu t d' = Some r"
  by (auto simp: grows_def select_txn_def find_append_Some)

lemma events_kept_refl [simp]: "events_kept tu t d d"
  by (simp add: events_kept_def list_all2_refl)

lemma events_kept_trans: "events_kept tu t a b \<Longrightarrow> events_kept tu t b c \<Longrightarrow> events_kept tu t a c"
  unfolding events_kept_def by (auto intro: list_all2_trans [OF same_file_trans] list_all2_trans [OF same_schema_trans])

lemma files_step_events:
  assumes step: "files_step tu0 x fs fs'" and ne: "t \<noteq> x"
  shows "list_all2 same_file (filter (added_at tu t) fs) (filter (added_at tu t) fs')"
    and "filter (removed_at tu t) fs' = filter (removed_at tu t) fs"
proof -
  from step obtain mid new where fs': "fs' = mid @ new" and mid: "list_all2 (file_step tu0 x) fs mid"
    and new: "list_all (file_written tu0 x) new" by (auto simp: files_step_def)
  have "list_all2 (file_step tu0 x) (filter (added_at tu t) fs) (filter (added_at tu t) mid)"
    by (rule list_all2_filter [OF mid]) (auto simp: file_step_def)
  then have "list_all2 same_file (filter (added_at tu t) fs) (filter (added_at tu t) mid)"
    by (rule list_all2_mono) (auto simp: file_step_def same_file_def)
  moreover have none: "filter (added_at tu t) new = []" "filter (removed_at tu t) new = []"
    using new ne by (auto simp: filter_empty_conv list_all_iff file_written_def)
  ultimately show "list_all2 same_file (filter (added_at tu t) fs) (filter (added_at tu t) fs')"
    by (simp add: fs')
  from mid have "filter (removed_at tu t) mid = filter (removed_at tu t) fs"
  proof (induction rule: list_all2_induct)
    case (Cons r rs r' rs')
    have "r' = r \<or> \<not> removed_at tu t r \<and> \<not> removed_at tu t r'"
      using Cons(1) ne by (auto simp: file_step_def)
    then show ?case using Cons(3) by (elim disjE) simp_all
  qed simp
  then show "filter (removed_at tu t) fs' = filter (removed_at tu t) fs" by (simp add: fs' none)
qed

lemma create_grows:
  assumes wf: "wf_db d" and body: "create_table_body cat dr ident location schema properties d = Inr (h, d')"
  shows "grows d d'" and "t \<in> txn_ids d \<Longrightarrow> events_kept tu t d d'"
proof -
  from body obtain p where fresh: "dr_txn dr \<notin> txn_ids d" "dr_v4 dr 1 \<notin> schema_ids d"
    and d': "d' = d\<lparr>db_tables := db_tables d @ [created_row cat dr ident location p],
       db_transactions := db_transactions d @ [created_txn dr],
       db_schemas := db_schemas d @ [created_schema dr],
       db_columns := db_columns d @ created_columns cat dr schema\<rparr>"
    by (rule create_summary)
  have "select_columns u d' = select_columns u d" if "u \<in> schema_ids d" for u
  proof -
    have "u \<noteq> dr_v4 dr 1" using that fresh(2) by blast
    then show ?thesis by (auto simp: select_columns_def d' filter_empty_conv dest!: column_rows_schema)
  qed
  then show "grows d d'" by (auto simp: grows_def d')
  show "events_kept tu t d d'" if "t \<in> txn_ids d"
  proof -
    have "t \<noteq> dr_txn dr" using that fresh(1) by blast
    then show ?thesis by (simp add: events_kept_def d' list_all2_refl)
  qed
qed

lemma close_schema_ids: "s_schema_uuid ` set (map (close_schema c x) ss) = s_schema_uuid ` set ss"
  by (induction ss) auto

lemma schema_effect_ids:
  assumes eff: "schema_effect lib dr m r d D su"
  shows "schema_ids d \<subseteq> schema_ids D" and "u \<in> schema_ids d \<Longrightarrow> select_columns u D = select_columns u d"
proof -
  show "schema_ids d \<subseteq> schema_ids D"
    using eff unfolding schema_effect_def
    by (elim disjE exE conjE) (simp_all only: set_append image_Un close_schema_ids Un_upper1 order_refl)
  assume u: "u \<in> schema_ids d"
  from eff show "select_columns u D = select_columns u d"
    unfolding schema_effect_def
  proof (elim disjE exE conjE)
    fix u' k spec
    assume u': "u' \<notin> schema_ids d" "db_columns D = db_columns d @ column_rows lib (dr_v4 dr) u' k 0 (ss_columns spec)"
    then have "u \<noteq> u'" using u by blast
    then show ?thesis by (auto simp: select_columns_def u'(2) filter_empty_conv dest!: column_rows_schema)
  qed (simp add: select_columns_def)
qed

lemma schema_effect_events:
  assumes eff: "schema_effect lib dr m r d D su" and ne: "t \<noteq> dr_txn dr"
  shows "list_all2 same_schema (filter (starts_at tu t) (db_schemas d)) (filter (starts_at tu t) (db_schemas D))"
proof -
  have close: "list_all2 same_schema (filter (starts_at tu t) ss) (filter (starts_at tu t) (map (close_schema c x) ss))"
    for c x ss by (induction ss) (auto simp: same_schema_def)
  from eff show ?thesis
    unfolding schema_effect_def by (elim disjE exE conjE) (use ne close in \<open>simp_all add: list_all2_refl\<close>)
qed

lemma commit_grows:
  assumes wf: "wf_db d" and body: "commit_body cat dr ident base m d = Inr (res, d')"
  shows "grows d d'" and "t \<in> txn_ids d \<Longrightarrow> events_kept tu t d d'"
proof -
  from wf body obtain r D su pt where d': "d' = update_table_commit (dr_txn dr) su pt (t_table_uuid r) D"
    and fresh: "dr_txn dr \<notin> txn_ids d"
    and txns: "db_transactions D = db_transactions d @ [commit_txn dr (t_table_uuid r) base]"
    and files: "files_step (t_table_uuid r) (dr_txn dr) (db_files d) (db_files D)"
    and eff: "schema_effect (cat_libs cat) dr m r d D su"
    by (rule commit_summary)
  have cols: "select_columns u d' = select_columns u D" for u
    by (simp add: select_columns_def d' update_table_commit_tables)
  show "grows d d'"
    unfolding grows_def cols using schema_effect_ids [OF eff] txns
    by (simp add: d' update_table_commit_tables)
  show "events_kept tu t d d'" if "t \<in> txn_ids d"
  proof -
    have ne: "t \<noteq> dr_txn dr" using that fresh by blast
    show ?thesis
      unfolding events_kept_def d' update_table_commit_tables
      using files_step_events [OF files ne] schema_effect_events [OF eff ne] by blast
  qed
qed

lemma step_grows:
  assumes "step lib d d'" and "wf_db d"
  shows "grows d d'" and "t \<in> txn_ids d \<Longrightarrow> events_kept tu t d d'"
  using assms by (cases rule: step_cases_wf; auto intro: create_grows commit_grows)+

lemma steps_grows:
  assumes "steps lib d d'" and wf: "wf_db d"
  shows "grows d d' \<and> (\<forall>tu. \<forall>t \<in> txn_ids d. events_kept tu t d d')"
  using assms(1)
proof (induction rule: rtranclp_induct)
  case (step b c)
  have wb: "wf_db b" using steps_wf [OF step(1) wf] .
  have "txn_ids d \<subseteq> txn_ids b" using step.IH by (auto simp: grows_def)
  then have "events_kept tu t d c" if "t \<in> txn_ids d" for tu t
    using step_grows(2) [OF step(2) wb, of t tu] step.IH that events_kept_trans by (meson subsetD)
  then show ?case using step_grows(1) [OF step(2) wb] step.IH grows_trans by blast
qed simp

section \<open>A run of the database\<close>

definition db_run_ok :: "libs \<Rightarrow> db_run \<Rightarrow> bool" where
  "db_run_ok lib ds \<longleftrightarrow> reachable lib (ds 0) \<and> (\<forall>k. steps lib (ds k) (ds (Suc k)))"

lemma db_run_steps: "db_run_ok lib ds \<Longrightarrow> j \<le> k \<Longrightarrow> steps lib (ds j) (ds k)"
proof (induction k)
  case (Suc k)
  then show ?case by (cases "j = Suc k") (auto simp: db_run_ok_def intro: rtranclp_trans)
qed simp

lemma db_run_reachable: "db_run_ok lib ds \<Longrightarrow> reachable lib (ds k)"
  using db_run_steps [of lib ds 0 k] reachable_steps by (auto simp: db_run_ok_def)

lemma db_run_wf: "db_run_ok lib ds \<Longrightarrow> wf_db (ds k)"
  using db_run_reachable reachable_wf by blast

lemma db_run_grows:
  assumes "db_run_ok lib ds" and "j \<le> k"
  shows "grows (ds j) (ds k)" and "t \<in> txn_ids (ds j) \<Longrightarrow> events_kept tu t (ds j) (ds k)"
  using steps_grows [OF db_run_steps [OF assms] db_run_wf [OF assms(1)]] by blast+

lemma db_run_snapshot:
  assumes "db_run_ok lib ds" and "j \<le> k" and "select_table ns n (ds j) = Some r"
    and "t \<in> set (txn_line (t_table_uuid r) (ds j))"
  shows "snapshot_kept (t_table_uuid r) t (ds j) (ds k)"
  using snapshot_kept_steps [OF db_run_steps [OF assms(1,2)] db_run_wf [OF assms(1)] assms(3,4)] .

section \<open>A snapshot read query by query\<close>

lemma walk_history_run_agree:
  assumes "\<And>j. k \<le> j \<Longrightarrow> grows d (ds j)"
    and "walk_history d tu t vs c \<noteq> Inl (InvalidState ChainBroken)"
  shows "agree (\<lambda>b (b', k'). b' = b \<and> k \<le> k') (walk_history d tu t vs c) (walk_history_run ds tu t vs k c)"
  using assms
proof (induction d tu t vs c arbitrary: k rule: walk_history.induct)
  case (1 d tu t vs c)
  show ?case
  proof (cases "c \<in> set vs \<or> c = t")
    case False
    with "1.prems"(2) obtain row where row: "select_txn tu c d = Some row"
      by (cases "select_txn tu c d") (auto simp: walk_history.simps [of d])
    then have row': "select_txn tu c (ds k) = Some row" using grows_select_txn "1.prems"(1) by blast
    show ?thesis
    proof (cases "x_parent_transaction_id row")
      case (Some q)
      have "agree (\<lambda>b (b', k'). b' = b \<and> k + 1 \<le> k') (walk_history d tu t (c # vs) q)
          (walk_history_run ds tu t (c # vs) (k + 1) q)"
        using "1.prems" False row Some by (intro "1.IH") (auto simp: walk_history.simps [of d tu t vs c])
      then have "agree (\<lambda>b (b', k'). b' = b \<and> k \<le> k') (walk_history d tu t (c # vs) q)
          (walk_history_run ds tu t (c # vs) (k + 1) q)"
        by (rule sum.rel_mono_strong) auto
      with False row row' Some show ?thesis by (simp add: walk_history.simps [of d] walk_history_run.simps [of ds])
    qed (use False row row' in \<open>simp add: walk_history.simps [of d] walk_history_run.simps [of ds]\<close>)
  qed (auto simp: walk_history.simps [of d] walk_history_run.simps [of ds])
qed

lemma check_in_history_run_agree:
  assumes run: "db_run_ok lib ds" and r: "r \<in> set (db_tables (ds k))" and h: "t_current_transaction_id r = Some h"
  shows "agree (\<lambda>_ k'. k \<le> k') (check_in_history (t_table_uuid r) h t (ds k))
     (check_in_history_run (t_table_uuid r) h t ds (Suc k))"
proof (cases "t = h")
  case False
  have "walk_history (ds k) (t_table_uuid r) t [] h \<noteq> Inl (InvalidState ChainBroken)"
    using check_in_history_line [OF db_run_wf [OF run] r h, of t] False
    by (auto simp: check_in_history_def split: if_splits)
  moreover have "grows (ds k) (ds j)" if "Suc k \<le> j" for j using db_run_grows(1) [OF run] that by simp
  ultimately have "agree (\<lambda>b (b', k'). b' = b \<and> Suc k \<le> k') (walk_history (ds k) (t_table_uuid r) t [] h)
      (walk_history_run ds (t_table_uuid r) t [] (Suc k) h)"
    by (intro walk_history_run_agree)
  with False show ?thesis
    unfolding check_in_history_def check_in_history_run_def by (auto elim!: agree_bind)
qed (simp add: check_in_history_def check_in_history_run_def)

lemma file_struct_agree:
  "same_file r r' \<Longrightarrow> agree (\<lambda>f g. erase_removed g = erase_removed f) (file_struct_of_row lib r) (file_struct_of_row lib r')"
  unfolding file_struct_of_row_def
  by (cases r; cases r') (auto simp: same_file_def erase_removed_def intro!: agree_bind [where A = "(=)"] sum.rel_refl)

lemma read_files_agree:
  assumes "list_all2 same_file (filter (file_visible_at tu t) (db_files d)) (filter (file_visible_at tu t) (db_files d'))"
  shows "agree (\<lambda>fs gs. map erase_removed gs = map erase_removed fs) (read_files lib tu t d) (read_files lib tu t d')"
proof -
  have "agree (list_all2 (\<lambda>f g. erase_removed g = erase_removed f))
      (mapM (file_struct_of_row lib) (filter (file_visible_at tu t) (db_files d)))
      (mapM (file_struct_of_row lib) (filter (file_visible_at tu t) (db_files d')))"
    using assms file_struct_agree by (rule agree_mapM)
  then have "agree (\<lambda>fs gs. map erase_removed gs = map erase_removed fs)
      (mapM (file_struct_of_row lib) (filter (file_visible_at tu t) (db_files d)))
      (mapM (file_struct_of_row lib) (filter (file_visible_at tu t) (db_files d')))"
    by (rule sum.rel_mono_strong) (auto simp: list_eq_iff_nth_eq list_all2_conv_all_nth)
  then show ?thesis
    using list_all2_lengthD [OF assms] by (simp add: read_files_code Let_def)
qed

abbreviation same_view :: "nat \<Rightarrow> table_view \<Rightarrow> table_view \<times> nat \<Rightarrow> bool" where
  "same_view k v w \<equiv> tv_properties (fst w) = tv_properties v \<and> view_content (fst w) = view_content v \<and> k \<le> snd w"

lemma schema_struct_same:
  "same_schema q q' \<Longrightarrow> schema_struct_of_row q' cols\<lparr>sc_valid_to_transaction_id := None\<rparr>
     = schema_struct_of_row q cols\<lparr>sc_valid_to_transaction_id := None\<rparr>"
  by (cases q; cases q') (simp add: same_schema_def schema_struct_of_row_def)

lemma read_schema_run_agree:
  assumes kept: "rel_option same_schema (find (schema_valid_at tu t) (db_schemas d)) (find (schema_valid_at tu t) (db_schemas (ds k)))"
    and grows: "grows d (ds (Suc k))"
  shows "agree (\<lambda>s s'. s'\<lparr>sc_valid_to_transaction_id := None\<rparr> = s\<lparr>sc_valid_to_transaction_id := None\<rparr>)
     (read_schema lib ident tu t d) (read_schema_run lib ident tu t ds k)"
  unfolding read_schema_def read_schema_run_def
proof (rule agree_bind [OF agree_ok_or [OF kept]])
  fix q q'
  assume q: "same_schema q q'" "ok_or (NotFound (NoSchemaAt (ti_namespace ident) (ti_name ident) t))
      (find (schema_valid_at tu t) (db_schemas d)) = Inr q"
  then have "s_schema_uuid q \<in> schema_ids d" by (auto simp: ok_or_eq_Inr dest!: find_SomeD)
  from grows_schema(2) [OF grows this] have "schema_columns lib msg (s_schema_uuid q) d
      = schema_columns lib msg (s_schema_uuid q') (ds (k + 1))" for msg
    by (simp add: schema_columns_def same_schema_uuid [OF q(1)])
  then show "agree (\<lambda>s s'. s'\<lparr>sc_valid_to_transaction_id := None\<rparr> = s\<lparr>sc_valid_to_transaction_id := None\<rparr>)
      (rbind (schema_columns lib (ColumnCount MAX_COLUMNS_PER_SCHEMA) (s_schema_uuid q) d)
        (\<lambda>columns. Inr (schema_struct_of_row q columns)))
      (rbind (schema_columns lib (ColumnCount MAX_COLUMNS_PER_SCHEMA) (s_schema_uuid q') (ds (k + 1)))
        (\<lambda>columns. Inr (schema_struct_of_row q' columns)))"
    by (intro agree_bind [where A = "(=)"]) (simp_all add: sum.rel_eq schema_struct_same [OF q(1)])
qed

lemma read_table_run_agree:
  assumes run: "db_run_ok lib ds"
  shows "agree (same_view k) (read_table cat ident t (ds k)) (read_table_run cat ident t ds k)"
  unfolding read_table_def read_table_run_def
proof (rule agree_bind [where A = "(=)"], goal_cases)
  case (2 x y)
  obtain r p h where x: "x = (r, p, h)" by (cases x)
  let ?tu = "t_table_uuid r"
  define e where "e = (case t of Some t \<Rightarrow> t | None \<Rightarrow> h)"
  from 2 x have sel: "select_table (ti_namespace ident) (ti_name ident) (ds k) = Some r"
    and h: "t_current_transaction_id r = Some h" by (auto simp: read_head_Inr)
  have r: "r \<in> set (db_tables (ds k))" using select_table_Some [OF sel] by simp
  note wf = db_run_wf [OF run]
  have stats: "read_stats ?tu e (ds j) = None" for j
    using wf [of j] by (simp add: read_stats_def wf_db_def refs_ok_def)
  show ?case
    unfolding x "2"(1) [symmetric] prod.case Let_def e_def [symmetric] Suc_eq_plus1 [symmetric] stats
  proof (rule agree_bind [OF check_in_history_run_agree [OF run r h]])
    fix u k'
    assume k: "k \<le> k'" and ok: "check_in_history ?tu h e (ds k) = Inr u"
    have "e \<in> set (txn_line ?tu (ds k))"
      using ok check_in_history_line [OF wf r h, of e] by (auto split: if_splits)
    note kept = db_run_snapshot [OF run _ sel this, unfolded snapshot_kept_def]
    have schema: "agree (\<lambda>s s'. s'\<lparr>sc_valid_to_transaction_id := None\<rparr> = s\<lparr>sc_valid_to_transaction_id := None\<rparr>)
        (read_schema (cat_libs cat) ident ?tu e (ds k)) (read_schema_run (cat_libs cat) ident ?tu e ds k')"
      using kept [of k'] k db_run_grows(1) [OF run] by (intro read_schema_run_agree) simp_all
    have files: "agree (\<lambda>fs gs. map erase_removed gs = map erase_removed fs)
        (read_files (cat_libs cat) ?tu e (ds k)) (read_files (cat_libs cat) ?tu e (ds (k' + 2)))"
      using kept [of "k' + 2"] k by (intro read_files_agree) simp
    show "agree (same_view k)
      (rbind (read_schema (cat_libs cat) ident ?tu e (ds k)) (\<lambda>schema. rbind (read_files (cat_libs cat) ?tu e (ds k)) (\<lambda>files.
         Inr \<lparr>tv_ident = ident, tv_table_uuid = ?tu, tv_transaction_id = e, tv_schema = schema, tv_files = files,
           tv_properties = p, tv_stats = None\<rparr>)))
      (rbind (read_schema_run (cat_libs cat) ident ?tu e ds k') (\<lambda>schema. rbind (read_files (cat_libs cat) ?tu e (ds (k' + 2))) (\<lambda>files.
         Inr (\<lparr>tv_ident = ident, tv_table_uuid = ?tu, tv_transaction_id = e, tv_schema = schema, tv_files = files,
           tv_properties = p, tv_stats = None\<rparr>, k' + 4))))"
      by (rule agree_bind [OF schema], rule agree_bind [OF files]) (use k in \<open>simp add: view_content_def\<close>)
  qed
qed (simp add: sum.rel_eq)

section \<open>The event log query by query\<close>

definition change_content :: "txn_file_change \<Rightarrow> txn_file_change" where
  "change_content c = c\<lparr>ch_file := erase_removed (ch_file c)\<rparr>"

definition event_content :: "txn_event \<Rightarrow> txn_event" where
  "event_content e = e\<lparr>ev_file_changes := map change_content (ev_file_changes e),
     ev_schema_change := map_option (\<lambda>g. g\<lparr>sg_schema := (sg_schema g)\<lparr>sc_valid_to_transaction_id := None\<rparr>\<rparr>)
       (ev_schema_change e)\<rparr>"

abbreviation same_changes :: "nat \<times> txn_file_change list \<Rightarrow> nat \<times> txn_file_change list \<Rightarrow> bool" where
  "same_changes s s' \<equiv> fst s' = fst s \<and> map change_content (snd s') = map change_content (snd s)"

lemma added_change_agree:
  assumes "same_file r r'" and "same_changes s s'"
  shows "agree same_changes (added_change lib s r) (added_change lib s' r')"
proof -
  have "f_added_in r' = f_added_in r" using assms(1) by (cases r; cases r') (simp add: same_file_def)
  then show ?thesis
    using assms(2) by (auto simp: added_change_def Let_def change_content_def intro!: agree_bind [OF file_struct_agree [OF assms(1)]])
qed

lemma removed_change_agree:
  assumes "same_changes s s'"
  shows "agree same_changes (removed_change lib s r) (removed_change lib s' r)"
  using assms
  by (auto simp: removed_change_def Let_def sum.rel_eq intro!: agree_bind [where A = "(=)"])

lemma schema_event_run_agree:
  assumes kept: "list_all2 same_schema (filter (starts_at tu t) (db_schemas d)) (filter (starts_at tu t) (db_schemas (ds k)))"
    and grows: "grows d (ds (Suc k))"
  shows "agree (\<lambda>(n, g) ((n', g'), k'). n' = n \<and> k \<le> k'
       \<and> map_option (\<lambda>g. g\<lparr>sg_schema := (sg_schema g)\<lparr>sc_valid_to_transaction_id := None\<rparr>\<rparr>) g'
         = map_option (\<lambda>g. g\<lparr>sg_schema := (sg_schema g)\<lparr>sc_valid_to_transaction_id := None\<rparr>\<rparr>) g)
     (schema_event lib d tu n t) (schema_event_run lib tu n t ds k)"
proof (cases "filter (starts_at tu t) (db_schemas d)")
  case Nil
  with kept show ?thesis by (simp add: schema_event_def schema_event_run_def)
next
  case (Cons q qs)
  with kept obtain q' qs' where q': "filter (starts_at tu t) (db_schemas (ds k)) = q' # qs'"
    "same_schema q q'" "length qs' = length qs"
    by (auto simp: list_all2_Cons1 dest: list_all2_lengthD)
  have "q \<in> set (filter (starts_at tu t) (db_schemas d))" unfolding Cons by simp
  then have u: "s_schema_uuid q \<in> schema_ids d" by auto
  have "s_valid_from q' = s_valid_from q" using q'(2) by (cases q; cases q') (simp add: same_schema_def)
  moreover have "schema_columns lib msg (s_schema_uuid q) d = schema_columns lib msg (s_schema_uuid q') (ds (k + 1))" for msg
    using grows_schema(2) [OF grows u] by (simp add: schema_columns_def same_schema_uuid [OF q'(2)])
  ultimately show ?thesis
    unfolding schema_event_def schema_event_run_def Cons q'(1)
    using q'(3) schema_struct_same [OF q'(2)]
    by (auto simp: Let_def sum.rel_eq take_Suc numeral_2_eq_2 intro!: agree_bind [where A = "(=)"])
qed

abbreviation same_events :: "nat \<Rightarrow> event_counts \<times> txn_event list \<Rightarrow> (event_counts \<times> txn_event list) \<times> nat \<Rightarrow> bool" where
  "same_events j s w \<equiv> fst (fst w) = fst s \<and> map event_content (snd (fst w)) = map event_content (snd s) \<and> j \<le> snd w"

lemma transaction_event_run_agree:
  assumes run: "db_run_ok lib ds" and t: "t \<in> txn_ids (ds j)" and same: "same_events j s w"
  shows "agree (same_events j) (transaction_event lib' (ds j) tu s t) (transaction_event_run lib' tu ds w t)"
proof -
  obtain n es where s: "s = (n, es)" by (cases s)
  obtain es' k where w: "w = ((n, es'), k)" "j \<le> k" "map event_content es' = map event_content es"
    using same s by (cases w) auto
  note kept = db_run_grows(2) [OF run _ t, unfolded events_kept_def]
  have added: "agree same_changes (foldM (added_change lib') (n_added n, []) (limit_rows MAX_FILES_PER_QUERY (filter (added_at tu t) (db_files (ds j)))))
      (foldM (added_change lib') (n_added n, []) (limit_rows MAX_FILES_PER_QUERY (filter (added_at tu t) (db_files (ds k)))))"
    using kept [of k tu] w(2) added_change_agree
    by (intro agree_foldM [where S = same_file]) (simp_all add: limit_rows_def list_all2_takeI)
  have removed: "agree same_changes (foldM (removed_change lib') c rs) (foldM (removed_change lib') c' rs)" if "same_changes c c'" for c c' rs
    using that removed_change_agree by (intro agree_foldM [where S = "(=)"]) (simp_all add: list.rel_eq)
  have rows: "filter (removed_at tu t) (db_files (ds (k + 1))) = filter (removed_at tu t) (db_files (ds j))"
    using kept [of "k + 1" tu] w(2) by simp
  have schema: "list_all2 same_schema (filter (starts_at tu t) (db_schemas (ds j))) (filter (starts_at tu t) (db_schemas (ds (k + 2))))"
    "grows (ds j) (ds (Suc (k + 2)))"
    using kept [of "k + 2" tu] db_run_grows(1) [OF run, of j "Suc (k + 2)"] w(2) by simp_all
  show ?thesis
    unfolding s w(1) transaction_event_def transaction_event_run_def Let_def case_prod_beta fst_conv snd_conv rows
    by (rule agree_bind [OF added], rule agree_bind [OF removed], simp,
        rule agree_bind [OF schema_event_run_agree [OF schema]])
       (use w(2,3) in \<open>auto simp: event_content_def\<close>)
qed

lemma walk_events_run_agree:
  assumes "\<And>j. k \<le> j \<Longrightarrow> grows d (ds j)"
    and "walk_events d tu fr desc c \<noteq> Inl (InvalidState RequestedTxnMissing)"
  shows "agree (\<lambda>x w. fst w = x \<and> k \<le> snd w) (walk_events d tu fr desc c) (walk_events_run ds tu fr desc k c)"
  using assms
proof (induction d tu fr desc c arbitrary: k rule: walk_events.induct)
  case (1 d tu fr desc c)
  show ?case
  proof (cases "c \<in> set desc")
    case False
    with "1.prems"(2) obtain row where row: "select_txn tu c d = Some row"
      by (cases "select_txn tu c d") (auto simp: walk_events.simps [of d])
    then have row': "select_txn tu c (ds k) = Some row" using grows_select_txn "1.prems"(1) by blast
    show ?thesis
    proof (cases "unat MAX_TRANSACTIONS_PER_SCAN < Suc (length desc) \<or> x_parent_transaction_id row \<in> {None, fr}")
      case stop: True
      with False row row' show ?thesis
        by (cases "x_parent_transaction_id row")
           (auto simp: walk_events.simps [of d tu fr desc c] walk_events_run.simps [of ds tu fr desc k c] Let_def)
    next
      case go: False
      then obtain q where q: "x_parent_transaction_id row = Some q" by auto
      have eq: "walk_events d tu fr desc c = walk_events d tu fr (desc @ [c]) q"
        "walk_events_run ds tu fr desc k c = walk_events_run ds tu fr (desc @ [c]) (k + 1) q"
        using go q False row row'
        by (simp_all add: walk_events.simps [of d tu fr desc c] walk_events_run.simps [of ds tu fr desc k c] Let_def)
      have "agree (\<lambda>x w. fst w = x \<and> k + 1 \<le> snd w) (walk_events d tu fr (desc @ [c]) q)
          (walk_events_run ds tu fr (desc @ [c]) (k + 1) q)"
        using "1.prems" False row q go eq(1) by (intro "1.IH") auto
      then show ?thesis unfolding eq by (rule sum.rel_mono_strong) auto
    qed
  qed (simp add: walk_events.simps [of d] walk_events_run.simps [of ds])
qed

text \<open>The query for \<open>to\<close> that \<open>list_transaction_events\<close> saves when \<open>to\<close> is the current
  transaction would find it: on a well-formed database the condition is about the row alone.\<close>

lemma event_range_selected:
  assumes wf: "wf_db d" and sel: "select_table (ti_namespace ident) (ti_name ident) d = Some r"
  shows "event_range cat ident cursor d =
     (if select_txn (t_table_uuid r) (rc_to_inclusive cursor) d = None then Inl (InvalidState RequestedTxnMissing)
      else rbind (walk_events d (t_table_uuid r) (rc_from_exclusive cursor) [] (rc_to_inclusive cursor))
        (\<lambda>(txn_ids_desc, reached). if \<not> reached then Inl (InvalidState NotAncestor)
           else Inr (t_table_uuid r, rev txn_ids_desc)))"
proof -
  have r: "r \<in> set (db_tables d)" using select_table_Some [OF sel] by simp
  note line = txn_line_props(1,4) [OF wf r]
  then have "select_txn (t_table_uuid r) (last (txn_line (t_table_uuid r) d)) d \<noteq> None"
    using select_txn_in_line [of "t_table_uuid r" "last (txn_line (t_table_uuid r) d)" d] by simp
  then show ?thesis using line(2) by (auto simp: event_range_def sel)
qed

lemma event_range_txns:
  assumes wf: "wf_db d" and ok: "event_range cat ident cursor d = Inr (tu, txns)"
  shows "set txns \<subseteq> txn_ids d"
proof -
  obtain fr to where cursor: "cursor = \<lparr>rc_from_exclusive = fr, rc_to_inclusive = to\<rparr>" by (cases cursor)
  obtain r where sel: "select_table (ti_namespace ident) (ti_name ident) d = Some r"
    using ok by (auto simp: event_range_def result_simps)
  let ?line = "txn_line (t_table_uuid r) d"
  let ?before = "takeWhile (\<lambda>x. x \<noteq> to) ?line"
  have "txns = since fr ?before @ [to]" "to \<in> set ?line"
    using ok unfolding cursor event_range_line [OF wf sel] Let_def by (auto split: if_splits)
  moreover obtain lo where "since fr ?before = drop lo ?before" using since_drop [of ?before fr] by blast
  ultimately have "set txns \<subseteq> set ?line" by (auto dest!: in_set_dropD set_takeWhileD)
  also have "\<dots> \<subseteq> txn_ids d" by (auto simp: txn_line_def table_txns_def)
  finally show ?thesis .
qed

lemma event_range_bounds:
  assumes wf: "wf_db d"
    and ok: "event_range cat ident \<lparr>rc_from_exclusive = Some a, rc_to_inclusive = b\<rparr> d = Inr (tu, txns)"
  obtains r where "select_table (ti_namespace ident) (ti_name ident) d = Some r"
    "a \<in> set (txn_line (t_table_uuid r) d)" "b \<in> set (txn_line (t_table_uuid r) d)"
proof -
  obtain r where sel: "select_table (ti_namespace ident) (ti_name ident) d = Some r"
    using ok by (auto simp: event_range_def result_simps)
  from ok show thesis
    unfolding event_range_line [OF wf sel] Let_def
    by (intro that [OF sel]) (auto split: if_splits dest: set_takeWhileD)
qed

lemma event_range_walk_agree:
  assumes run: "db_run_ok lib ds" and sel: "select_table (ti_namespace ident) (ti_name ident) (ds j) = Some r"
    and to: "select_txn (t_table_uuid r) (rc_to_inclusive cursor) (ds j) \<noteq> None" and k: "j \<le> k"
  shows "agree (\<lambda>x w. fst w = x \<and> j \<le> snd w) (event_range cat ident cursor (ds j))
     (rbind (walk_events_run ds (t_table_uuid r) (rc_from_exclusive cursor) [] k (rc_to_inclusive cursor))
       (\<lambda>((txn_ids_desc, reached), k). if \<not> reached then Inl (InvalidState NotAncestor)
          else Inr ((t_table_uuid r, rev txn_ids_desc), k)))"
proof -
  have r: "r \<in> set (db_tables (ds j))" using select_table_Some [OF sel] by simp
  note wf = db_run_wf [OF run, of j]
  have "walk_events (ds j) (t_table_uuid r) (rc_from_exclusive cursor) [] (rc_to_inclusive cursor)
      \<noteq> Inl (InvalidState RequestedTxnMissing)"
    using walk_events_since [OF wf r] to select_txn_in_line by (simp add: Let_def)
  moreover have "grows (ds j) (ds i)" if "k \<le> i" for i using db_run_grows(1) [OF run] k that by simp
  ultimately have "agree (\<lambda>x w. fst w = x \<and> k \<le> snd w)
      (walk_events (ds j) (t_table_uuid r) (rc_from_exclusive cursor) [] (rc_to_inclusive cursor))
      (walk_events_run ds (t_table_uuid r) (rc_from_exclusive cursor) [] k (rc_to_inclusive cursor))"
    by (intro walk_events_run_agree)
  then show ?thesis
    unfolding event_range_selected [OF wf sel] case_prod_beta if_not_P [OF to]
    by (rule agree_bind) (use k in auto)
qed

lemma event_range_run_agree:
  assumes run: "db_run_ok lib ds"
  shows "\<exists>j \<in> {k, k + 1}. agree (\<lambda>x w. fst w = x \<and> j \<le> snd w) (event_range cat ident cursor (ds j))
     (event_range_run cat ident cursor ds k)"
proof (cases "select_table (ti_namespace ident) (ti_name ident) (ds k)")
  case None
  then have "agree (\<lambda>x w. fst w = x \<and> k \<le> snd w) (event_range cat ident cursor (ds k)) (event_range_run cat ident cursor ds k)"
    by (simp add: event_range_def event_range_run_def)
  then show ?thesis by blast
next
  case (Some r)
  let ?tu = "t_table_uuid r" and ?to = "rc_to_inclusive cursor"
  note wf = db_run_wf [OF run]
  have r: "r \<in> set (db_tables (ds k))" using select_table_Some [OF Some] by simp
  obtain h where h: "t_current_transaction_id r = Some h" "select_txn ?tu h (ds k) \<noteq> None"
    using txn_line_props(1,4) [OF wf r] select_txn_in_line [of ?tu _ "ds k"] by auto
  show ?thesis
  proof (cases "select_txn ?tu ?to (ds k)")
    case to: (Some x)
    then have "select_txn ?tu ?to (ds (k + 1)) = Some x"
      using grows_select_txn [OF db_run_grows(1) [OF run, of k "k + 1"]] by simp
    then have "agree (\<lambda>x w. fst w = x \<and> k \<le> snd w) (event_range cat ident cursor (ds k)) (event_range_run cat ident cursor ds k)"
      using event_range_walk_agree [OF run Some, of cursor] to by (simp add: event_range_run_def Some h(1) Let_def)
    then show ?thesis by blast
  next
    case None
    then have ne: "h \<noteq> ?to" using h(2) by auto
    obtain r' where r': "select_table (ti_namespace ident) (ti_name ident) (ds (k + 1)) = Some r'" "t_table_uuid r' = ?tu"
      using row_kept_steps [OF db_run_steps [OF run, of k "k + 1"] wf Some] by (auto simp: row_kept_def)
    have "agree (\<lambda>x w. fst w = x \<and> k + 1 \<le> snd w) (event_range cat ident cursor (ds (k + 1))) (event_range_run cat ident cursor ds k)"
    proof (cases "select_txn ?tu ?to (ds (k + 1)) = None")
      case True
      then show ?thesis
        using ne r'(2) unfolding event_range_selected [OF wf r'(1)] by (simp add: event_range_run_def Some h(1))
    next
      case False
      then show ?thesis
        using event_range_walk_agree [OF run r'(1), of cursor "k + 2", unfolded r'(2)] ne
        by (auto simp: event_range_run_def Some h(1) Let_def)
    qed
    then show ?thesis by blast
  qed
qed

lemma list_transaction_events_run_agree:
  assumes run: "db_run_ok lib ds"
  shows "\<exists>j \<in> {k, k + 1}. agree (\<lambda>es w. map event_content (fst w) = map event_content es \<and> j \<le> snd w)
     (list_transaction_events cat ident cursor (ds j)) (list_transaction_events_run cat ident cursor ds k)"
proof -
  obtain j where j: "j \<in> {k, k + 1}" and range: "agree (\<lambda>x w. fst w = x \<and> j \<le> snd w)
      (event_range cat ident cursor (ds j)) (event_range_run cat ident cursor ds k)"
    using event_range_run_agree [OF run] by blast
  have "agree (same_events j) (foldM (transaction_event (cat_libs cat) (ds j) tu) s txns)
      (foldM (transaction_event_run (cat_libs cat) tu ds) w txns)"
    if "set txns \<subseteq> txn_ids (ds j)" "same_events j s w" for tu s w txns
  proof (rule agree_foldM [where S = "\<lambda>x y. x = y \<and> x \<in> txn_ids (ds j)"])
    show "list_all2 (\<lambda>x y. x = y \<and> x \<in> txn_ids (ds j)) txns txns" using that(1) by (auto simp: list_all2_same)
  qed (use that(2) transaction_event_run_agree [OF run] in auto)
  note events = this
  have "agree (\<lambda>es w. map event_content (fst w) = map event_content es \<and> j \<le> snd w)
     (list_transaction_events cat ident cursor (ds j)) (list_transaction_events_run cat ident cursor ds k)"
    unfolding list_transaction_events_def list_transaction_events_run_def events_of_def
  proof (rule agree_bind [OF range], goal_cases)
    case (1 x w)
    obtain tu txns i where w: "w = ((tu, txns), i)" "x = (tu, txns)" "j \<le> i" using 1(1) by (cases w; cases x) auto
    have sub: "set txns \<subseteq> txn_ids (ds j)" using event_range_txns [OF db_run_wf [OF run]] 1(2) w by blast
    show ?case
      unfolding w prod.case unfolding case_prod_beta
      by (rule agree_bind [OF events [OF sub]]) (use w in auto)
  qed
  with j show ?thesis by blast
qed

section \<open>A delta query by query\<close>

definition delta_content :: "table_delta \<Rightarrow> table_delta" where
  "delta_content x = x\<lparr>td_added_files := map erase_removed (td_added_files x),
     td_removed_files := map erase_removed (td_removed_files x),
     td_new_schema := map_option (\<lambda>s. s\<lparr>sc_valid_to_transaction_id := None\<rparr>) (td_new_schema x),
     td_new_properties := None\<rparr>"

abbreviation erase_map :: "file_map \<Rightarrow> file_map" where
  "erase_map \<equiv> map (apsnd erase_removed)"

lemma erase_removed_uuid [simp]: "fi_file_uuid (erase_removed f) = fi_file_uuid f"
  by (simp add: erase_removed_def)

lemma map_of_erase: "map_of (erase_map m) k = None \<longleftrightarrow> map_of m k = None"
  by (induction m) auto

lemma hash_erase:
  "erase_map (hash_remove k m) = hash_remove k (erase_map m)"
  "erase_map (hash_insert k v m) = hash_insert k (erase_removed v) (erase_map m)"
  by (induction m) (simp_all add: hash_insert_def hash_remove_def)

lemma project_change_erase:
  "map_prod erase_map erase_map (project_change c s)
     = project_change (change_content c) (map_prod erase_map erase_map s)"
  by (cases s; cases "ch_kind c")
     (simp_all add: project_change_def change_content_def Let_def hash_erase map_of_erase)

lemma fold_project_erase:
  "map_prod erase_map erase_map (fold project_change cs s)
     = fold project_change (map change_content cs) (map_prod erase_map erase_map s)"
  by (induction cs arbitrary: s) (simp_all add: project_change_erase)

lemma fold_events_erase:
  "map_prod erase_map erase_map (fold (\<lambda>e. fold project_change (ev_file_changes e)) es s)
     = fold (\<lambda>e. fold project_change (ev_file_changes e)) (map event_content es) (map_prod erase_map erase_map s)"
  by (induction es arbitrary: s) (simp_all add: fold_project_erase event_content_def)

lemma project_delta_content:
  assumes "map event_content es' = map event_content es"
    and "map_option (\<lambda>s. s\<lparr>sc_valid_to_transaction_id := None\<rparr>) g' = map_option (\<lambda>s. s\<lparr>sc_valid_to_transaction_id := None\<rparr>) g"
  shows "delta_content (project_delta_range a b es' g' p') = delta_content (project_delta_range a b es g p)"
proof -
  let ?run = "\<lambda>es. fold (\<lambda>e. fold project_change (ev_file_changes e)) es ([], [])"
  have "map_prod erase_map erase_map (?run es') = map_prod erase_map erase_map (?run es)"
    using assms(1) fold_events_erase [of _ "([], [])"] by simp
  then have "erase_map (fst (?run es')) = erase_map (fst (?run es))" "erase_map (snd (?run es')) = erase_map (snd (?run es))"
    by (metis fst_map_prod, metis snd_map_prod)
  then have "map erase_removed (map snd (fst (?run es'))) = map erase_removed (map snd (fst (?run es)))"
    "map erase_removed (map snd (snd (?run es'))) = map erase_removed (map snd (snd (?run es)))"
    by (metis (no_types) list.map_comp snd_comp_apsnd)+
  then show ?thesis
    using assms(2) by (simp add: project_delta_range_def delta_content_def case_prod_beta Let_def)
qed

lemma read_head_later:
  assumes run: "db_run_ok lib ds" and codec: "json_codec (lib_json lib)" and cat: "cat_libs cat = lib"
    and k: "j \<le> k" and sel: "select_table (ti_namespace ident) (ti_name ident) (ds j) = Some r"
  shows "agree (\<lambda>(r, p, h) (r', p', h'). t_table_uuid r' = t_table_uuid r
       \<and> select_table (ti_namespace ident) (ti_name ident) (ds k) = Some r' \<and> t_current_transaction_id r' = Some h')
     (read_head cat ident (ds j)) (read_head cat ident (ds k))"
proof -
  obtain r' where r': "select_table (ti_namespace ident) (ti_name ident) (ds k) = Some r'" "row_kept lib r r'"
    using row_kept_steps [OF db_run_steps [OF run k] db_run_wf [OF run] sel] by blast
  have parse: "\<exists>p. parse_table_properties (lib_json lib) (t_properties q) = Inr p"
    if "select_table (ti_namespace ident) (ti_name ident) (ds i) = Some q" for i q
    using stored_row [OF reachable_properties_stored [OF db_run_reachable [OF run]] codec, of q i]
      select_table_Some [OF that] by metis
  obtain p p' where "parse_table_properties (lib_json lib) (t_properties r) = Inr p"
    "parse_table_properties (lib_json lib) (t_properties r') = Inr p'"
    using parse [OF sel] parse [OF r'(1)] by blast
  then show ?thesis
    using r' sel cat by (auto simp: read_head_def row_kept_def ensure_reader_protocol_compatible_def Let_def)
qed

lemma read_table_later:
  assumes run: "db_run_ok lib ds" and codec: "json_codec (lib_json lib)" and cat: "cat_libs cat = lib"
    and k: "j \<le> k" and sel: "select_table (ti_namespace ident) (ti_name ident) (ds j) = Some r"
    and t: "t \<in> set (txn_line (t_table_uuid r) (ds j))"
  shows "agree (\<lambda>v v'. view_content v' = view_content v)
     (read_table cat ident (Some t) (ds j)) (read_table cat ident (Some t) (ds k))"
  unfolding read_table_def
proof (rule agree_bind [OF read_head_later [OF run codec cat k sel]], goal_cases)
  case (1 x y)
  obtain p h r' p' h' where xy: "x = (r, p, h)" "y = (r', p', h')" "t_table_uuid r' = t_table_uuid r"
    "t_current_transaction_id r = Some h" "t_current_transaction_id r' = Some h'" "r' \<in> set (db_tables (ds k))"
    using 1 sel by (cases x; cases y) (auto simp: read_head_Inr dest: select_table_Some)
  note wf = db_run_wf [OF run]
  note kept = db_run_snapshot [OF run k sel t, unfolded snapshot_kept_def]
  have "r \<in> set (db_tables (ds j))" using select_table_Some [OF sel] by simp
  then have hist: "check_in_history (t_table_uuid r) h t (ds j) = Inr ()"
    "check_in_history (t_table_uuid r) h' t (ds k) = Inr ()"
    using check_in_history_line [OF wf _ xy(4), of j t] check_in_history_line [OF wf xy(6,5), of t] t kept xy(3) by auto
  have stats: "read_stats (t_table_uuid r) t (ds i) = None" for i
    using wf [of i] by (simp add: read_stats_def wf_db_def refs_ok_def)
  have schema: "agree (\<lambda>s s'. s'\<lparr>sc_valid_to_transaction_id := None\<rparr> = s\<lparr>sc_valid_to_transaction_id := None\<rparr>)
      (read_schema (cat_libs cat) ident (t_table_uuid r) t (ds j)) (read_schema (cat_libs cat) ident (t_table_uuid r) t (ds k))"
    using read_schema_run_agree [of "t_table_uuid r" t "ds j" "\<lambda>_. ds k" 0] kept db_run_grows(1) [OF run k]
    by (simp add: read_schema_run_def read_schema_def)
  have files: "agree (\<lambda>fs gs. map erase_removed gs = map erase_removed fs)
      (read_files (cat_libs cat) (t_table_uuid r) t (ds j)) (read_files (cat_libs cat) (t_table_uuid r) t (ds k))"
    using kept by (intro read_files_agree) simp
  show ?case
    unfolding xy(1,2) prod.case Let_def option.case xy(3) hist rbind_Inr stats
    by (rule agree_bind [OF schema], rule agree_bind [OF files]) (simp add: view_content_def)
qed

lemma read_table_run_later:
  assumes "db_run_ok lib ds" and "json_codec (lib_json lib)" and "cat_libs cat = lib" and "j \<le> k"
    and "select_table (ti_namespace ident) (ti_name ident) (ds j) = Some r"
    and "t \<in> set (txn_line (t_table_uuid r) (ds j))"
  shows "agree (\<lambda>v w. view_content (fst w) = view_content v \<and> j \<le> snd w)
     (read_table cat ident (Some t) (ds j)) (read_table_run cat ident (Some t) ds k)"
proof -
  have "rel_sum ((=) OO (=)) ((\<lambda>v v'. view_content v' = view_content v) OO same_view k)
      (read_table cat ident (Some t) (ds j)) (read_table_run cat ident (Some t) ds k)"
    unfolding sum.rel_compp using read_table_later [OF assms] read_table_run_agree [OF assms(1)] by blast
  then show ?thesis by (rule sum.rel_mono_strong) (use assms(4) in auto)
qed

lemma view_content_schema:
  assumes "view_content v' = view_content v"
  shows "(tv_schema v')\<lparr>sc_valid_to_transaction_id := None\<rparr> = (tv_schema v)\<lparr>sc_valid_to_transaction_id := None\<rparr>"
  using arg_cong [OF assms, of tv_schema] by (simp add: view_content_def)

lemma view_content_files:
  "view_content v' = view_content v \<Longrightarrow> map erase_removed (tv_files v') = map erase_removed (tv_files v)"
  by (drule arg_cong [of _ _ tv_files]) (simp add: view_content_def)

lemma view_content_schema_uuid:
  "view_content v' = view_content v \<Longrightarrow> sc_schema_uuid (tv_schema v') = sc_schema_uuid (tv_schema v)"
  by (drule view_content_schema, drule arg_cong [of _ _ sc_schema_uuid]) simp

lemma diff_table_run_agree:
  assumes run: "db_run_ok lib ds" and codec: "json_codec (lib_json lib)" and cat: "cat_libs cat = lib"
  shows "\<exists>j \<in> {k, k + 1}. agree (\<lambda>x w. delta_content (fst w) = delta_content x)
     (diff_table cat ident a b (ds j)) (diff_table_run cat ident a b ds k)"
proof -
  let ?cursor = "\<lparr>rc_from_exclusive = Some a, rc_to_inclusive = b\<rparr>"
  obtain j where j: "j \<in> {k, k + 1}" and events: "agree (\<lambda>es w. map event_content (fst w) = map event_content es \<and> j \<le> snd w)
      (list_transaction_events cat ident ?cursor (ds j)) (list_transaction_events_run cat ident ?cursor ds k)"
    using list_transaction_events_run_agree [OF run] by blast
  have "agree (\<lambda>x w. delta_content (fst w) = delta_content x) (diff_table cat ident a b (ds j)) (diff_table_run cat ident a b ds k)"
    unfolding diff_table_def diff_table_run_def
  proof (rule agree_bind [OF events], goal_cases)
    case (1 es w)
    obtain tu txns where "event_range cat ident ?cursor (ds j) = Inr (tu, txns)"
      using 1(2) by (auto simp: list_transaction_events_def result_simps)
    then obtain r where sel: "select_table (ti_namespace ident) (ti_name ident) (ds j) = Some r"
      and ab: "a \<in> set (txn_line (t_table_uuid r) (ds j))" "b \<in> set (txn_line (t_table_uuid r) (ds j))"
      by (rule event_range_bounds [OF db_run_wf [OF run]])
    note view = read_table_run_later [OF run codec cat _ sel]
    have same: "delta_content (project_delta_range a b es' (if sc_schema_uuid (tv_schema v') \<noteq> sc_schema_uuid (tv_schema u') then Some (tv_schema u') else None) p')
        = delta_content (project_delta_range a b es (if sc_schema_uuid (tv_schema v) \<noteq> sc_schema_uuid (tv_schema u) then Some (tv_schema u) else None) p)"
      if "map event_content es' = map event_content es" "view_content v' = view_content v" "view_content u' = view_content u"
      for es' v v' u u' p p'
      using that(1) view_content_schema_uuid [OF that(2)] view_content_schema_uuid [OF that(3)] view_content_schema [OF that(3)]
      by (intro project_delta_content) simp_all
    show ?case
      unfolding case_prod_beta Let_def
      by (rule agree_bind [OF view [OF _ ab(1)]], use 1 in simp, rule agree_bind [OF view [OF _ ab(2)]], simp)
         (use 1 same in simp)
  qed
  with j show ?thesis by blast
qed

section \<open>Reads are atomic\<close>

text \<open>A run in which the commit that deletes a file, updates the schema and sets the properties falls
  before the query number \<open>n\<close>.\<close>

definition demo_run :: "nat \<Rightarrow> db_run" where
  "demo_run n k = (if k < n then demo_db2 else demo_db3)"

lemma demo_run_steps:
  "0 < n \<Longrightarrow> reachable demo_libs (demo_run n 0)" "\<forall>k. steps demo_libs (demo_run n k) (demo_run n (Suc k))"
  using demo_reachable(2) demo_step3 by (auto simp: demo_run_def)

text \<open>C4. A snapshot read is atomic although its queries are not: whatever the catalog does between
  the queries of one \<open>read_table\<close>, the outcome, errors included, is that of reading the database
  its first query saw: the same transaction, schema, columns, files, statistics and
  properties. Only the closing mark of the schema and the removal marks of files may be newer.\<close>

theorem interleaved_read_atomic:
  assumes "reachable lib (ds 0)" and "\<forall>k. steps lib (ds k) (ds (Suc k))"
  shows "map_sum id (\<lambda>(v, _). (tv_properties v, view_content v)) (read_table_run cat ident t ds 0)
     = map_sum id (\<lambda>v. (tv_properties v, view_content v)) (read_table cat ident t (ds 0))"
proof -
  have "db_run_ok lib ds" using assms by (simp add: db_run_ok_def)
  then have "agree (same_view 0) (read_table cat ident t (ds 0)) (read_table_run cat ident t ds 0)"
    by (rule read_table_run_agree)
  then show ?thesis
    by (cases "read_table cat ident t (ds 0)"; cases "read_table_run cat ident t ds 0") auto
qed

theorem interleaved_read_atomic_witness:
  "\<exists>v w n. read_table demo_cat demo_ident None demo_db2 = Inr v
     \<and> read_table_run demo_cat demo_ident None (demo_run 1) 0 = Inr (w, n)
     \<and> map fi_file_uuid (tv_files w) = [1, 2] \<and> view_content w = view_content v"
proof -
  have "demo_files (read_table demo_cat demo_ident None demo_db2) = [1, 2]"
    unfolding demo_db2_eq demo_db1_eq by code_simp
  then obtain v where v: "read_table demo_cat demo_ident None demo_db2 = Inr v" "map fi_file_uuid (tv_files v) = [1, 2]"
    by (auto simp: demo_files_def split: sum.splits)
  have "demo_run 1 0 = demo_db2" by (simp add: demo_run_def)
  with interleaved_read_atomic [OF demo_run_steps(1) demo_run_steps(2), of 1 demo_cat demo_ident None] v(1)
  obtain w n where w: "read_table_run demo_cat demo_ident None (demo_run 1) 0 = Inr (w, n)"
    "view_content w = view_content v"
    by (cases "read_table_run demo_cat demo_ident None (demo_run 1) 0") auto
  from arg_cong [OF view_content_files [OF w(2)], of "map fi_file_uuid"]
  have "map fi_file_uuid (tv_files w) = map fi_file_uuid (tv_files v)" by (simp add: comp_def)
  with v w show ?thesis by auto
qed

text \<open>C10. The event log and deltas are atomic too: under any interleaving of their queries with other
  operations, \<open>list_transaction_events\<close> and \<open>diff_table\<close> give, errors included, the transactions,
  file changes, schema changes and differences of one database, the one the first or the one the
  second query saw. Closing and removal marks may be newer; the properties a delta reports are
  not covered.\<close>

theorem interleaved_diff_atomic:
  assumes "reachable lib (ds 0)" and "\<forall>k. steps lib (ds k) (ds (Suc k))"
    and "cat_libs cat = lib" and "json_codec (lib_json lib)"
  shows "(\<exists>d \<in> {ds 0, ds 1}. map_sum id (\<lambda>(es, _). map event_content es) (list_transaction_events_run cat ident cursor ds 0)
       = map_sum id (map event_content) (list_transaction_events cat ident cursor d))
    \<and> (\<exists>d \<in> {ds 0, ds 1}. map_sum id (\<lambda>(x, _). delta_content x) (diff_table_run cat ident a b ds 0)
       = map_sum id delta_content (diff_table cat ident a b d))"
proof -
  have run: "db_run_ok lib ds" using assms(1,2) by (simp add: db_run_ok_def)
  obtain i where "i \<in> {0, 1}" "agree (\<lambda>es w. map event_content (fst w) = map event_content es \<and> i \<le> snd w)
      (list_transaction_events cat ident cursor (ds i)) (list_transaction_events_run cat ident cursor ds 0)"
    using list_transaction_events_run_agree [OF run, of 0] unfolding add_0 by blast
  then have "map_sum id (\<lambda>(es, _). map event_content es) (list_transaction_events_run cat ident cursor ds 0)
      = map_sum id (map event_content) (list_transaction_events cat ident cursor (ds i))" "i \<in> {0, 1}"
    by (cases "list_transaction_events cat ident cursor (ds i)";
        cases "list_transaction_events_run cat ident cursor ds 0"; auto)+
  moreover obtain j where "j \<in> {0, 1}" "agree (\<lambda>x w. delta_content (fst w) = delta_content x)
      (diff_table cat ident a b (ds j)) (diff_table_run cat ident a b ds 0)"
    using diff_table_run_agree [OF run assms(4,3), of 0] unfolding add_0 by blast
  then have "map_sum id (\<lambda>(x, _). delta_content x) (diff_table_run cat ident a b ds 0)
      = map_sum id delta_content (diff_table cat ident a b (ds j))" "j \<in> {0, 1}"
    by (cases "diff_table cat ident a b (ds j)"; cases "diff_table_run cat ident a b ds 0"; auto)+
  ultimately show ?thesis by blast
qed

definition demo_delta :: "catalog_error + table_delta \<times> nat \<Rightarrow> (uuid list \<times> table_properties option) option" where
  "demo_delta res = (case res of Inr (x, _) \<Rightarrow> Some (map fi_file_uuid (td_added_files x), td_new_properties x) | Inl _ \<Rightarrow> None)"

lemma demo_run_delta:
  "demo_delta (diff_table_run demo_cat demo_ident 10 20 (demo_run 11) 0)
     = Some ([1, 2], Some \<lparr>tp_values = [(''owner'', JString ''ann'')]\<rparr>)"
  unfolding demo_run_def [abs_def] demo_db3_eq demo_db2_eq demo_db1_eq by code_simp

theorem interleaved_diff_atomic_witness:
  "\<exists>x w n. diff_table demo_cat demo_ident 10 20 demo_db2 = Inr x
     \<and> diff_table_run demo_cat demo_ident 10 20 (demo_run 11) 0 = Inr (w, n)
     \<and> map fi_file_uuid (td_added_files w) = [1, 2] \<and> delta_content w = delta_content x"
proof -
  obtain w n where w: "diff_table_run demo_cat demo_ident 10 20 (demo_run 11) 0 = Inr (w, n)"
    "map fi_file_uuid (td_added_files w) = [1, 2]"
    using demo_run_delta by (auto simp: demo_delta_def split: sum.splits)
  have ds: "demo_run 11 0 = demo_db2" "demo_run 11 1 = demo_db2" by (simp_all add: demo_run_def)
  from interleaved_diff_atomic [OF demo_run_steps(1) demo_run_steps(2) demo_libs_cat demo_json, of 11 demo_ident _ 10 20]
  have "map_sum id delta_content (diff_table demo_cat demo_ident 10 20 demo_db2)
       = map_sum id (\<lambda>(x, _). delta_content x) (diff_table_run demo_cat demo_ident 10 20 (demo_run 11) 0)"
    unfolding ds by (metis singletonD insert_absorb2 zero_less_numeral)
  with w show ?thesis by (cases "diff_table demo_cat demo_ident 10 20 demo_db2") auto
qed



end
