(* ===== verification/Isolation.thy ===== *)
theory Isolation
  imports Atomicity
begin

text \<open>
  Tables do not influence each other. Operations on one table leave the rows of every other
  table as they are, so everything a client can read of the other table is exactly the same
  before and after.
\<close>

section \<open>Operations with their table\<close>

inductive table_step :: "libs \<Rightarrow> table_ident \<Rightarrow> db \<Rightarrow> db \<Rightarrow> bool" for lib :: libs and ident :: table_ident where
  create: "table_step lib ident d d'"
    if "create_table cat dr ident location schema properties d = (res, d')" and "cat_libs cat = lib"
| commit: "table_step lib ident d d'"
    if "commit cat dr ident base m d = (res, d')" and "cat_libs cat = lib" and "base < dr_txn dr"
| drop: "table_step lib ident d d'"
    if "drop_table cat ident d = (res, d')"

inductive_cases table_stepE: "table_step lib ident d d'"

lemma step_table: "step lib d d' \<longleftrightarrow> (\<exists>ident. table_step lib ident d d')"
proof
  assume "step lib d d'"
  then show "\<exists>ident. table_step lib ident d d'" by cases (blast intro: table_step.intros)+
next
  assume "\<exists>ident. table_step lib ident d d'"
  then show "step lib d d'" by (blast elim: table_stepE intro: step.intros)
qed

section \<open>The rows of one table\<close>

definition table_same :: "uuid \<Rightarrow> db \<Rightarrow> db \<Rightarrow> bool" where
  "table_same tu d d' \<longleftrightarrow> table_txns tu d' = table_txns tu d \<and> table_schemas tu d' = table_schemas tu d
     \<and> table_files tu d' = table_files tu d
     \<and> (\<forall>s \<in> set (table_schemas tu d). select_columns (s_schema_uuid s) d' = select_columns (s_schema_uuid s) d)"

definition unaffected :: "table_ident \<Rightarrow> db \<Rightarrow> db \<Rightarrow> bool" where
  "unaffected ident d d' \<longleftrightarrow>
     select_table (ti_namespace ident) (ti_name ident) d' = select_table (ti_namespace ident) (ti_name ident) d
     \<and> (\<forall>r. select_table (ti_namespace ident) (ti_name ident) d = Some r \<longrightarrow> table_same (t_table_uuid r) d d')"

lemma table_same_trans: "table_same tu a b \<Longrightarrow> table_same tu b c \<Longrightarrow> table_same tu a c"
  by (simp add: table_same_def)

lemma unaffected_refl [simp]: "unaffected ident d d"
  by (simp add: unaffected_def table_same_def)

lemma unaffected_trans: "unaffected ident a b \<Longrightarrow> unaffected ident b c \<Longrightarrow> unaffected ident a c"
  unfolding unaffected_def by (metis table_same_trans)

lemma create_unaffected:
  assumes wf: "wf_db d" and body: "create_table_body cat dr ident location schema properties d = Inr (h, d')"
    and other: "ident' \<noteq> ident"
  shows "unaffected ident' d d'"
proof -
  from body obtain p where fresh: "dr_v4 dr 0 \<notin> table_ids d"
    and tabs: "db_tables d' = db_tables d @ [created_row cat dr ident location p]"
    by (rule create_summary) simp
  have "\<not> (t_namespace (created_row cat dr ident location p) = ti_namespace ident'
      \<and> t_table_name (created_row cat dr ident location p) = ti_name ident')"
    using other by (cases ident; cases ident') auto
  then have sel: "select_table (ti_namespace ident') (ti_name ident') d' = select_table (ti_namespace ident') (ti_name ident') d"
    unfolding select_table_def tabs by (rule find_snoc)
  have "table_same (t_table_uuid r) d d'" if "select_table (ti_namespace ident') (ti_name ident') d = Some r" for r
  proof -
    have "t_table_uuid r \<noteq> dr_v4 dr 0" using select_table_Some [OF that] fresh by (metis imageI)
    moreover have "select_columns (s_schema_uuid s) d' = select_columns (s_schema_uuid s) d"
      if "s \<in> set (table_schemas (t_table_uuid r) d)" for s
      using grows_schema(2) [OF create_grows(1) [OF wf body]] that by (simp add: table_schemas_def)
    ultimately show ?thesis by (simp add: table_same_def created_rows [OF wf body])
  qed
  with sel show ?thesis by (simp add: unaffected_def)
qed

lemma commit_unaffected:
  assumes wf: "wf_db d" and body: "commit_body cat dr ident base m d = Inr (res, d')" and other: "ident' \<noteq> ident"
  shows "unaffected ident' d d'"
proof -
  from wf body obtain r D su pt where sel: "select_table (ti_namespace ident) (ti_name ident) d = Some r"
    and d': "d' = update_table_commit (dr_txn dr) su pt (t_table_uuid r) D"
    and txns: "db_transactions D = db_transactions d @ [commit_txn dr (t_table_uuid r) base]"
    and files: "files_step (t_table_uuid r) (dr_txn dr) (db_files d) (db_files D)"
    and eff: "schema_effect (cat_libs cat) dr m r d D su"
    by (rule commit_summary)
  have r: "r \<in> set (db_tables d)" using select_table_Some [OF sel] by simp
  have "table_same (t_table_uuid q) d d'" if q: "select_table (ti_namespace ident') (ti_name ident') d = Some q" for q
  proof -
    have ne: "t_table_uuid q \<noteq> t_table_uuid r"
      using table_row_unique [OF wf r] select_table_Some [OF q] select_table_Some [OF sel] other
      by (cases ident; cases ident') auto
    have "table_schemas (t_table_uuid q) D = table_schemas (t_table_uuid q) d"
      using schema_effect_other [OF eff _ ne] current_schema_open [OF wf r] wf by (simp add: wf_db_def)
    moreover have "table_files (t_table_uuid q) D = table_files (t_table_uuid q) d"
      using files_step_other [OF files ne] by (simp add: table_files_def)
    moreover have "select_columns (s_schema_uuid s) d' = select_columns (s_schema_uuid s) d"
      if "s \<in> set (table_schemas (t_table_uuid q) d)" for s
      using grows_schema(2) [OF commit_grows(1) [OF wf body]] that by (simp add: table_schemas_def)
    ultimately show ?thesis
      using ne by (simp add: table_same_def d' table_txns_def table_schemas_def table_files_def update_table_commit_tables txns)
  qed
  with commit_other_table [OF wf body other] show ?thesis by (simp add: unaffected_def)
qed

lemma table_step_unaffected:
  assumes "table_step lib ident d d'" and wf: "wf_db d" and other: "ident' \<noteq> ident"
  shows "unaffected ident' d d'"
  using assms(1)
proof cases
  case (create cat dr location schema properties res)
  then show ?thesis
    unfolding create_table_def by (elim run_tx_cases) (auto intro: create_unaffected [OF wf _ other])
next
  case (commit cat dr base m res)
  then show ?thesis
    unfolding commit_def by (elim run_tx_cases) (auto intro: commit_unaffected [OF wf _ other])
next
  case (drop cat res)
  then have "d' = d" by (rule drop_unchanged [OF wf])
  then show ?thesis by simp
qed

section \<open>Reads of an unaffected table\<close>

lemma find_filter: "find (\<lambda>x. A x \<and> P x) xs = find P (filter A xs)"
  by (induction xs) auto

lemma filter_conj: "filter (\<lambda>x. A x \<and> P x) xs = filter P (filter A xs)"
  by (simp add: conj_commute)

lemma table_same_queries:
  assumes "table_same tu d d'"
  shows "select_txn tu t d' = select_txn tu t d"
    and "find (schema_valid_at tu t) (db_schemas d') = find (schema_valid_at tu t) (db_schemas d)"
    and "filter (file_visible_at tu t) (db_files d') = filter (file_visible_at tu t) (db_files d)"
    and "filter (added_at tu t) (db_files d') = filter (added_at tu t) (db_files d)"
    and "filter (removed_at tu t) (db_files d') = filter (removed_at tu t) (db_files d)"
    and "filter (starts_at tu t) (db_schemas d') = filter (starts_at tu t) (db_schemas d)"
  using assms
  unfolding table_same_def table_txns_def table_schemas_def table_files_def select_txn_def
    schema_valid_at_def file_visible_at_def find_filter filter_conj
  by simp_all

lemma table_same_columns:
  assumes "table_same tu d d'" and "s \<in> set (db_schemas d)" and "s_table_uuid s = tu"
  shows "schema_columns lib msg (s_schema_uuid s) d' = schema_columns lib msg (s_schema_uuid s) d"
  using assms by (simp add: table_same_def table_schemas_def schema_columns_def)

lemma walk_history_same:
  "table_same tu d d' \<Longrightarrow> walk_history d' tu t vs c = walk_history d tu t vs c"
proof (induction d tu t vs c rule: walk_history.induct)
  case (1 d tu t vs c)
  then show ?case
    by (simp add: walk_history.simps [of d'] walk_history.simps [of d] table_same_queries(1) split: option.split)
qed

lemma walk_events_same:
  "table_same tu d d' \<Longrightarrow> walk_events d' tu fr desc c = walk_events d tu fr desc c"
proof (induction d tu fr desc c rule: walk_events.induct)
  case (1 d tu fr desc c)
  then show ?case
    by (simp add: walk_events.simps [of d'] walk_events.simps [of d] table_same_queries(1) Let_def split: option.split)
qed

lemma read_schema_unaffected:
  assumes "table_same tu d d'"
  shows "read_schema lib ident tu t d' = read_schema lib ident tu t d"
proof (cases "find (schema_valid_at tu t) (db_schemas d)")
  case (Some s)
  then have "s \<in> set (db_schemas d)" "s_table_uuid s = tu" by (auto simp: schema_valid_at_def dest: find_SomeD)
  from table_same_columns [OF assms this] Some show ?thesis
    by (simp add: read_schema_def table_same_queries(2) [OF assms])
qed (simp add: read_schema_def table_same_queries(2) [OF assms])

lemma schema_event_unaffected:
  assumes "table_same tu d d'"
  shows "schema_event lib d' tu n t = schema_event lib d tu n t"
proof (cases "filter (starts_at tu t) (db_schemas d)")
  case (Cons s ss)
  then have "s \<in> set (filter (starts_at tu t) (db_schemas d))" by simp
  then have "s \<in> set (db_schemas d)" "s_table_uuid s = tu" by simp_all
  from table_same_columns [OF assms this] Cons show ?thesis
    by (simp add: schema_event_def table_same_queries(6) [OF assms] take_Suc numeral_2_eq_2 Let_def)
qed (simp add: schema_event_def table_same_queries(6) [OF assms])

lemma transaction_event_unaffected:
  assumes "table_same tu d d'"
  shows "transaction_event lib d' tu = transaction_event lib d tu"
  by (simp add: fun_eq_iff transaction_event_def table_same_queries [OF assms] schema_event_unaffected [OF assms])

lemma reads_unaffected:
  assumes un: "unaffected ident d d'" and wf: "wf_db d" "wf_db d'"
  shows "read_table cat ident t d' = read_table cat ident t d"
    and "list_transaction_events cat ident cursor d' = list_transaction_events cat ident cursor d"
proof -
  have sel: "select_table (ti_namespace ident) (ti_name ident) d' = select_table (ti_namespace ident) (ti_name ident) d"
    and same: "select_table (ti_namespace ident) (ti_name ident) d = Some r \<Longrightarrow> table_same (t_table_uuid r) d d'" for r
    using un by (auto simp: unaffected_def)
  have stats: "read_stats tu e d' = read_stats tu e d" for tu e
    using wf by (simp add: read_stats_def wf_db_def refs_ok_def)
  have head: "read_head cat ident d' = read_head cat ident d" by (simp add: read_head_def sel)
  show "read_table cat ident t d' = read_table cat ident t d"
    unfolding read_table_def head
  proof (rule rbind_cong [OF refl], goal_cases)
    case (1 x)
    obtain r p h where x: "x = (r, p, h)" by (cases x)
    with 1 same have "table_same (t_table_uuid r) d d'" by (auto simp: read_head_Inr)
    then show ?case
      by (simp add: x Let_def check_in_history_def walk_history_same read_schema_unaffected read_files_def
          table_same_queries(3) stats)
  qed
  show "list_transaction_events cat ident cursor d' = list_transaction_events cat ident cursor d"
  proof (cases "select_table (ti_namespace ident) (ti_name ident) d")
    case (Some r)
    note s = same [OF Some]
    have "event_range cat ident cursor d' = event_range cat ident cursor d"
      unfolding event_range_def sel Some ok_or_simps rbind_Inr table_same_queries(1) [OF s] walk_events_same [OF s] ..
    moreover have "fst x = t_table_uuid r" if "event_range cat ident cursor d = Inr x" for x
      using that by (auto simp: event_range_def Some result_simps split: if_splits)
    ultimately show ?thesis
      by (auto simp: list_transaction_events_def events_of_def transaction_event_unaffected [OF s] intro!: rbind_cong)
  qed (simp add: list_transaction_events_def event_range_def sel)
qed

text \<open>C11. Tables are isolated. Whatever operations clients perform on other tables (creating, committing,
  dropping, on either backend), everything a table shows stays exactly the same: its head, its
  snapshot at every transaction, its event log and its deltas.\<close>

theorem tables_isolated:
  assumes "reachable lib d" and "(\<lambda>a b. \<exists>other. other \<noteq> ident \<and> table_step lib other a b)\<^sup>*\<^sup>* d d'"
  shows "current_transaction_id cat ident d' = current_transaction_id cat ident d
    \<and> read_table cat ident t d' = read_table cat ident t d
    \<and> list_transaction_events cat ident cursor d' = list_transaction_events cat ident cursor d
    \<and> diff_table cat ident a b d' = diff_table cat ident a b d"
proof -
  have "unaffected ident d d' \<and> steps lib d d'"
    using assms(2)
  proof (induction rule: rtranclp_induct)
    case (step b c)
    then obtain other where o: "other \<noteq> ident" "table_step lib other b c" by blast
    have "reachable lib b" using assms(1) step.IH reachable_steps by blast
    then have "unaffected ident b c" by (rule table_step_unaffected [OF o(2) reachable_wf o(1) [symmetric]])
    moreover have "step lib b c" using o(2) step_table by blast
    ultimately show ?case using step.IH unaffected_trans by (meson rtranclp.rtrancl_into_rtrancl)
  qed simp
  then have un: "unaffected ident d d'" and wf: "wf_db d" "wf_db d'"
    using assms(1) reachable_wf reachable_steps by blast+
  note reads = reads_unaffected [OF un wf]
  have "diff_table cat ident a b d' = diff_table cat ident a b d" by (simp add: diff_table_def reads)
  moreover have "current_transaction_id cat ident d' = current_transaction_id cat ident d"
    using un by (simp add: current_transaction_id_def unaffected_def)
  ultimately show ?thesis using reads by blast
qed

definition demo_other :: table_ident where
  "demo_other = table_ident_new ''ns'' ''u''"

definition demo_other_db :: db where
  "demo_other_db = snd (create_table demo_cat (demo_draws 40) demo_other ''loc'' demo_schema1 None demo_db3)"

theorem tables_isolated_witness:
  "read_table demo_cat demo_ident (Some 20) demo_other_db = read_table demo_cat demo_ident (Some 20) demo_db3
   \<and> current_transaction_id demo_cat demo_ident demo_other_db = current_transaction_id demo_cat demo_ident demo_db3"
proof -
  have "table_step demo_libs demo_other demo_db3 demo_other_db"
    by (rule table_step.create [of demo_cat "demo_draws 40" _ "''loc''" demo_schema1 None _
          "fst (create_table demo_cat (demo_draws 40) demo_other ''loc'' demo_schema1 None demo_db3)"])
       (simp_all add: demo_other_db_def)
  moreover have "demo_other \<noteq> demo_ident" by (simp add: demo_other_def demo_ident_def table_ident_new_def)
  ultimately have "(\<lambda>a b. \<exists>other. other \<noteq> demo_ident \<and> table_step demo_libs other a b)\<^sup>*\<^sup>* demo_db3 demo_other_db"
    by blast
  from tables_isolated [OF demo_reachable(3) this] show ?thesis by blast
qed

end
