(* ===== verification/Stored.thy ===== *)
theory Stored
  imports Progress
begin

text \<open>
  The typing of stored rows, and what follows for readers. Every file row comes from a file
  specification that passed validation, with its JSON fields as the library printed them;
  every column blob is the encoding of a type; every properties text is a printed map. So
  decoding a row never fails, and every transaction of a table's history can be read as long
  as the result stays within the limits of a query.
\<close>

section \<open>Rows that come from validated requests\<close>

definition file_stored :: "libs \<Rightarrow> file_row \<Rightarrow> bool" where
  "file_stored lib r \<longleftrightarrow> (\<exists>f. file_spec_validate (lib_format lib) f = Inr ()
     \<and> f_file_format r = format_as_str (fs_file_format f) \<and> f_file_path r = fs_file_path f
     \<and> f_record_count r = fs_record_count f \<and> f_file_size_bytes r = fs_file_size_bytes f
     \<and> serialize_json_optional (lib_json lib) (fs_partition_values f) = Inr (f_partition_values r)
     \<and> serialize_json_optional (lib_json lib) (fs_format_options f) = Inr (f_format_options r))"

definition column_stored :: "libs \<Rightarrow> column_row \<Rightarrow> bool" where
  "column_stored lib c \<longleftrightarrow> (\<exists>ty. c_column_type c = lib_schema_to_fb lib [Field ''_'' ty True])"

definition rows_stored :: "libs \<Rightarrow> db \<Rightarrow> bool" where
  "rows_stored lib d \<longleftrightarrow> list_all (file_stored lib) (db_files d) \<and> list_all (column_stored lib) (db_columns d)"

lemma file_rows_stored:
  assumes "file_rows lib v4 tu x k files = Inr (k', rows)"
  shows "list_all (file_stored lib) rows"
proof -
  have "list_all (\<lambda>e. file_stored lib (file_of_data tu x e)) (snd s)"
    if "foldM (file_row_data lib v4) (k, []) files = Inr s" for s
  proof (rule foldM_invariant [OF that])
    fix s f s'
    assume "list_all (\<lambda>e. file_stored lib (file_of_data tu x e)) (snd s)" "file_row_data lib v4 s f = Inr s'"
    then show "list_all (\<lambda>e. file_stored lib (file_of_data tu x e)) (snd s')"
      by (cases s) (force simp: file_row_data_def result_simps file_stored_def split: option.splits)
  qed simp
  then show ?thesis using assms by (auto simp: file_rows_def result_simps list_all_iff)
qed

lemma column_rows_stored: "list_all (column_stored lib) (column_rows lib v4 su k ord cs)"
  by (auto simp: column_rows_def column_stored_def list_all_iff)

lemma apply_op_rows_stored:
  assumes "apply_op cat dr tu x cs st op = Inr st'" and ok: "rows_stored (cat_libs cat) (cm_db st)"
  shows "rows_stored (cat_libs cat) (cm_db st')"
proof (cases op)
  case (AppendFiles fs)
  with assms have "append_files cat dr tu x fs st = Inr st'" by (simp add: apply_op_def)
  then obtain k rows where "file_rows (cat_libs cat) (dr_v4 dr) tu x (cm_v4 st) fs = Inr (k, rows)"
    "st' = st\<lparr>cm_v4 := k, cm_db := (cm_db st)\<lparr>db_files := db_files (cm_db st) @ rows\<rparr>\<rparr>"
    by (rule append_files_effect)
  with ok file_rows_stored show ?thesis by (fastforce simp: rows_stored_def)
next
  case (DeleteFiles us)
  with assms have "delete_files cat tu x us st = Inr st'" by (simp add: apply_op_def)
  from delete_files_effect(2) [OF this] ok show ?thesis
    by (auto simp: rows_stored_def list_all_iff file_stored_def)
next
  case (UpdateSchema spec)
  with assms have "update_schema cat dr tu x cs spec st = Inr st'" by (simp add: apply_op_def)
  then show ?thesis
    by (rule update_schema_db) (use ok column_rows_stored in \<open>simp add: rows_stored_def\<close>)
qed (use assms in \<open>auto simp: apply_op_def dest!: set_properties_effect remove_properties_effect\<close>)

lemma create_rows_stored:
  assumes "create_table_body cat dr ident location schema properties d = Inr (h, d')"
    and "rows_stored (cat_libs cat) d"
  shows "rows_stored (cat_libs cat) d'"
  using assms(1) by (rule create_summary) (use assms(2) column_rows_stored in \<open>simp add: rows_stored_def\<close>)

lemma commit_rows_stored:
  assumes "commit_body cat dr ident base m d = Inr (res, d')" and ok: "rows_stored (cat_libs cat) d"
  shows "rows_stored (cat_libs cat) d'"
proof -
  from assms(1) obtain r :: table_row and p d1 st pt where
    txn: "insert_txn \<lparr>x_transaction_id = dr_txn dr, x_table_uuid = t_table_uuid r,
       x_transaction_timestamp = dr_now dr, x_parent_transaction_id = Some base\<rparr> d = Inr d1"
    and run: "foldM (apply_op cat dr (t_table_uuid r) (dr_txn dr) (t_current_schema_uuid r))
       \<lparr>cm_db = d1, cm_v4 = 0, cm_new_schema_uuid = t_current_schema_uuid r, cm_properties = p\<rparr>
       (mu_operations m) = Inr st"
    and d': "d' = update_table_commit (dr_txn dr)
       (case cm_new_schema_uuid st of Some u \<Rightarrow> Some u | None \<Rightarrow> t_current_schema_uuid r)
       pt (t_table_uuid r) (cm_db st)"
    by (rule commit_body_Inr)
  have "rows_stored (cat_libs cat) (cm_db st)"
    by (rule foldM_invariant [OF run]) (use ok insert_txn_Inr [OF txn] apply_op_rows_stored in \<open>auto simp: rows_stored_def\<close>)
  then show ?thesis by (simp add: rows_stored_def d' update_table_commit_tables)
qed

lemma reachable_rows_stored: "reachable lib d \<Longrightarrow> rows_stored lib d"
  unfolding reachable_def
proof (induction rule: rtranclp_induct)
  case base
  show ?case by (simp add: rows_stored_def empty_db_def)
next
  case (step b c)
  have wf: "wf_db b" using step(1) by (intro reachable_wf [of lib]) (simp add: reachable_def)
  from step(2) wf show ?case
    by (cases rule: step_cases_wf) (use step.IH create_rows_stored commit_rows_stored in auto)
qed

section \<open>Stored rows decode\<close>

text \<open>The law of the Arrow codec at one blob: it decodes to the type it is the encoding of.\<close>

definition codec_at :: "libs \<Rightarrow> bytes \<Rightarrow> bool" where
  "codec_at lib bs \<longleftrightarrow> (\<forall>ty. bs = lib_schema_to_fb lib [Field ''_'' ty True] \<longrightarrow>
     lib_root_as_schema lib bs = Inr [Field ''_'' ty True])"

lemma file_stored_decodes:
  assumes "file_stored lib r" and "json_codec (lib_json lib)"
  shows "\<exists>f. file_struct_of_row lib r = Inr f"
proof -
  from assms(1) obtain p q where p: "serialize_json_optional (lib_json lib) p = Inr (f_partition_values r)"
    and q: "serialize_json_optional (lib_json lib) q = Inr (f_format_options r)"
    unfolding file_stored_def by blast
  have "parse_json_optional (lib_json lib) (f_partition_values r) = Inr p"
    "parse_json_optional (lib_json lib) (f_format_options r) = Inr q"
    using parse_serialize_json_optional [OF p] parse_serialize_json_optional [OF q] assms(2)
    by (simp_all add: json_codec_def)
  then show ?thesis by (simp add: file_struct_of_row_def)
qed

lemma column_stored_decodes:
  assumes "column_stored lib c" and "codec_at lib (c_column_type c)"
  shows "\<exists>x. column_struct_of_row lib c = Inr x"
proof -
  from assms obtain ty where "lib_root_as_schema lib (c_column_type c) = Inr [Field ''_'' ty True]"
    by (auto simp: column_stored_def codec_at_def)
  then show ?thesis by (simp add: column_struct_of_row_def decode_data_type_def)
qed

lemma mapM_ex: "\<forall>x \<in> set xs. \<exists>y. f x = Inr y \<Longrightarrow> \<exists>ys. mapM f xs = Inr ys"
  by (induction xs) auto

text \<open>C19. Stored data is well typed. In every reachable database each file row has the name of a known
  format, a path that is not blank, non-negative counts and JSON fields that parse; each column blob
  decodes to a type; each table's properties parse. The hypotheses are that the JSON library parses
  what it printed and the Arrow codec decodes the stored blobs it encoded.\<close>

theorem stored_rows_well_typed:
  assumes "reachable lib d" and "json_codec (lib_json lib)"
    and "\<forall>c \<in> set (db_columns d). codec_at lib (c_column_type c)"
  shows "(\<forall>r \<in> set (db_files d). (\<exists>fm. f_file_format r = format_as_str fm) \<and> trim (f_file_path r) \<noteq> []
        \<and> 0 \<le> sint (f_record_count r) \<and> 0 \<le> sint (f_file_size_bytes r)
        \<and> (\<exists>f. file_struct_of_row lib r = Inr f))
     \<and> (\<forall>c \<in> set (db_columns d). \<exists>x. column_struct_of_row lib c = Inr x)
     \<and> (\<forall>r \<in> set (db_tables d). \<exists>p. parse_table_properties (lib_json lib) (t_properties r) = Inr p)"
proof (intro conjI [of "\<forall>r \<in> _. _ r"] ballI)
  note stored = reachable_rows_stored [OF assms(1), unfolded rows_stored_def list_all_iff]
  show "(\<exists>fm. f_file_format r = format_as_str fm) \<and> trim (f_file_path r) \<noteq> []
        \<and> 0 \<le> sint (f_record_count r) \<and> 0 \<le> sint (f_file_size_bytes r)
        \<and> (\<exists>f. file_struct_of_row lib r = Inr f)" if "r \<in> set (db_files d)" for r
  proof -
    have r: "file_stored lib r" using stored that by blast
    then obtain f where "file_spec_validate (lib_format lib) f = Inr ()" "f_file_format r = format_as_str (fs_file_format f)"
      "f_file_path r = fs_file_path f" "f_record_count r = fs_record_count f" "f_file_size_bytes r = fs_file_size_bytes f"
      unfolding file_stored_def by blast
    then show ?thesis
      using file_stored_decodes [OF r assms(2)] by (auto simp: file_spec_validate_def split: if_splits)
  qed
  show "\<exists>x. column_struct_of_row lib c = Inr x" if "c \<in> set (db_columns d)" for c
    using column_stored_decodes stored assms(3) that by blast
  show "\<exists>p. parse_table_properties (lib_json lib) (t_properties r) = Inr p" if "r \<in> set (db_tables d)" for r
    using stored_row [OF reachable_properties_stored [OF assms(1)] assms(2) that] by metis
qed

lemma demo_codec_at:
  "\<forall>c \<in> set (db_columns demo_db3). codec_at demo_libs (c_column_type c)"
  by (auto simp: demo_db3_eq demo_db1_eq codec_at_def demo_libs_def split: if_splits)

lemma demo_three_files: "length (db_files demo_db3) = 3"
  by (simp add: demo_db3_eq)

theorem stored_rows_well_typed_witness:
  "length (db_files demo_db3) = 3 \<and> list_all (\<lambda>r. \<exists>f. file_struct_of_row demo_libs r = Inr f) (db_files demo_db3)
     \<and> list_all (\<lambda>c. \<exists>x. column_struct_of_row demo_libs c = Inr x) (db_columns demo_db3)"
  using stored_rows_well_typed [OF demo_reachable(3) demo_json demo_codec_at] demo_three_files
  unfolding list_all_iff by blast

section \<open>Every transaction of the history is readable\<close>

lemma schema_at_exists:
  assumes ok: "schemas_ok r xs ss" and srt: "sorted_wrt (<) (map x_transaction_id xs)"
    and t: "t \<in> x_transaction_id ` set xs"
  shows "\<exists>s \<in> set ss. s_valid_from s \<le> t \<and> (case s_valid_to s of None \<Rightarrow> True | Some v \<Rightarrow> t < v)"
proof -
  let ?I = "{i. i < length ss \<and> s_valid_from (ss ! i) \<le> t}"
  have ne: "ss \<noteq> []" and vt: "map s_valid_to ss = map (\<lambda>s. Some (s_valid_from s)) (tl ss) @ [None]"
    and hd: "s_valid_from (hd ss) = x_transaction_id (hd xs)"
    using ok by (simp_all add: schemas_ok_def)
  have "x_transaction_id (hd xs) \<le> t" using srt t by (cases xs) (auto intro: less_imp_le)
  then have "0 \<in> ?I" using ne hd by (simp add: hd_conv_nth)
  moreover have fin: "finite ?I" by simp
  ultimately have i: "Max ?I \<in> ?I" using Max_in by blast
  define i where "i = Max ?I"
  have later: "\<not> s_valid_from (ss ! Suc i) \<le> t" if "Suc i < length ss"
  proof
    assume "s_valid_from (ss ! Suc i) \<le> t"
    with that have "Suc i \<le> i" unfolding i_def by (intro Max_ge [OF fin]) (simp add: i_def)
    then show False by simp
  qed
  have "s_valid_to (ss ! i) = (map (\<lambda>s. Some (s_valid_from s)) (tl ss) @ [None]) ! i"
    using i arg_cong [OF vt, of "\<lambda>l. l ! i"] by (simp add: i_def)
  also have "\<dots> = (if Suc i < length ss then Some (s_valid_from (ss ! Suc i)) else None)"
    using i by (auto simp: nth_append nth_tl i_def)
  finally have "case s_valid_to (ss ! i) of None \<Rightarrow> True | Some v \<Rightarrow> t < v" using later by auto
  with i show ?thesis by (intro bexI [of _ "ss ! i"]) (auto simp: i_def)
qed

lemma find_schema_at:
  assumes wf: "wf_db d" and r: "r \<in> set (db_tables d)" and t: "t \<in> set (txn_line (t_table_uuid r) d)"
  shows "\<exists>s. find (schema_valid_at (t_table_uuid r) t) (db_schemas d) = Some s"
proof -
  have "\<exists>s \<in> set (table_schemas (t_table_uuid r) d). s_valid_from s \<le> t \<and> (case s_valid_to s of None \<Rightarrow> True | Some v \<Rightarrow> t < v)"
    using schema_at_exists [OF wf_dest(2) [OF wf r]] wf_dest(1) [OF wf r] t by (simp add: history_ok_def txn_line_def)
  then have "find (schema_valid_at (t_table_uuid r) t) (db_schemas d) \<noteq> None"
    by (auto simp: find_None_iff table_schemas_def schema_valid_at_def)
  then show ?thesis by blast
qed

text \<open>C18. The whole history is readable: on every reachable database a client with a sufficient reader
  version reads a snapshot at every transaction of the table, and a schema is in force there. The
  read fails exactly when that schema has more than 1000 columns or more than 10000 files are visible,
  or when the transaction is not one of the table, which is reported as such.\<close>

theorem history_readable:
  assumes "reachable lib d" and "json_codec (lib_json lib)" and "cat_libs cat = lib"
    and "\<forall>c \<in> set (db_columns d). codec_at lib (c_column_type c)"
    and "select_table (ti_namespace ident) (ti_name ident) d = Some r"
    and "sint (t_min_reader_version r) \<le> sint (reader_version cat)"
  shows "if t \<in> set (txn_line (t_table_uuid r) d)
     then \<exists>s. find (schema_valid_at (t_table_uuid r) t) (db_schemas d) = Some s
       \<and> (isl (read_table cat ident (Some t) d)
          \<longleftrightarrow> 1000 < length (select_columns (s_schema_uuid s) d)
              \<or> 10000 < length (filter (file_visible_at (t_table_uuid r) t) (db_files d)))
     else read_table cat ident (Some t) d = Inl (InvalidState NotInHistory)"
proof -
  have wf: "wf_db d" using assms(1) by (rule reachable_wf)
  have r: "r \<in> set (db_tables d)" using select_table_Some [OF assms(5)] by simp
  obtain h where h: "t_current_transaction_id r = Some h" using txn_line_props(4) [OF wf r] by blast
  obtain p where "parse_table_properties (lib_json lib) (t_properties r) = Inr p"
    using stored_row [OF reachable_properties_stored [OF assms(1)] assms(2) r] by metis
  then have head: "read_head cat ident d = Inr (r, p, h)"
    using assms(3,5,6) h by (simp add: read_head_Inr)
  note hist = check_in_history_line [OF wf r h, of t]
  show ?thesis
  proof (cases "t \<in> set (txn_line (t_table_uuid r) d)")
    case False
    with hist show ?thesis by (simp add: read_table_def head)
  next
    case True
    then obtain s where s: "find (schema_valid_at (t_table_uuid r) t) (db_schemas d) = Some s"
      using find_schema_at [OF wf r] by blast
    note stored = reachable_rows_stored [OF assms(1), unfolded rows_stored_def list_all_iff]
    have "\<exists>cols. mapM (column_struct_of_row lib) (sort_key (\<lambda>r. sint (c_ordinal_position r)) (select_columns (s_schema_uuid s) d)) = Inr cols"
      using stored assms(4) by (intro mapM_ex) (auto simp: select_columns_def column_stored_decodes)
    then have "isl (read_schema lib ident (t_table_uuid r) t d) \<longleftrightarrow> 1000 < length (select_columns (s_schema_uuid s) d)"
      by (auto simp: read_schema_def s schema_columns_code Let_def simp flip: unat_less_int)
    moreover have "\<exists>fs. mapM (file_struct_of_row lib) (filter (file_visible_at (t_table_uuid r) t) (db_files d)) = Inr fs"
      using stored assms(2) by (intro mapM_ex) (auto simp: file_stored_decodes)
    then have "isl (read_files lib (t_table_uuid r) t d) \<longleftrightarrow> 10000 < length (filter (file_visible_at (t_table_uuid r) t) (db_files d))"
      by (auto simp: read_files_code Let_def simp flip: unat_less_int)
    moreover have "isl (read_table cat ident (Some t) d)
        \<longleftrightarrow> isl (read_schema lib ident (t_table_uuid r) t d) \<or> isl (read_files lib (t_table_uuid r) t d)"
      using True by (cases "read_schema lib ident (t_table_uuid r) t d"; cases "read_files lib (t_table_uuid r) t d")
        (simp_all add: read_table_def head hist assms(3) Let_def)
    ultimately show ?thesis using True s by simp
  qed
qed

lemma demo_select3_row:
  "\<exists>p. select_table (ti_namespace demo_ident) (ti_name demo_ident) demo_db3 = Some (demo_row 30 3000 p)"
  by (simp add: demo_db3_eq select_table_def demo_row_def demo_ident_def table_ident_new_def)

lemma demo_small3:
  "\<not> 1000 < length (select_columns u demo_db3)" "\<not> 10000 < length (filter P (db_files demo_db3))"
proof -
  have "length (select_columns u demo_db3) \<le> 2"
    using length_filter_le [of _ "db_columns demo_db3"] by (simp add: select_columns_def demo_db3_eq demo_db1_eq)
  then show "\<not> 1000 < length (select_columns u demo_db3)" by linarith
  have "length (filter P (db_files demo_db3)) \<le> 3"
    using length_filter_le [of P "db_files demo_db3"] by (simp add: demo_db3_eq)
  then show "\<not> 10000 < length (filter P (db_files demo_db3))" by linarith
qed

theorem history_readable_witness:
  "\<exists>u v w. read_table demo_cat demo_ident (Some 10) demo_db3 = Inr u
     \<and> read_table demo_cat demo_ident (Some 20) demo_db3 = Inr v
     \<and> read_table demo_cat demo_ident (Some 30) demo_db3 = Inr w"
proof -
  obtain p where sel: "select_table (ti_namespace demo_ident) (ti_name demo_ident) demo_db3 = Some (demo_row 30 3000 p)"
    using demo_select3_row by blast
  have ver: "sint (t_min_reader_version (demo_row 30 3000 p)) \<le> sint (reader_version demo_cat)"
    by (simp add: demo_row_def reader_version_def demo_cat_def catalog_new_def
        catalog_new_with_protocol_versions_def protocol_versions_default_def)
  have tu: "t_table_uuid (demo_row 30 3000 p) = 1000" by (simp add: demo_row_def)
  have ok: "\<exists>v. read_table demo_cat demo_ident (Some t) demo_db3 = Inr v" if "t \<in> {10, 20, 30}" for t
  proof -
    have "t \<in> set (txn_line 1000 demo_db3)"
      using that by (auto simp: txn_line_def table_txns_def demo_db3_eq demo_txn_def)
    with history_readable [OF demo_reachable(3) demo_json demo_libs_cat demo_codec_at sel ver, of t]
    have "\<not> isl (read_table demo_cat demo_ident (Some t) demo_db3)" unfolding tu by (simp add: demo_small3)
    then show ?thesis by (metis isl_def sum.exhaust)
  qed
  show ?thesis using ok [of 10] ok [of 20] ok [of 30] by simp
qed

end
