(* ===== verification/Program.thy ===== *)
theory Program
  imports DataModel
begin

text \<open>
  The example programs are sequences of calls that print: a program takes what its calls change
  and the lines printed so far, and ends with a value or with the error that stopped it. A call
  of \<open>println!\<close> appends its format string and its arguments; an error keeps what was printed.
\<close>

datatype arg = ANat nat | AInt i64 | AInt32 i32 | AStr string | AUuid uuid | APath "u8 list"

datatype line = Line (line_text: string) (line_args: "arg list")

type_synonym ('s, 'e, 'a) prog = "'s \<times> line list \<Rightarrow> ('e + 'a) \<times> ('s \<times> line list)"

definition ret :: "'a \<Rightarrow> ('s, 'e, 'a) prog" where
  "ret x s = (Inr x, s)"

definition andthen :: "('s, 'e, 'a) prog \<Rightarrow> ('a \<Rightarrow> ('s, 'e, 'b) prog) \<Rightarrow> ('s, 'e, 'b) prog" where
  "andthen m f s = (case m s of (Inl e, s') \<Rightarrow> (Inl e, s') | (Inr x, s') \<Rightarrow> f x s')"

definition println :: "string \<Rightarrow> arg list \<Rightarrow> ('s, 'e, unit) prog" where
  "println fmt args s = (Inr (), (fst s, snd s @ [Line fmt args]))"

definition query :: "('c \<Rightarrow> 'e) \<Rightarrow> ('s \<Rightarrow> 'c + 'a) \<Rightarrow> ('s, 'e, 'a) prog" where
  "query boxed q s = (map_err boxed (q (fst s)), s)"

definition update :: "('c \<Rightarrow> 'e) \<Rightarrow> ('s \<Rightarrow> ('c + 'a) \<times> 's) \<Rightarrow> ('s, 'e, 'a) prog" where
  "update boxed u s = (case u (fst s) of (r, s') \<Rightarrow> (map_err boxed r, (s', snd s)))"

lemma andthenI: "m s = (Inr x, s') \<Longrightarrow> f x s' = r \<Longrightarrow> andthen m f s = r"
  by (simp add: andthen_def)

lemma println_out: "println fmt args (d, out) = (Inr (), (d, out @ [Line fmt args]))"
  by (simp add: println_def)

end
