(* ===== verification/Lifecycle.thy ===== *)
theory Lifecycle
  imports Setup Progress Program
begin

text \<open>
  The program of \<open>examples/table_lifecycle.rs\<close>: it opens an in-memory catalog, creates a table,
  appends files in two commits, travels back in time, computes a delta, deletes a file,
  replaces the properties and lists the tables, and prints what it sees after every step. The
  whole client interface takes part, so the program is where the components meet. Format
  strings leave out pictograms and line breaks; an error or a panic ends the program. The
  identifiers and the clock of the five writes are the five \<open>draws\<close>.
\<close>

section \<open>The program\<close>

datatype main_error = BoxedSqlx sqlx_error | Boxed catalog_error | Panic

type_synonym 'a io = "(db, main_error, 'a) prog"

definition lift :: "catalog_error + 'a \<Rightarrow> 'a io" where
  "lift r s = (map_err Boxed r, s)"

abbreviation run_query :: "(db \<Rightarrow> catalog_error + 'a) \<Rightarrow> 'a io" where
  "run_query \<equiv> query Boxed"

abbreviation run_update :: "(db \<Rightarrow> (catalog_error + 'a) \<times> db) \<Rightarrow> 'a io" where
  "run_update \<equiv> update Boxed"

definition open_catalog :: "'p sqlx_lib \<Rightarrow> ('p \<Rightarrow> db option) \<Rightarrow> libs \<Rightarrow> sql_catalog io" where
  "open_catalog sx stored lib s =
     (case in_memory sx lib of
        Inl e \<Rightarrow> (Inl (BoxedSqlx e), s)
      | Inr (catalog, pool) \<Rightarrow>
          (Inr catalog, (case stored pool of Some d \<Rightarrow> d | None \<Rightarrow> empty_db, snd s)))"

text \<open>The arguments of the calls.\<close>

definition life_ident :: table_ident where
  "life_ident = table_ident_new ''sales'' ''transactions''"

definition life_schema :: schema_spec where
  "life_schema =
     with_column (with_column (with_column (with_column schema_spec_new
       (column_spec_new ''id'' Int64))
       (column_spec_new ''customer_id'' Int64))
       (column_spec_new ''amount'' Float64))
       (column_spec_nullable (column_spec_new ''timestamp'' (Timestamp Microsecond None)))"

definition life_properties :: json where
  "life_properties = JObject [(''description'', JString ''Sales transactions table''),
     (''format'', JString ''parquet''), (''owner'', JString ''analytics-team'')]"

definition life_updated_properties :: json where
  "life_updated_properties = JObject [(''description'', JString ''Sales transactions table''),
     (''format'', JString ''parquet''), (''last_updated'', JString ''2024-01-15''),
     (''owner'', JString ''analytics-team''), (''retention_days'', JNumber (PosInt 365))]"

definition life_file1 :: file_spec where
  "life_file1 = with_partition_values
     (file_spec_new Parquet ''/data/sales/transactions/part-00000.parquet'' 1000 245760)
     (JObject [(''date'', JString ''2024-01-01'')])"

definition life_file2 :: file_spec where
  "life_file2 = with_partition_values
     (file_spec_new Parquet ''/data/sales/transactions/part-00001.parquet'' 1500 368640)
     (JObject [(''date'', JString ''2024-01-02'')])"

definition life_file3 :: file_spec where
  "life_file3 = with_partition_values
     (file_spec_new Parquet ''/data/sales/transactions/part-00002.parquet'' 2000 491520)
     (JObject [(''date'', JString ''2024-01-03'')])"

text \<open>The recurring parts: the single write path, and the report on a view.\<close>

definition write_commit :: "draws \<Rightarrow> (mutation_builder \<Rightarrow> mutation_builder) \<Rightarrow> table_handle \<Rightarrow> unit io" where
  "write_commit dr ops table_handle =
     andthen (run_query (handle_write table_handle None)) (\<lambda>builder.
     andthen (run_update (builder_commit dr (ops builder))) (\<lambda>commit_result.
       println ''Committed transaction {}'' [AUuid (cr_transaction_id commit_result)]))"

definition sum_i64 :: "(file_struct \<Rightarrow> i64) \<Rightarrow> file_struct list \<Rightarrow> i64" where
  "sum_i64 f files = sum_list (map f files)"

definition report_files :: "table_view \<Rightarrow> unit io" where
  "report_files view =
     andthen (println ''   Total files: {}'' [ANat (length (tv_files view))]) (\<lambda>_.
       println ''   Total records: {}'' [AInt (sum_i64 fi_record_count (tv_files view))])"

definition create_step :: "sql_catalog \<Rightarrow> draws \<Rightarrow> table_handle io" where
  "create_step catalog dr =
     andthen (println ''Step 2: Creating a table...'' []) (\<lambda>_.
     andthen (lift (properties_from_json life_properties)) (\<lambda>properties.
     andthen (run_update (create_table catalog dr life_ident ''/data/sales/transactions'' life_schema (Some properties)))
       (\<lambda>table_handle.
     andthen (println ''Table created: {}.{}'' [AStr (ti_namespace life_ident), AStr (ti_name life_ident)]) (\<lambda>_.
     andthen (run_query (handle_read table_handle)) (\<lambda>initial_view.
     andthen (println ''   Transaction ID: {}'' [AUuid (tv_transaction_id initial_view)]) (\<lambda>_.
     andthen (println '''' []) (\<lambda>_.
       ret table_handle)))))))"

definition append_step :: "draws \<Rightarrow> table_handle \<Rightarrow> table_view io" where
  "append_step dr table_handle =
     andthen (println ''Step 3: Adding initial data files...'' []) (\<lambda>_.
     andthen (write_commit dr (builder_append_files [life_file1, life_file2]) table_handle) (\<lambda>_.
     andthen (run_query (handle_read table_handle)) (\<lambda>view_after_txn1.
     andthen (report_files view_after_txn1) (\<lambda>_.
     andthen (println '''' []) (\<lambda>_.
       ret view_after_txn1)))))"

definition append_one_step :: "draws \<Rightarrow> table_handle \<Rightarrow> table_view io" where
  "append_one_step dr table_handle =
     andthen (println ''Step 4: Adding a single file...'' []) (\<lambda>_.
     andthen (write_commit dr (builder_append_file life_file3) table_handle) (\<lambda>_.
     andthen (run_query (handle_read table_handle)) (\<lambda>view_after_txn2.
     andthen (report_files view_after_txn2) (\<lambda>_.
     andthen (println '''' []) (\<lambda>_.
       ret view_after_txn2)))))"

definition time_travel_step :: "table_view \<Rightarrow> table_handle \<Rightarrow> unit io" where
  "time_travel_step view_after_txn1 table_handle =
     andthen (println ''Step 5: Time travel query...'' []) (\<lambda>_.
     andthen (run_query (handle_read_at table_handle (tv_transaction_id view_after_txn1))) (\<lambda>historical_view.
     andthen (println ''Read table at transaction {}'' [AUuid (tv_transaction_id historical_view)]) (\<lambda>_.
     andthen (println ''   Files at this point: {}'' [ANat (length (tv_files historical_view))]) (\<lambda>_.
     andthen (run_query (handle_current_transaction_id table_handle)) (\<lambda>current_txn.
     andthen (println ''   Current head transaction: {}'' [AUuid current_txn]) (\<lambda>_.
       println '''' []))))))"

fun print_each :: "(file_struct \<Rightarrow> unit io) \<Rightarrow> file_struct list \<Rightarrow> unit io" where
  "print_each f [] = ret ()"
| "print_each f (x # xs) = andthen (f x) (\<lambda>_. print_each f xs)"

definition delta_step :: "table_view \<Rightarrow> table_view \<Rightarrow> table_handle \<Rightarrow> unit io" where
  "delta_step view_after_txn1 view_after_txn2 table_handle =
     andthen (println ''Step 6: Computing delta between transactions...'' []) (\<lambda>_.
     andthen (run_query (handle_diff table_handle (tv_transaction_id view_after_txn1) (tv_transaction_id view_after_txn2)))
       (\<lambda>delta.
     andthen (println ''Delta computed:'' []) (\<lambda>_.
     andthen (println ''   From transaction: {}'' [AUuid (td_from_transaction_id delta)]) (\<lambda>_.
     andthen (println ''   To transaction: {}'' [AUuid (td_to_transaction_id delta)]) (\<lambda>_.
     andthen (println ''   Files added: {}'' [ANat (length (td_added_files delta))]) (\<lambda>_.
     andthen (println ''   Files removed: {}'' [ANat (length (td_removed_files delta))]) (\<lambda>_.
     andthen (run_query (handle_list_transaction_events table_handle (Some (tv_transaction_id view_after_txn1))
                (tv_transaction_id view_after_txn2))) (\<lambda>events.
     andthen (println ''   Transactions scanned in range: {}'' [ANat (length events)]) (\<lambda>_.
     andthen (if td_added_files delta \<noteq> []
              then andthen (println ''   Added files:'' []) (\<lambda>_.
                print_each (\<lambda>file. println ''     - {} ({} records)''
                  [AStr (fi_file_path file), AInt (fi_record_count file)]) (td_added_files delta))
              else ret ()) (\<lambda>_.
       println '''' []))))))))))"

definition delete_step :: "draws \<Rightarrow> table_view \<Rightarrow> table_handle \<Rightarrow> unit io" where
  "delete_step dr view_after_txn2 table_handle =
     andthen (println ''Step 7: Deleting a file...'' []) (\<lambda>_.
     andthen (case tv_files view_after_txn2 of
                [] \<Rightarrow> (\<lambda>s. (Inl Panic, s))
              | file # _ \<Rightarrow> ret (fi_file_uuid file)) (\<lambda>file_to_delete.
     andthen (write_commit dr (builder_delete_files [file_to_delete]) table_handle) (\<lambda>_.
     andthen (run_query (handle_read table_handle)) (\<lambda>view_after_txn3.
     andthen (report_files view_after_txn3) (\<lambda>_.
       println '''' [])))))"

text \<open>\<open>Display\<close> of \<open>TableProperties\<close>; \<open>println!\<close> panics when it fails.\<close>

definition properties_display :: "json_lib \<Rightarrow> table_properties \<Rightarrow> string option" where
  "properties_display lib p = (case json_to_string lib (properties_to_json p) of Inr t \<Rightarrow> Some t | Inl _ \<Rightarrow> None)"

definition properties_step :: "libs \<Rightarrow> draws \<Rightarrow> table_handle \<Rightarrow> table_view io" where
  "properties_step lib dr table_handle =
     andthen (println ''Step 8: Updating table properties...'' []) (\<lambda>_.
     andthen (lift (properties_from_json life_updated_properties)) (\<lambda>updated_properties.
     andthen (write_commit dr (builder_set_properties updated_properties) table_handle) (\<lambda>_.
     andthen (run_query (handle_read table_handle)) (\<lambda>final_view.
     andthen (case properties_display (lib_json lib) (tv_properties final_view) of
                None \<Rightarrow> (\<lambda>s. (Inl Panic, s))
              | Some text \<Rightarrow> println ''   Updated properties: {}'' [AStr text]) (\<lambda>_.
     andthen (println '''' []) (\<lambda>_.
       ret final_view))))))"

fun print_idents :: "table_ident list \<Rightarrow> unit io" where
  "print_idents [] = ret ()"
| "print_idents (table # rest) =
     andthen (println ''   - {}.{}'' [AStr (ti_namespace table), AStr (ti_name table)]) (\<lambda>_. print_idents rest)"

definition list_step :: "sql_catalog \<Rightarrow> unit io" where
  "list_step catalog =
     andthen (println ''Step 9: Listing all tables...'' []) (\<lambda>_.
     andthen (run_query (list_tables catalog None)) (\<lambda>all_tables.
     andthen (println ''Found {} table(s):'' [ANat (length all_tables)]) (\<lambda>_.
     andthen (print_idents all_tables) (\<lambda>_.
     andthen (run_query (list_tables catalog (Some ''sales''))) (\<lambda>sales_tables.
     andthen (println ''   Tables in 'sales' namespace: {}'' [ANat (length sales_tables)]) (\<lambda>_.
       println '''' []))))))"

definition summary_step :: "table_view \<Rightarrow> unit io" where
  "summary_step final_view =
     andthen (println ''Summary:'' []) (\<lambda>_.
     andthen (println ''   Table: {}.{}'' [AStr (ti_namespace life_ident), AStr (ti_name life_ident)]) (\<lambda>_.
     andthen (println ''   Current transaction: {}'' [AUuid (tv_transaction_id final_view)]) (\<lambda>_.
     andthen (report_files final_view) (\<lambda>_.
     andthen (println ''   Total size: {} bytes'' [AInt (sum_i64 fi_file_size_bytes (tv_files final_view))]) (\<lambda>_.
     andthen (case tv_stats final_view of
                Some stats \<Rightarrow>
                  andthen (println ''   Table stats available:'' []) (\<lambda>_.
                  andthen (println ''     Record count: {}'' [AInt (st_record_count stats)]) (\<lambda>_.
                    println ''     File count: {}'' [AInt32 (st_file_count stats)]))
              | None \<Rightarrow> ret ()) (\<lambda>_.
       println ''Example completed successfully!'' []))))))"

definition lifecycle_main ::
  "'p sqlx_lib \<Rightarrow> ('p \<Rightarrow> db option) \<Rightarrow> libs \<Rightarrow> (nat \<Rightarrow> draws) \<Rightarrow> unit io" where
  "lifecycle_main sx stored lib dr =
     andthen (println ''Planar Table Lifecycle Example'' []) (\<lambda>_.
     andthen (println ''Step 1: Setting up catalog...'' []) (\<lambda>_.
     andthen (open_catalog sx stored lib) (\<lambda>catalog.
     andthen (println ''Catalog initialized'' []) (\<lambda>_.
     andthen (create_step catalog (dr 0)) (\<lambda>table_handle.
     andthen (append_step (dr 1) table_handle) (\<lambda>view_after_txn1.
     andthen (append_one_step (dr 2) table_handle) (\<lambda>view_after_txn2.
     andthen (time_travel_step view_after_txn1 table_handle) (\<lambda>_.
     andthen (delta_step view_after_txn1 view_after_txn2 table_handle) (\<lambda>_.
     andthen (delete_step (dr 3) view_after_txn2 table_handle) (\<lambda>_.
     andthen (properties_step lib (dr 4) table_handle) (\<lambda>final_view.
     andthen (list_step catalog) (\<lambda>_.
       summary_step final_view))))))))))))"

section \<open>The databases the program goes through\<close>

definition life_table :: "(nat \<Rightarrow> draws) \<Rightarrow> nat \<Rightarrow> string \<Rightarrow> table_row" where
  "life_table dr h t = \<lparr>t_table_uuid = dr_v4 (dr 0) 0, t_table_name = ''transactions'', t_namespace = ''sales'',
     t_location = ''/data/sales/transactions'', t_current_schema_uuid = Some (dr_v4 (dr 0) 1),
     t_current_transaction_id = Some (dr_txn (dr h)), t_created_at = dr_now (dr 0), t_properties = Some t,
     t_min_reader_version = 1, t_min_writer_version = 1\<rparr>"

definition life_txn :: "(nat \<Rightarrow> draws) \<Rightarrow> nat \<Rightarrow> txn_row" where
  "life_txn dr i = \<lparr>x_transaction_id = dr_txn (dr i), x_table_uuid = dr_v4 (dr 0) 0,
     x_transaction_timestamp = dr_now (dr i),
     x_parent_transaction_id = (case i of 0 \<Rightarrow> None | Suc j \<Rightarrow> Some (dr_txn (dr j)))\<rparr>"

definition life_columns :: "libs \<Rightarrow> (nat \<Rightarrow> draws) \<Rightarrow> column_row list" where
  "life_columns lib dr = column_rows lib (dr_v4 (dr 0)) (dr_v4 (dr 0) 1) 2 0 (ss_columns life_schema)"

definition life_schema_row :: "(nat \<Rightarrow> draws) \<Rightarrow> schema_row" where
  "life_schema_row dr = \<lparr>s_schema_uuid = dr_v4 (dr 0) 1, s_table_uuid = dr_v4 (dr 0) 0, s_schema_version = 1,
     s_valid_from = dr_txn (dr 0), s_valid_to = None, s_created_at = dr_now (dr 0)\<rparr>"

definition life_db :: "libs \<Rightarrow> (nat \<Rightarrow> draws) \<Rightarrow> nat \<Rightarrow> string \<Rightarrow> file_row list \<Rightarrow> db" where
  "life_db lib dr h t files = \<lparr>db_tables = [life_table dr h t], db_transactions = map (life_txn dr) [0 ..< Suc h],
     db_schemas = [life_schema_row dr], db_columns = life_columns lib dr, db_files = files, db_table_stats = []\<rparr>"

definition life_draws :: "(nat \<Rightarrow> draws) \<Rightarrow> bool" where
  "life_draws dr \<longleftrightarrow> sorted_wrt (<) (map (\<lambda>i. dr_txn (dr i)) [0, 1, 2, 3, 4])
     \<and> distinct (map (dr_v4 (dr 0)) [2, 3, 4, 5])
     \<and> distinct [dr_v4 (dr 1) 0, dr_v4 (dr 1) 1, dr_v4 (dr 2) 0]"

abbreviation life_cat :: "libs \<Rightarrow> sql_catalog" where
  "life_cat lib \<equiv> catalog_new Sqlite lib"

lemma life_cat_simps [simp]: "cat_libs (life_cat lib) = lib" "reader_version (life_cat lib) = 1" "writer_version (life_cat lib) = 1"
  by (simp_all add: catalog_new_def catalog_new_with_protocol_versions_def protocol_versions_default_def
      reader_version_def writer_version_def)

lemma life_ident_simps [simp]: "ti_namespace life_ident = ''sales''" "ti_name life_ident = ''transactions''"
  by (simp_all add: life_ident_def table_ident_new_def)

lemma life_schema_columns:
  "ss_columns life_schema = [column_spec_new ''id'' Int64, column_spec_new ''customer_id'' Int64,
     column_spec_new ''amount'' Float64, column_spec_nullable (column_spec_new ''timestamp'' (Timestamp Microsecond None))]"
  by (simp add: life_schema_def with_column_def schema_spec_new_def)

lemma life_schema_valid: "schema_spec_validate life_schema = Inr ()"
  by code_simp

lemma life_files_valid:
  "file_spec_validate fl life_file1 = Inr ()" "file_spec_validate fl life_file2 = Inr ()"
  "file_spec_validate fl life_file3 = Inr ()"
proof -
  have "trim (fs_file_path life_file1) \<noteq> []" "trim (fs_file_path life_file2) \<noteq> []" "trim (fs_file_path life_file3) \<noteq> []"
    by code_simp+
  then show "file_spec_validate fl life_file1 = Inr ()" "file_spec_validate fl life_file2 = Inr ()"
    "file_spec_validate fl life_file3 = Inr ()"
    by (simp_all add: file_spec_validate_def life_file1_def life_file2_def life_file3_def file_spec_new_def
        with_partition_values_def)
qed

lemma insert_columns_fresh:
  assumes "distinct (map c_column_uuid rows)" and "c_column_uuid ` set rows \<inter> column_ids d = {}"
    and "distinct (map column_key rows)" and "column_key ` set rows \<inter> column_key ` set (db_columns d) = {}"
    and "list_all (\<lambda>r. c_schema_uuid r \<in> schema_ids d) rows"
  shows "insert_columns rows d = Inr (d\<lparr>db_columns := db_columns d @ rows\<rparr>)"
  using assms
proof (induction rows arbitrary: d)
  case (Cons r rows)
  let ?d = "d\<lparr>db_columns := db_columns d @ [r]\<rparr>"
  have "insert_column r d = Inr ?d" using Cons.prems by (auto simp: insert_column_def)
  moreover have "insert_columns rows ?d = Inr (?d\<lparr>db_columns := db_columns ?d @ rows\<rparr>)"
    using Cons.prems by (intro Cons.IH) (auto simp: list_all_iff)
  ultimately show ?case by (simp add: insert_columns_def)
qed (simp add: insert_columns_def)

lemma life_create:
  assumes "life_draws dr" and "serialize_json (lib_json lib) life_properties = Inr t"
    and "properties_to_json p = life_properties"
  shows "create_table (life_cat lib) (dr 0) life_ident ''/data/sales/transactions'' life_schema (Some p) empty_db
     = (Inr \<lparr>th_catalog = life_cat lib, th_ident = life_ident\<rparr>, life_db lib dr 0 t [])"
proof -
  have cols: "insert_columns (life_columns lib dr) d = Inr (d\<lparr>db_columns := life_columns lib dr\<rparr>)"
    if "db_columns d = []" "db_schemas d = [life_schema_row dr]" for d
    using assms(1) that insert_columns_fresh [of "life_columns lib dr" d]
    by (simp add: life_columns_def column_rows_def life_schema_columns column_spec_new_def column_spec_nullable_def
        life_draws_def life_schema_row_def numeral_eq_Suc)
  show ?thesis
    using assms
    by (simp add: create_table_def run_tx_def create_table_body_def life_schema_valid select_table_def empty_db_def
      insert_table_def insert_txn_def insert_schema_def insert_column_chunks_eq
      cols [unfolded life_columns_def life_schema_row_def] life_columns_def life_schema_row_def life_db_def life_txn_def
      life_table_def INITIAL_SCHEMA_VERSION_def update_table_heads_def Let_def del: One_nat_def)
qed

lemma life_select [simp]: "select_table ''sales'' ''transactions'' (life_db lib dr h t fs) = Some (life_table dr h t)"
  by (simp add: select_table_def life_db_def life_table_def)

lemma life_commit:
  assumes op: "apply_op (life_cat lib) (dr (Suc h)) (dr_v4 (dr 0) 0) (dr_txn (dr (Suc h))) (Some (dr_v4 (dr 0) 1))
       \<lparr>cm_db = (life_db lib dr h t fs)\<lparr>db_transactions := map (life_txn dr) [0 ..< Suc (Suc h)]\<rparr>, cm_v4 = 0,
        cm_new_schema_uuid = Some (dr_v4 (dr 0) 1), cm_properties = p\<rparr> op
     = Inr \<lparr>cm_db = (life_db lib dr h t fs')\<lparr>db_transactions := map (life_txn dr) [0 ..< Suc (Suc h)]\<rparr>, cm_v4 = k,
        cm_new_schema_uuid = Some (dr_v4 (dr 0) 1), cm_properties = p'\<rparr>"
    and "commit_precheck \<lparr>mu_operations = [op]\<rparr> = Inr ()" and "ops = push_op op"
    and "dr_txn (dr (Suc h)) \<notin> (\<lambda>i. dr_txn (dr i)) ` {0 ..< Suc h}"
    and "parse_table_properties (lib_json lib) (Some t) = Inr p"
    and "serialize_json (lib_json lib) (properties_to_json p') = Inr t'"
  shows "write_commit (dr (Suc h)) ops \<lparr>th_catalog = life_cat lib, th_ident = life_ident\<rparr> (life_db lib dr h t fs, out)
     = (Inr (), (life_db lib dr (Suc h) t' fs', out @ [Line ''Committed transaction {}'' [AUuid (dr_txn (dr (Suc h)))]]))"
proof -
  let ?d = "life_db lib dr h t fs"
  let ?r = "life_table dr h t"
  have hd: "commit_head (life_cat lib) life_ident (dr_txn (dr h)) ?d = Inr (?r, p)"
    using assms(5) by (simp add: commit_head_Inr life_table_def)
  have "insert_txn (life_txn dr (Suc h)) ?d = Inr (?d\<lparr>db_transactions := map (life_txn dr) [0 ..< Suc (Suc h)]\<rparr>)"
    using assms(4) by (auto simp: insert_txn_def life_db_def life_txn_def life_table_def image_image)
  then have "builder_commit (dr (Suc h)) (ops (mutation_builder_new (life_cat lib) life_ident (dr_txn (dr h)))) ?d
      = (Inr \<lparr>cr_transaction_id = dr_txn (dr (Suc h)), cr_table_view = None\<rparr>, life_db lib dr (Suc h) t' fs')"
    using assms(2,6) op hd
    by (simp add: assms(3) builder_commit_def builder_defs commit_def run_tx_def commit_body_def Let_def
        life_table_def life_txn_def update_table_commit_def life_db_def)
  moreover have "handle_write \<lparr>th_catalog = life_cat lib, th_ident = life_ident\<rparr> None ?d
      = Inr (mutation_builder_new (life_cat lib) life_ident (dr_txn (dr h)))"
    by (simp add: handle_write_def current_transaction_id_def life_table_def)
  ultimately show ?thesis
    by (simp add: write_commit_def andthen_def query_def update_def println_def)
qed

section \<open>The writes\<close>

definition life_row :: "(nat \<Rightarrow> draws) \<Rightarrow> nat \<Rightarrow> nat \<Rightarrow> file_spec \<Rightarrow> string \<Rightarrow> txn_id option \<Rightarrow> file_row" where
  "life_row dr i k f q r = \<lparr>f_file_uuid = dr_v4 (dr i) k, f_table_uuid = dr_v4 (dr 0) 0,
     f_file_format = ''parquet'', f_file_path = fs_file_path f, f_record_count = fs_record_count f,
     f_file_size_bytes = fs_file_size_bytes f, f_added_in = dr_txn (dr i), f_removed_in = r,
     f_partition_values = Some q, f_format_options = None\<rparr>"

definition plain_file :: "libs \<Rightarrow> file_spec \<Rightarrow> string \<Rightarrow> bool" where
  "plain_file lib f q \<longleftrightarrow> file_spec_validate (lib_format lib) f = Inr () \<and> fs_file_uuid f = None
     \<and> fs_file_format f = Parquet \<and> fs_format_options f = None
     \<and> (\<exists>v. fs_partition_values f = Some v \<and> serialize_json (lib_json lib) v = Inr q)"

lemma plain_file_row:
  assumes "plain_file lib f q"
  shows "file_row_data lib v4 (k, ds) f = Inr (k + 1, ds @ [(v4 k, ''parquet'', fs_file_path f, fs_record_count f,
     fs_file_size_bytes f, Some q, None)])"
  using assms by (auto simp: plain_file_def file_row_data_def serialize_json_optional_def)

lemma life_append_op:
  assumes "list_all2 (plain_file lib) files qs" and "length files \<le> 1000"
    and "distinct (map (dr_v4 (dr i)) [0 ..< length files])"
    and "dr_v4 (dr i) ` {0 ..< length files} \<inter> f_file_uuid ` set (db_files d) = {}"
    and "dr_v4 (dr 0) 0 \<in> table_ids d" and "dr_txn (dr i) \<in> txn_ids d"
  shows "apply_op (life_cat lib) (dr i) (dr_v4 (dr 0) 0) (dr_txn (dr i)) cs
       \<lparr>cm_db = d, cm_v4 = 0, cm_new_schema_uuid = su, cm_properties = p\<rparr> (AppendFiles files)
     = Inr \<lparr>cm_db = d\<lparr>db_files := db_files d @ map (\<lambda>(k, f, q). life_row dr i k f q None)
         (enumerate 0 (zip files qs))\<rparr>, cm_v4 = length files, cm_new_schema_uuid = su, cm_properties = p\<rparr>"
proof -
  let ?row = "\<lambda>(k, f, q). life_row dr i k f q None"
  have "foldM (file_row_data lib v4) (k, ds) files = Inr (k + length files, ds @
      map (\<lambda>(k, f, q). (v4 k, ''parquet'', fs_file_path f, fs_record_count f, fs_file_size_bytes f, Some q, None))
        (enumerate k (zip files qs)))" for v4 k ds
    using assms(1)
    by (induction files qs arbitrary: k ds rule: list_all2_induct) (simp_all add: plain_file_row)
  then have rows: "file_rows lib (dr_v4 (dr i)) (dr_v4 (dr 0) 0) (dr_txn (dr i)) 0 files
      = Inr (length files, map ?row (enumerate 0 (zip files qs)))"
    by (simp add: file_rows_def comp_def life_row_def split_def)
  have "map f_file_uuid (map ?row (enumerate 0 (zip files qs))) = map (dr_v4 (dr i)) [0 ..< length files]"
    using list_all2_lengthD [OF assms(1)]
    by (intro nth_equalityI) (auto simp: nth_enumerate_eq life_row_def split_def)
  then have uuids: "distinct (map f_file_uuid (map ?row (enumerate 0 (zip files qs))))"
    "f_file_uuid ` set (map ?row (enumerate 0 (zip files qs))) = dr_v4 (dr i) ` {0 ..< length files}"
    using assms(3) by (simp_all only: set_map [symmetric]) simp
  have "insert_files (map ?row (enumerate 0 (zip files qs))) d
      = Inr (d\<lparr>db_files := db_files d @ map ?row (enumerate 0 (zip files qs))\<rparr>)"
    using uuids assms(4-6) by (intro insert_files_fresh) (auto simp: list_all_iff life_row_def)
  moreover have "\<not> MAX_FILES_PER_APPEND < len_u32 files" using assms(2) by (intro len_u32_small) simp_all
  ultimately show ?thesis
    using rows by (simp add: apply_op_def append_files_def insert_file_chunks_Inr [THEN iffD2, OF exI])
qed

lemma life_delete_op:
  assumes "x \<in> txn_ids d"
  shows "apply_op (life_cat lib) dr tu x cs \<lparr>cm_db = d, cm_v4 = 0, cm_new_schema_uuid = su, cm_properties = p\<rparr> (DeleteFiles [u])
     = Inr \<lparr>cm_db = d\<lparr>db_files := map (\<lambda>r. if file_removable tu [u] r then r\<lparr>f_removed_in := Some x\<rparr> else r) (db_files d)\<rparr>,
         cm_v4 = 0, cm_new_schema_uuid = su, cm_properties = p\<rparr>"
  using assms
  by (simp add: apply_op_def delete_files_def delete_file_chunks_eq update_files_removed_def len_u32_def limit_defs)

section \<open>The reads\<close>

definition life_struct :: "(nat \<Rightarrow> draws) \<Rightarrow> nat \<Rightarrow> nat \<Rightarrow> file_spec \<Rightarrow> txn_id option \<Rightarrow> file_struct" where
  "life_struct dr i k f r = \<lparr>fi_file_uuid = dr_v4 (dr i) k, fi_table_uuid = dr_v4 (dr 0) 0,
     fi_file_format = ''parquet'', fi_file_path = fs_file_path f, fi_record_count = fs_record_count f,
     fi_file_size_bytes = fs_file_size_bytes f, fi_added_in_transaction_id = dr_txn (dr i),
     fi_removed_in_transaction_id = r, fi_partition_values = fs_partition_values f, fi_format_options = None\<rparr>"

definition life_schema_struct :: "libs \<Rightarrow> (nat \<Rightarrow> draws) \<Rightarrow> schema_struct" where
  "life_schema_struct lib dr = schema_struct_of_row (life_schema_row dr)
     (case mapM (column_struct_of_row lib) (life_columns lib dr) of Inr cols \<Rightarrow> cols | Inl _ \<Rightarrow> [])"

definition life_view :: "libs \<Rightarrow> (nat \<Rightarrow> draws) \<Rightarrow> nat \<Rightarrow> file_struct list \<Rightarrow> table_properties \<Rightarrow> table_view" where
  "life_view lib dr j files p = \<lparr>tv_ident = life_ident, tv_table_uuid = dr_v4 (dr 0) 0,
     tv_transaction_id = dr_txn (dr j), tv_schema = life_schema_struct lib dr, tv_files = files,
     tv_properties = p, tv_stats = None\<rparr>"

lemma life_row_struct:
  assumes "plain_file lib f q" and "json_codec (lib_json lib)"
  shows "file_struct_of_row lib (life_row dr i k f q r) = Inr (life_struct dr i k f r)"
proof -
  obtain v where v: "fs_partition_values f = Some v" "serialize_json (lib_json lib) v = Inr q"
    using assms(1) by (auto simp: plain_file_def)
  then have "parse_json_optional (lib_json lib) (Some q) = Inr (Some v)"
    using assms(2) by (intro parse_serialize_json_optional) (simp_all add: serialize_json_optional_def json_codec_def)
  then show ?thesis
    using v(1) by (simp add: file_struct_of_row_def life_row_def life_struct_def parse_json_optional_def)
qed

lemma life_read_schema:
  assumes "codec_ok lib (ss_columns life_schema)" and "dr_txn (dr 0) \<le> t"
  shows "read_schema lib life_ident (dr_v4 (dr 0) 0) t (life_db lib dr h txt fs) = Inr (life_schema_struct lib dr)"
proof -
  let ?cols = "life_columns lib dr"
  have sel: "select_columns (dr_v4 (dr 0) 1) (life_db lib dr h txt fs) = ?cols"
    by (auto simp: select_columns_def life_db_def life_columns_def filter_id_conv dest: column_rows_schema)
  have len: "length ?cols = 4" by (simp add: life_columns_def column_rows_def life_schema_columns)
  obtain cols where cols: "mapM (column_struct_of_row lib) ?cols = Inr cols"
    using mapM_column_rows [OF assms(1)] by (metis life_columns_def)
  have "sort_key (\<lambda>r. sint (c_ordinal_position r)) ?cols = ?cols"
    unfolding life_columns_def by (rule column_rows_sorted) (simp add: life_schema_columns)
  then have "schema_columns lib msg (dr_v4 (dr 0) 1) (life_db lib dr h txt fs) = Inr cols" for msg
    using len by (simp add: schema_columns_code sel cols Let_def limit_defs del: One_nat_def)
  moreover have "find (schema_valid_at (dr_v4 (dr 0) 0) t) (db_schemas (life_db lib dr h txt fs)) = Some (life_schema_row dr)"
    using assms(2) by (simp add: life_db_def life_schema_row_def schema_valid_at_def)
  ultimately show ?thesis
    by (simp add: read_schema_def life_schema_struct_def cols) (simp add: life_schema_row_def)
qed

lemma life_read:
  assumes "codec_ok lib (ss_columns life_schema)" and "dr_txn (dr 0) \<le> dr_txn (dr j)"
    and "parse_table_properties (lib_json lib) (Some txt) = Inr p"
    and "check_in_history (dr_v4 (dr 0) 0) (dr_txn (dr h)) (dr_txn (dr j)) (life_db lib dr h txt fs) = Inr ()"
    and "mapM (file_struct_of_row lib) (filter (file_visible_at (dr_v4 (dr 0) 0) (dr_txn (dr j))) fs) = Inr files"
    and "length fs \<le> 10000"
  shows "read_table (life_cat lib) life_ident (Some (dr_txn (dr j))) (life_db lib dr h txt fs) = Inr (life_view lib dr j files p)"
proof -
  have "length (filter (file_visible_at (dr_v4 (dr 0) 0) (dr_txn (dr j))) fs) \<le> 10000"
    using assms(6) length_filter_le order_trans by blast
  then have "read_files lib (dr_v4 (dr 0) 0) (dr_txn (dr j)) (life_db lib dr h txt fs) = Inr files"
    using assms(5) by (simp add: read_files_code life_db_def Let_def limit_defs)
  moreover have "read_head (life_cat lib) life_ident (life_db lib dr h txt fs) = Inr (life_table dr h txt, p, dr_txn (dr h))"
    using assms(3) by (simp add: read_head_Inr life_table_def)
  ultimately show ?thesis
    using life_read_schema [OF assms(1), of dr "dr_txn (dr j)"] assms(2,4)
    by (simp add: read_table_def life_table_def Let_def life_view_def) (simp add: read_stats_def life_db_def)
qed

lemma read_current:
  assumes "current_transaction_id cat ident d = Inr h"
  shows "read_table cat ident None d = read_table cat ident (Some h) d"
  using assms by (auto simp: read_table_def current_transaction_id_def read_head_def result_simps rbind_def split: option.splits sum.splits)

lemma life_check_history:
  assumes "life_draws dr"
  shows "check_in_history (dr_v4 (dr 0) 0) (dr_txn (dr 2)) (dr_txn (dr 1)) (life_db lib dr 2 t fs) = Inr ()"
  using assms
  by (auto simp: check_in_history_def walk_history.simps select_txn_def life_db_def life_txn_def life_draws_def
      numeral_2_eq_2)

lemma life_events:
  assumes "life_draws dr" and "plain_file lib f q" and "json_codec (lib_json lib)"
    and "list_all (\<lambda>r. f_added_in r = dr_txn (dr 1) \<and> f_removed_in r = None) fs"
  shows "list_transaction_events (life_cat lib) life_ident
       \<lparr>rc_from_exclusive = Some (dr_txn (dr 1)), rc_to_inclusive = dr_txn (dr 2)\<rparr>
       (life_db lib dr 2 t (fs @ [life_row dr 2 0 f q None]))
     = Inr [\<lparr>ev_transaction_id = dr_txn (dr 2), ev_file_changes = [\<lparr>ch_transaction_id = dr_txn (dr 2), ch_kind = Added,
         ch_file = life_struct dr 2 0 f None\<rparr>], ev_schema_change = None\<rparr>]"
proof -
  let ?d = "life_db lib dr 2 t (fs @ [life_row dr 2 0 f q None])" and ?tu = "dr_v4 (dr 0) 0"
  have lt: "dr_txn (dr 1) \<noteq> dr_txn (dr 2)" "dr_txn (dr 0) \<noteq> dr_txn (dr 2)" using assms(1) by (auto simp: life_draws_def)
  have "walk_events ?d ?tu (Some (dr_txn (dr 1))) [] (dr_txn (dr 2)) = Inr ([dr_txn (dr 2)], True)"
    using lt by (simp add: walk_events.simps select_txn_def life_db_def life_txn_def numeral_2_eq_2)
  then have range: "event_range (life_cat lib) life_ident
      \<lparr>rc_from_exclusive = Some (dr_txn (dr 1)), rc_to_inclusive = dr_txn (dr 2)\<rparr> ?d = Inr (?tu, [dr_txn (dr 2)])"
    by (simp add: event_range_def life_table_def)
  have added: "filter (\<lambda>r. f_table_uuid r = ?tu \<and> f_added_in r = dr_txn (dr 2)) (db_files ?d) = [life_row dr 2 0 f q None]"
    using assms(4) lt by (auto simp: life_db_def life_row_def filter_empty_conv list_all_iff)
  have removed: "filter (\<lambda>r. f_table_uuid r = ?tu \<and> f_removed_in r = Some (dr_txn (dr 2))) (db_files ?d) = []"
    using assms(4) by (auto simp: life_db_def life_row_def filter_empty_conv list_all_iff)
  have "schema_event lib ?d ?tu 0 (dr_txn (dr 2)) = Inr (0, None)"
    using lt by (simp add: schema_event_def life_db_def life_schema_row_def)
  then show ?thesis
    using life_row_struct [OF assms(2,3), of dr 2 0 None]
    by (simp add: list_transaction_events_def range events_of_def transaction_event_def added removed limit_rows_def
        added_change_def limit_defs del: One_nat_def) (simp add: life_row_def)
qed

section \<open>Step by step\<close>

definition life_env :: "libs \<Rightarrow> (nat \<Rightarrow> draws) \<Rightarrow> string \<Rightarrow> string \<Rightarrow> string \<Rightarrow> string \<Rightarrow> string \<Rightarrow> bool" where
  "life_env lib dr t0 t4 q1 q2 q3 \<longleftrightarrow> life_draws dr \<and> json_codec (lib_json lib) \<and> codec_ok lib (ss_columns life_schema)
     \<and> serialize_json (lib_json lib) life_properties = Inr t0
     \<and> serialize_json (lib_json lib) life_updated_properties = Inr t4
     \<and> plain_file lib life_file1 q1 \<and> plain_file lib life_file2 q2 \<and> plain_file lib life_file3 q3"

definition life_props :: "json \<Rightarrow> table_properties" where
  "life_props v = \<lparr>tp_values = (case v of JObject m \<Rightarrow> m | _ \<Rightarrow> [])\<rparr>"

lemma life_props:
  "properties_from_json life_properties = Inr (life_props life_properties)"
  "properties_from_json life_updated_properties = Inr (life_props life_updated_properties)"
  "properties_to_json (life_props life_properties) = life_properties"
  "properties_to_json (life_props life_updated_properties) = life_updated_properties"
  by (simp_all add: properties_from_json_def properties_to_json_def life_props_def life_properties_def life_updated_properties_def)

lemma life_env_parse:
  assumes "life_env lib dr t0 t4 q1 q2 q3"
  shows "parse_table_properties (lib_json lib) (Some t0) = Inr (life_props life_properties)"
    "parse_table_properties (lib_json lib) (Some t4) = Inr (life_props life_updated_properties)"
  using assms by (auto intro!: stored_properties simp: life_env_def life_props)

abbreviation life_handle :: "libs \<Rightarrow> table_handle" where
  "life_handle lib \<equiv> \<lparr>th_catalog = life_cat lib, th_ident = life_ident\<rparr>"

lemma life_handle_read:
  assumes "codec_ok lib (ss_columns life_schema)" and "dr_txn (dr 0) \<le> dr_txn (dr h)"
    and "parse_table_properties (lib_json lib) (Some t) = Inr p"
    and "mapM (file_struct_of_row lib) (filter (file_visible_at (dr_v4 (dr 0) 0) (dr_txn (dr h))) fs) = Inr files"
    and "length fs \<le> 10000"
  shows "handle_read (life_handle lib) (life_db lib dr h t fs) = Inr (life_view lib dr h files p)"
proof -
  have "current_transaction_id (life_cat lib) life_ident (life_db lib dr h t fs) = Inr (dr_txn (dr h))"
    by (simp add: current_transaction_id_def life_table_def)
  from read_current [OF this] show ?thesis
    using life_read [OF assms(1,2,3) _ assms(4,5)] by (simp add: handle_read_def check_in_history_def)
qed

lemmas io_simps = andthen_def ret_def println_def lift_def query_def update_def report_files_def

lemma life_create_step:
  assumes "life_env lib dr t0 t4 q1 q2 q3"
  shows "create_step (life_cat lib) (dr 0) (empty_db, out) = (Inr (life_handle lib), (life_db lib dr 0 t0 [],
     out @ [Line ''Step 2: Creating a table...'' [],
       Line ''Table created: {}.{}'' [AStr ''sales'', AStr ''transactions''],
       Line ''   Transaction ID: {}'' [AUuid (dr_txn (dr 0))], Line '''' []]))"
proof -
  have "create_table (life_cat lib) (dr 0) life_ident ''/data/sales/transactions'' life_schema
      (Some (life_props life_properties)) empty_db = (Inr (life_handle lib), life_db lib dr 0 t0 [])"
    using assms by (intro life_create) (simp_all add: life_env_def life_props)
  moreover have "handle_read (life_handle lib) (life_db lib dr 0 t0 []) = Inr (life_view lib dr 0 [] (life_props life_properties))"
    using assms life_env_parse [OF assms] by (intro life_handle_read) (simp_all add: life_env_def)
  ultimately show ?thesis by (simp add: create_step_def io_simps life_props life_view_def)
qed

lemma life_ops_checked:
  "commit_precheck \<lparr>mu_operations = [AppendFiles fs]\<rparr> = Inr ()"
  "commit_precheck \<lparr>mu_operations = [DeleteFiles [u]]\<rparr> = Inr ()"
  "commit_precheck \<lparr>mu_operations = [SetProperties p]\<rparr> = Inr ()"
  by (simp_all add: commit_precheck_def mutation_validate_def len_u32_def limit_defs)

lemma life_row_simps [simp]:
  "f_file_uuid (life_row dr i k f q r) = dr_v4 (dr i) k"
  "file_visible_at (dr_v4 (dr 0) 0) t (life_row dr i k f q r)
     \<longleftrightarrow> dr_txn (dr i) \<le> t \<and> (case r of None \<Rightarrow> True | Some v \<Rightarrow> t < v)"
  "file_removable (dr_v4 (dr 0) 0) us (life_row dr i k f q r) \<longleftrightarrow> r = None \<and> dr_v4 (dr i) k \<in> set us"
  "(life_row dr i k f q r)\<lparr>f_removed_in := v\<rparr> = life_row dr i k f q v"
  by (simp_all add: life_row_def file_visible_at_def file_removable_def)

lemma life_append_commit:
  assumes "life_env lib dr t0 t4 q1 q2 q3"
    and "list_all2 (plain_file lib) files qs" and "length files \<le> 1000"
    and "distinct (map (dr_v4 (dr (Suc h))) [0 ..< length files])"
    and "dr_v4 (dr (Suc h)) ` {0 ..< length files} \<inter> f_file_uuid ` set fs = {}"
    and "dr_txn (dr (Suc h)) \<notin> (\<lambda>i. dr_txn (dr i)) ` {0 ..< Suc h}"
  shows "write_commit (dr (Suc h)) (push_op (AppendFiles files)) (life_handle lib) (life_db lib dr h t0 fs, out)
     = (Inr (), (life_db lib dr (Suc h) t0
          (fs @ map (\<lambda>(k, f, q). life_row dr (Suc h) k f q None) (enumerate 0 (zip files qs))),
        out @ [Line ''Committed transaction {}'' [AUuid (dr_txn (dr (Suc h)))]]))"
proof (rule life_commit [OF _ life_ops_checked(1) refl assms(6) life_env_parse(1) [OF assms(1)]])
  let ?rows = "map (\<lambda>(k, f, q). life_row dr (Suc h) k f q None) (enumerate 0 (zip files qs))"
  let ?d = "(life_db lib dr h t0 fs)\<lparr>db_transactions := map (life_txn dr) [0 ..< Suc (Suc h)]\<rparr>"
  have "apply_op (life_cat lib) (dr (Suc h)) (dr_v4 (dr 0) 0) (dr_txn (dr (Suc h))) (Some (dr_v4 (dr 0) 1))
      \<lparr>cm_db = ?d, cm_v4 = 0, cm_new_schema_uuid = Some (dr_v4 (dr 0) 1), cm_properties = life_props life_properties\<rparr>
      (AppendFiles files) = Inr \<lparr>cm_db = ?d\<lparr>db_files := db_files ?d @ ?rows\<rparr>, cm_v4 = length files,
        cm_new_schema_uuid = Some (dr_v4 (dr 0) 1), cm_properties = life_props life_properties\<rparr>"
    using assms(4,5) by (intro life_append_op [OF assms(2,3)]) (simp_all add: life_db_def life_table_def life_txn_def)
  then show "apply_op (life_cat lib) (dr (Suc h)) (dr_v4 (dr 0) 0) (dr_txn (dr (Suc h))) (Some (dr_v4 (dr 0) 1))
      \<lparr>cm_db = ?d, cm_v4 = 0, cm_new_schema_uuid = Some (dr_v4 (dr 0) 1), cm_properties = life_props life_properties\<rparr>
      (AppendFiles files) = Inr \<lparr>cm_db = (life_db lib dr h t0 (fs @ ?rows))
          \<lparr>db_transactions := map (life_txn dr) [0 ..< Suc (Suc h)]\<rparr>, cm_v4 = length files,
        cm_new_schema_uuid = Some (dr_v4 (dr 0) 1), cm_properties = life_props life_properties\<rparr>"
    by (simp add: life_db_def)
  show "serialize_json (lib_json lib) (properties_to_json (life_props life_properties)) = Inr t0"
    using assms(1) by (simp add: life_env_def life_props)
qed

text \<open>The file rows after the two appends, and the files read from them.\<close>

abbreviation life_rows1 :: "(nat \<Rightarrow> draws) \<Rightarrow> string \<Rightarrow> string \<Rightarrow> txn_id option \<Rightarrow> file_row list" where
  "life_rows1 dr q1 q2 r \<equiv> [life_row dr 1 0 life_file1 q1 r, life_row dr 1 1 life_file2 q2 None]"

abbreviation life_files1 :: "(nat \<Rightarrow> draws) \<Rightarrow> file_struct list" where
  "life_files1 dr \<equiv> [life_struct dr 1 0 life_file1 None, life_struct dr 1 1 life_file2 None]"

lemmas life_file_defs = life_struct_def life_file1_def life_file2_def life_file3_def with_partition_values_def
  file_spec_new_def sum_i64_def

lemma life_append_step:
  assumes "life_env lib dr t0 t4 q1 q2 q3"
  shows "append_step (dr 1) (life_handle lib) (life_db lib dr 0 t0 [], out)
    = (Inr (life_view lib dr 1 (life_files1 dr) (life_props life_properties)),
       (life_db lib dr 1 t0 (life_rows1 dr q1 q2 None),
        out @ [Line ''Step 3: Adding initial data files...'' [], Line ''Committed transaction {}'' [AUuid (dr_txn (dr 1))],
          Line ''   Total files: {}'' [ANat 2], Line ''   Total records: {}'' [AInt 2500], Line '''' []]))"
proof -
  have x: "dr_txn (dr 0) < dr_txn (dr 1)" "dr_v4 (dr 1) 0 \<noteq> dr_v4 (dr 1) 1" using assms by (simp_all add: life_env_def life_draws_def)
  have "write_commit (dr 1) (builder_append_files [life_file1, life_file2]) (life_handle lib) (life_db lib dr 0 t0 [], out)
      = (Inr (), (life_db lib dr 1 t0 (life_rows1 dr q1 q2 None),
          out @ [Line ''Committed transaction {}'' [AUuid (dr_txn (dr 1))]]))" for out
    using assms x life_append_commit [OF assms, of "[life_file1, life_file2]" "[q1, q2]" 0 "[]"]
    by (simp add: life_env_def builder_append_files_def [abs_def])
  moreover have "handle_read (life_handle lib) (life_db lib dr 1 t0 (life_rows1 dr q1 q2 None))
      = Inr (life_view lib dr 1 (life_files1 dr) (life_props life_properties))"
    using assms x life_env_parse [OF assms]
    by (intro life_handle_read) (simp_all add: life_env_def life_row_struct)
  ultimately show ?thesis
    by (simp add: append_step_def io_simps life_view_def life_file_defs)
qed

lemma life_append_one_step:
  assumes "life_env lib dr t0 t4 q1 q2 q3"
  shows "append_one_step (dr 2) (life_handle lib) (life_db lib dr 1 t0 (life_rows1 dr q1 q2 None), out)
    = (Inr (life_view lib dr 2 (life_files1 dr @ [life_struct dr 2 0 life_file3 None]) (life_props life_properties)),
       (life_db lib dr 2 t0 (life_rows1 dr q1 q2 None @ [life_row dr 2 0 life_file3 q3 None]),
        out @ [Line ''Step 4: Adding a single file...'' [], Line ''Committed transaction {}'' [AUuid (dr_txn (dr 2))],
          Line ''   Total files: {}'' [ANat 3], Line ''   Total records: {}'' [AInt 4500], Line '''' []]))"
proof -
  have x: "dr_txn (dr 0) < dr_txn (dr 1)" "dr_txn (dr 1) < dr_txn (dr 2)" "dr_txn (dr 0) < dr_txn (dr 2)"
      "dr_v4 (dr 2) 0 \<notin> {dr_v4 (dr 1) 0, dr_v4 (dr 1) 1}"
    using assms by (auto simp: life_env_def life_draws_def)
  have "write_commit (dr 2) (builder_append_file life_file3) (life_handle lib) (life_db lib dr 1 t0 (life_rows1 dr q1 q2 None), out)
      = (Inr (), (life_db lib dr 2 t0 (life_rows1 dr q1 q2 None @ [life_row dr 2 0 life_file3 q3 None]),
          out @ [Line ''Committed transaction {}'' [AUuid (dr_txn (dr 2))]]))" for out
    using assms x life_append_commit [OF assms, of "[life_file3]" "[q3]" 1 "life_rows1 dr q1 q2 None"]
    by (simp add: life_env_def builder_append_file_def [abs_def] numeral_2_eq_2 atLeast0_lessThan_Suc less_imp_neq [symmetric])
  moreover have "handle_read (life_handle lib) (life_db lib dr 2 t0 (life_rows1 dr q1 q2 None @ [life_row dr 2 0 life_file3 q3 None]))
      = Inr (life_view lib dr 2 (life_files1 dr @ [life_struct dr 2 0 life_file3 None]) (life_props life_properties))"
    using assms x life_env_parse [OF assms]
    by (intro life_handle_read) (simp_all add: life_env_def life_row_struct)
  ultimately show ?thesis
    by (simp add: append_one_step_def io_simps life_view_def life_file_defs)
qed

abbreviation life_rows2 :: "(nat \<Rightarrow> draws) \<Rightarrow> string \<Rightarrow> string \<Rightarrow> string \<Rightarrow> txn_id option \<Rightarrow> file_row list" where
  "life_rows2 dr q1 q2 q3 r \<equiv> life_rows1 dr q1 q2 r @ [life_row dr 2 0 life_file3 q3 None]"

abbreviation life_files2 :: "(nat \<Rightarrow> draws) \<Rightarrow> file_struct list" where
  "life_files2 dr \<equiv> life_files1 dr @ [life_struct dr 2 0 life_file3 None]"

lemma life_read_second:
  assumes "life_env lib dr t0 t4 q1 q2 q3"
  shows "read_table (life_cat lib) life_ident (Some (dr_txn (dr 1))) (life_db lib dr 2 t0 (life_rows2 dr q1 q2 q3 None))
      = Inr (life_view lib dr 1 (life_files1 dr) (life_props life_properties))"
    "read_table (life_cat lib) life_ident (Some (dr_txn (dr 2))) (life_db lib dr 2 t0 (life_rows2 dr q1 q2 q3 None))
      = Inr (life_view lib dr 2 (life_files2 dr) (life_props life_properties))"
proof -
  have x: "dr_txn (dr 0) < dr_txn (dr 1)" "dr_txn (dr 1) < dr_txn (dr 2)" "dr_txn (dr 0) < dr_txn (dr 2)"
    using assms by (auto simp: life_env_def life_draws_def)
  note env = assms [unfolded life_env_def] x life_env_parse(1) [OF assms]
  show "read_table (life_cat lib) life_ident (Some (dr_txn (dr 1))) (life_db lib dr 2 t0 (life_rows2 dr q1 q2 q3 None))
      = Inr (life_view lib dr 1 (life_files1 dr) (life_props life_properties))"
    using env by (intro life_read) (simp_all add: life_row_struct life_check_history del: One_nat_def)
  show "read_table (life_cat lib) life_ident (Some (dr_txn (dr 2))) (life_db lib dr 2 t0 (life_rows2 dr q1 q2 q3 None))
      = Inr (life_view lib dr 2 (life_files2 dr) (life_props life_properties))"
    using env by (intro life_read) (simp_all add: life_row_struct check_in_history_def)
qed

lemma life_time_travel_step:
  assumes "life_env lib dr t0 t4 q1 q2 q3"
  shows "time_travel_step (life_view lib dr 1 files p) (life_handle lib) (life_db lib dr 2 t0 (life_rows2 dr q1 q2 q3 None), out)
    = (Inr (), (life_db lib dr 2 t0 (life_rows2 dr q1 q2 q3 None),
        out @ [Line ''Step 5: Time travel query...'' [], Line ''Read table at transaction {}'' [AUuid (dr_txn (dr 1))],
          Line ''   Files at this point: {}'' [ANat 2], Line ''   Current head transaction: {}'' [AUuid (dr_txn (dr 2))],
          Line '''' []]))"
  using life_read_second [OF assms]
  by (simp add: time_travel_step_def io_simps life_view_def handle_read_at_def handle_current_transaction_id_def
      current_transaction_id_def life_table_def del: One_nat_def append.simps)

lemma life_delta_step:
  assumes "life_env lib dr t0 t4 q1 q2 q3"
  shows "delta_step (life_view lib dr 1 files p) (life_view lib dr 2 files' p') (life_handle lib)
      (life_db lib dr 2 t0 (life_rows2 dr q1 q2 q3 None), out)
    = (Inr (), (life_db lib dr 2 t0 (life_rows2 dr q1 q2 q3 None),
        out @ [Line ''Step 6: Computing delta between transactions...'' [], Line ''Delta computed:'' [],
          Line ''   From transaction: {}'' [AUuid (dr_txn (dr 1))], Line ''   To transaction: {}'' [AUuid (dr_txn (dr 2))],
          Line ''   Files added: {}'' [ANat 1], Line ''   Files removed: {}'' [ANat 0],
          Line ''   Transactions scanned in range: {}'' [ANat 1], Line ''   Added files:'' [],
          Line ''     - {} ({} records)'' [AStr ''/data/sales/transactions/part-00002.parquet'', AInt 2000], Line '''' []]))"
proof -
  have events: "list_transaction_events (life_cat lib) life_ident
       \<lparr>rc_from_exclusive = Some (dr_txn (dr 1)), rc_to_inclusive = dr_txn (dr 2)\<rparr>
       (life_db lib dr 2 t0 (life_rows2 dr q1 q2 q3 None))
     = Inr [\<lparr>ev_transaction_id = dr_txn (dr 2), ev_file_changes = [\<lparr>ch_transaction_id = dr_txn (dr 2), ch_kind = Added,
         ch_file = life_struct dr 2 0 life_file3 None\<rparr>], ev_schema_change = None\<rparr>]"
    using assms by (intro life_events) (simp_all add: life_env_def life_row_def)
  then have "diff_table (life_cat lib) life_ident (dr_txn (dr 1)) (dr_txn (dr 2)) (life_db lib dr 2 t0 (life_rows2 dr q1 q2 q3 None))
     = Inr \<lparr>td_from_transaction_id = dr_txn (dr 1), td_to_transaction_id = dr_txn (dr 2),
         td_added_files = [life_struct dr 2 0 life_file3 None], td_removed_files = [],
         td_new_schema = None, td_new_properties = None\<rparr>"
    using life_read_second [OF assms]
    by (simp add: diff_table_def project_delta_range_def project_change_def hash_insert_def hash_remove_def life_view_def
        del: One_nat_def append.simps)
  with events show ?thesis
    by (simp add: delta_step_def io_simps handle_diff_def handle_list_transaction_events_def life_view_def
        life_file_defs del: One_nat_def append.simps) 
qed

lemma life_delete_step:
  assumes "life_env lib dr t0 t4 q1 q2 q3"
  shows "delete_step (dr 3) (life_view lib dr 2 (life_files2 dr) p) (life_handle lib) (life_db lib dr 2 t0 (life_rows2 dr q1 q2 q3 None), out)
    = (Inr (), (life_db lib dr 3 t0 (life_rows2 dr q1 q2 q3 (Some (dr_txn (dr 3)))),
        out @ [Line ''Step 7: Deleting a file...'' [], Line ''Committed transaction {}'' [AUuid (dr_txn (dr 3))],
          Line ''   Total files: {}'' [ANat 2], Line ''   Total records: {}'' [AInt 3500], Line '''' []]))"
proof -
  let ?fs = "life_rows2 dr q1 q2 q3 None" and ?fs' = "life_rows2 dr q1 q2 q3 (Some (dr_txn (dr 3)))"
  let ?txns = "map (life_txn dr) [0 ..< Suc (Suc 2)]" and ?su = "Some (dr_v4 (dr 0) 1)"
  have x: "dr_txn (dr 3) \<notin> (\<lambda>i. dr_txn (dr i)) ` {0 ..< Suc 2}" "dr_txn (dr 0) < dr_txn (dr 3)"
      "dr_txn (dr 1) < dr_txn (dr 3)" "dr_txn (dr 2) < dr_txn (dr 3)"
      "dr_v4 (dr 1) 0 \<noteq> dr_v4 (dr 1) 1" "dr_v4 (dr 1) 0 \<noteq> dr_v4 (dr 2) 0"
    using assms by (auto simp: life_env_def life_draws_def numeral_2_eq_2 atLeast0_lessThan_Suc)
  have "map (\<lambda>r. if file_removable (dr_v4 (dr 0) 0) [dr_v4 (dr 1) 0] r then r\<lparr>f_removed_in := Some (dr_txn (dr 3))\<rparr> else r) ?fs = ?fs'"
    using x(5,6) by simp
  then have "apply_op (life_cat lib) (dr 3) (dr_v4 (dr 0) 0) (dr_txn (dr 3)) ?su
      \<lparr>cm_db = (life_db lib dr 2 t0 ?fs)\<lparr>db_transactions := ?txns\<rparr>, cm_v4 = 0, cm_new_schema_uuid = ?su,
       cm_properties = life_props life_properties\<rparr> (DeleteFiles [dr_v4 (dr 1) 0])
    = Inr \<lparr>cm_db = (life_db lib dr 2 t0 ?fs')\<lparr>db_transactions := ?txns\<rparr>, cm_v4 = 0, cm_new_schema_uuid = ?su,
       cm_properties = life_props life_properties\<rparr>"
    by (subst life_delete_op) (simp_all add: life_db_def life_txn_def numeral_3_eq_3 numeral_2_eq_2)
  then have "write_commit (dr 3) (builder_delete_files [dr_v4 (dr 1) 0]) (life_handle lib) (life_db lib dr 2 t0 ?fs, out)
      = (Inr (), (life_db lib dr 3 t0 ?fs', out @ [Line ''Committed transaction {}'' [AUuid (dr_txn (dr 3))]]))" for out
    using life_commit [OF _ life_ops_checked(2) _ _ life_env_parse(1) [OF assms], where h = 2] x(1) assms
    by (simp add: builder_delete_files_def [abs_def] life_props life_env_def)
  moreover have "handle_read (life_handle lib) (life_db lib dr 3 t0 ?fs')
      = Inr (life_view lib dr 3 [life_struct dr 1 1 life_file2 None, life_struct dr 2 0 life_file3 None] (life_props life_properties))"
    using assms x life_env_parse [OF assms]
    by (intro life_handle_read) (simp_all add: life_env_def life_row_struct less_imp_le order_less_not_sym)
  ultimately show ?thesis
    by (simp add: delete_step_def io_simps life_view_def life_file_defs)
qed

lemma life_properties_step:
  assumes "life_env lib dr t0 t4 q1 q2 q3"
  shows "properties_step lib (dr 4) (life_handle lib) (life_db lib dr 3 t0 (life_rows2 dr q1 q2 q3 (Some (dr_txn (dr 3)))), out)
    = (Inr (life_view lib dr 4 [life_struct dr 1 1 life_file2 None, life_struct dr 2 0 life_file3 None]
         (life_props life_updated_properties)),
       (life_db lib dr 4 t4 (life_rows2 dr q1 q2 q3 (Some (dr_txn (dr 3)))),
        out @ [Line ''Step 8: Updating table properties...'' [], Line ''Committed transaction {}'' [AUuid (dr_txn (dr 4))],
          Line ''   Updated properties: {}'' [AStr t4], Line '''' []]))"
proof -
  let ?fs = "life_rows2 dr q1 q2 q3 (Some (dr_txn (dr 3)))"
  have x: "dr_txn (dr 4) \<notin> (\<lambda>i. dr_txn (dr i)) ` {0 ..< Suc 3}" "dr_txn (dr 0) < dr_txn (dr 4)"
      "dr_txn (dr 1) < dr_txn (dr 4)" "dr_txn (dr 2) < dr_txn (dr 4)" "dr_txn (dr 3) < dr_txn (dr 4)"
    using assms by (auto simp: life_env_def life_draws_def numeral_3_eq_3 numeral_2_eq_2 atLeast0_lessThan_Suc)
  have "apply_op (life_cat lib) dr' tu y cs \<lparr>cm_db = d, cm_v4 = 0, cm_new_schema_uuid = su, cm_properties = p\<rparr> (SetProperties p')
      = Inr \<lparr>cm_db = d, cm_v4 = 0, cm_new_schema_uuid = su, cm_properties = p'\<rparr>" for dr' tu y cs d su p p'
    by (simp add: apply_op_def set_properties_def)
  then have "write_commit (dr 4) (builder_set_properties (life_props life_updated_properties)) (life_handle lib) (life_db lib dr 3 t0 ?fs, out)
      = (Inr (), (life_db lib dr 4 t4 ?fs, out @ [Line ''Committed transaction {}'' [AUuid (dr_txn (dr 4))]]))" for out
    using life_commit [OF _ life_ops_checked(3) _ _ life_env_parse(1) [OF assms], where h = 3] x(1) assms
    by (simp add: builder_set_properties_def [abs_def] life_props life_env_def)
  moreover have "handle_read (life_handle lib) (life_db lib dr 4 t4 ?fs)
      = Inr (life_view lib dr 4 [life_struct dr 1 1 life_file2 None, life_struct dr 2 0 life_file3 None] (life_props life_updated_properties))"
    using assms x life_env_parse [OF assms]
    by (intro life_handle_read) (simp_all add: life_env_def life_row_struct less_imp_le order_less_not_sym)
  moreover have "properties_display (lib_json lib) (life_props life_updated_properties) = Some t4"
    using assms serialize_json_size by (simp add: properties_display_def life_props life_env_def)
  ultimately show ?thesis
    by (simp add: properties_step_def io_simps life_props life_view_def)
qed

lemma life_list_step:
  "list_step (life_cat lib) (life_db lib dr h t fs, out) = (Inr (), (life_db lib dr h t fs,
     out @ [Line ''Step 9: Listing all tables...'' [], Line ''Found {} table(s):'' [ANat 1],
       Line ''   - {}.{}'' [AStr ''sales'', AStr ''transactions''],
       Line ''   Tables in 'sales' namespace: {}'' [ANat 1], Line '''' []]))"
proof -
  have "list_tables (life_cat lib) None (life_db lib dr h t fs) = Inr [life_ident]"
    "list_tables (life_cat lib) (Some ''sales'') (life_db lib dr h t fs) = Inr [life_ident]"
    by (simp_all add: list_tables_def life_db_def life_table_def life_ident_def table_ident_new_def)
  then show ?thesis by (simp add: list_step_def io_simps)
qed

lemma life_open:
  assumes "fk_laws sx fk" and "rows_laws sx stored" and "in_memory sx lib = Inr (cat, pool)"
  shows "open_catalog sx stored lib s = (Inr (life_cat lib), (empty_db, snd s))"
proof -
  obtain p where p: "sx_connect sx Sqlite ''sqlite::memory:'' = Inr p" "cat = life_cat lib"
    "stored pool = Some (case stored p of None \<Rightarrow> empty_db | Some d \<Rightarrow> d)"
    using assms(3) unfolding in_memory_def in_memory_with_protocol_versions_def catalog_new_def
    by (rule sqlite_opened [OF assms(1,2)])
  moreover have "stored p = None" using assms(2) p(1) by (simp add: rows_laws_def)
  ultimately show ?thesis using assms(3) by (simp add: open_catalog_def)
qed

lemma life_summary_step:
  "summary_step (life_view lib dr 4 [life_struct dr 1 1 life_file2 None, life_struct dr 2 0 life_file3 None] p) (d, out)
    = (Inr (), (d, out @ [Line ''Summary:'' [], Line ''   Table: {}.{}'' [AStr ''sales'', AStr ''transactions''],
       Line ''   Current transaction: {}'' [AUuid (dr_txn (dr 4))], Line ''   Total files: {}'' [ANat 2],
       Line ''   Total records: {}'' [AInt 3500], Line ''   Total size: {} bytes'' [AInt 860160],
       Line ''Example completed successfully!'' []]))"
  by (simp add: summary_step_def io_simps life_view_def life_file_defs)

text \<open>What the program prints, leaving out the lines without a value.\<close>

definition life_report :: "(nat \<Rightarrow> draws) \<Rightarrow> string \<Rightarrow> (string \<times> arg list) list" where
  "life_report dr text =
      [(''Table created: {}.{}'', [AStr ''sales'', AStr ''transactions'']),
       (''   Transaction ID: {}'', [AUuid (dr_txn (dr 0))]),
       (''Committed transaction {}'', [AUuid (dr_txn (dr 1))]),
       (''   Total files: {}'', [ANat 2]), (''   Total records: {}'', [AInt 2500]),
       (''Committed transaction {}'', [AUuid (dr_txn (dr 2))]),
       (''   Total files: {}'', [ANat 3]), (''   Total records: {}'', [AInt 4500]),
       (''Read table at transaction {}'', [AUuid (dr_txn (dr 1))]),
       (''   Files at this point: {}'', [ANat 2]),
       (''   Current head transaction: {}'', [AUuid (dr_txn (dr 2))]),
       (''   From transaction: {}'', [AUuid (dr_txn (dr 1))]), (''   To transaction: {}'', [AUuid (dr_txn (dr 2))]),
       (''   Files added: {}'', [ANat 1]), (''   Files removed: {}'', [ANat 0]),
       (''   Transactions scanned in range: {}'', [ANat 1]),
       (''     - {} ({} records)'', [AStr ''/data/sales/transactions/part-00002.parquet'', AInt 2000]),
       (''Committed transaction {}'', [AUuid (dr_txn (dr 3))]),
       (''   Total files: {}'', [ANat 2]), (''   Total records: {}'', [AInt 3500]),
       (''Committed transaction {}'', [AUuid (dr_txn (dr 4))]), (''   Updated properties: {}'', [AStr text]),
       (''Found {} table(s):'', [ANat 1]), (''   - {}.{}'', [AStr ''sales'', AStr ''transactions'']),
       (''   Tables in 'sales' namespace: {}'', [ANat 1]),
       (''   Table: {}.{}'', [AStr ''sales'', AStr ''transactions'']),
       (''   Current transaction: {}'', [AUuid (dr_txn (dr 4))]), (''   Total files: {}'', [ANat 2]),
       (''   Total records: {}'', [AInt 3500]), (''   Total size: {} bytes'', [AInt 860160])]"

lemma life_main:
  assumes "life_env lib dr t0 t4 q1 q2 q3" and "\<And>d out. open_catalog sx stored lib (d, out) = (Inr (life_cat lib), (empty_db, out))"
  shows "\<exists>out. lifecycle_main sx stored lib dr (d, [])
      = (Inr (), (life_db lib dr 4 t4 (life_rows2 dr q1 q2 q3 (Some (dr_txn (dr 3)))), out))
    \<and> map (\<lambda>l. (line_text l, line_args l)) (filter (\<lambda>l. line_args l \<noteq> []) out) = life_report dr t4"
  unfolding lifecycle_main_def
  apply (rule exI, rule conjI)
   apply (rule andthenI, rule println_out, rule andthenI, rule println_out, rule andthenI, rule assms(2), rule andthenI, rule println_out)
   apply (rule andthenI, rule life_create_step [OF assms(1)], rule andthenI, rule life_append_step [OF assms(1)])
   apply (rule andthenI, rule life_append_one_step [OF assms(1)], rule andthenI, rule life_time_travel_step [OF assms(1)])
   apply (rule andthenI, rule life_delta_step [OF assms(1)], rule andthenI, rule life_delete_step [OF assms(1)])
   apply (rule andthenI, rule life_properties_step [OF assms(1)], rule andthenI, rule life_list_step, rule life_summary_step)
  apply (simp add: life_report_def)
  done

definition printable :: "libs \<Rightarrow> json \<Rightarrow> bool" where
  "printable lib v \<longleftrightarrow> (\<exists>t. json_to_string (lib_json lib) v = Inr t \<and> length t \<le> unat MAX_JSON_SIZE_BYTES)"

lemma printable_serialized: "printable lib v \<Longrightarrow> \<exists>t. serialize_json (lib_json lib) v = Inr t"
  by (auto simp: printable_def serialize_json_def len_u32_small)

lemma life_env_exists:
  assumes "json_codec (lib_json lib)" and "codec_ok lib (ss_columns life_schema)"
    and "list_all (printable lib) [life_properties, life_updated_properties, JObject [(''date'', JString ''2024-01-01'')],
       JObject [(''date'', JString ''2024-01-02'')], JObject [(''date'', JString ''2024-01-03'')]]"
    and "life_draws dr" and "json_to_string (lib_json lib) life_updated_properties = Inr text"
  shows "\<exists>t0 q1 q2 q3. life_env lib dr t0 text q1 q2 q3"
proof -
  have "serialize_json (lib_json lib) life_updated_properties = Inr text"
    using assms(3,5) printable_serialized [of lib life_updated_properties] serialize_json_size by fastforce
  moreover have "\<exists>q. plain_file lib f q" if "f \<in> {life_file1, life_file2, life_file3}" for f
  proof -
    have valid: "file_spec_validate (lib_format lib) f = Inr ()" using that life_files_valid by auto
    have "fs_file_uuid f = None \<and> fs_file_format f = Parquet \<and> fs_format_options f = None
        \<and> (\<exists>v. fs_partition_values f = Some v \<and> printable lib v)"
      using that assms(3) by (auto simp: life_file1_def life_file2_def life_file3_def with_partition_values_def file_spec_new_def)
    with valid printable_serialized show ?thesis by (fastforce simp: plain_file_def)
  qed
  ultimately show ?thesis
    using assms printable_serialized [of lib life_properties] by (auto simp: life_env_def)
qed

text \<open>C16. The lifecycle program completes: with identifiers that do not collide and increase with
  the commits, with a JSON library that prints the objects used within the size limit and reads
  back what it printed, and with an Arrow codec that decodes the column types, the program ends
  without an error on an in-memory catalog and reports exactly these values: 2 files with 2500
  records after the first commit, 3 with 4500 after the second, still 2 at the first commit, a
  delta of one added file over one transaction, 2 files with 3500 records after the deletion,
  the updated properties, and the one table.\<close>

theorem lifecycle_completes:
  assumes "fk_laws sx fk" and "rows_laws sx stored" and "in_memory sx lib = Inr (cat, pool)"
    and "json_codec (lib_json lib)" and "codec_ok lib (ss_columns life_schema)"
    and "list_all (printable lib) [life_properties, life_updated_properties, JObject [(''date'', JString ''2024-01-01'')],
       JObject [(''date'', JString ''2024-01-02'')], JObject [(''date'', JString ''2024-01-03'')]]"
    and "life_draws dr" and "json_to_string (lib_json lib) life_updated_properties = Inr text"
  shows "\<exists>d out. lifecycle_main sx stored lib dr (empty_db, []) = (Inr (), (d, out))
    \<and> map (\<lambda>l. (line_text l, line_args l)) (filter (\<lambda>l. line_args l \<noteq> []) out) = life_report dr text"
proof -
  obtain t0 q1 q2 q3 where "life_env lib dr t0 text q1 q2 q3" using life_env_exists [OF assms(4-8)] by blast
  from life_main [OF this] show ?thesis using life_open [OF assms(1-3)] by fastforce
qed

section \<open>A run\<close>

definition life_texts :: "(string \<times> json) list" where
  "life_texts = [(''a'', life_properties), (''b'', life_updated_properties), (''c'', JObject [(''date'', JString ''2024-01-01'')]),
     (''d'', JObject [(''date'', JString ''2024-01-02'')]), (''e'', JObject [(''date'', JString ''2024-01-03'')])]"

definition life_types :: "(bytes \<times> data_type) list" where
  "life_types = [([1], Int64), ([2], Float64), ([3], Timestamp Microsecond None)]"

text \<open>Libraries that know the texts and types of the program.\<close>

definition life_libs :: libs where
  "life_libs = demo_libs\<lparr>
     lib_json := \<lparr>json_from_str = (\<lambda>s. case map_of life_texts s of Some v \<Rightarrow> Inr v | None \<Rightarrow> Inl ''syntax''),
       json_to_string = (\<lambda>v. case find (\<lambda>e. snd e = v) life_texts of Some e \<Rightarrow> Inr (fst e) | None \<Rightarrow> Inl ''unsupported'')\<rparr>,
     lib_schema_to_fb := (\<lambda>fs. case find (\<lambda>e. [Field ''_'' (snd e) True] = fs) life_types of Some e \<Rightarrow> fst e | None \<Rightarrow> []),
     lib_root_as_schema := (\<lambda>bs. case map_of life_types bs of Some t \<Rightarrow> Inr [Field ''_'' t True] | None \<Rightarrow> Inl ''bad'')\<rparr>"

definition life_demo :: "nat \<Rightarrow> draws" where
  "life_demo i = demo_draws (10 * word_of_nat (i + 1))"

lemma life_libs_json: "json_codec (lib_json life_libs)"
  by (auto simp: json_codec_def life_libs_def life_texts_def split: option.splits if_splits)

theorem lifecycle_completes_witness:
  "\<exists>d out. lifecycle_main tiny_sqlx snd life_libs life_demo (empty_db, []) = (Inr (), (d, out))
    \<and> map (\<lambda>l. (line_text l, line_args l)) (filter (\<lambda>l. line_args l \<noteq> []) out) = life_report life_demo ''b''"
proof -
  obtain cat pool where "in_memory tiny_sqlx life_libs = Inr (cat, pool)"
    by (simp add: in_memory_def in_memory_with_protocol_versions_def tiny_sqlx_def Let_def
        sqlite_from_connection_string_with_protocol_versions_def sqlite_configure_database_def
        sqlite_configure_pool_def sqlite_initialize_schema_def)
  moreover have "codec_ok life_libs (ss_columns life_schema)" by code_simp
  moreover have "life_draws life_demo" by code_simp
  moreover have "json_to_string (lib_json life_libs) life_updated_properties = Inr ''b''" by code_simp
  moreover have "json_to_string (lib_json life_libs) life_properties = Inr ''a''"
    "json_to_string (lib_json life_libs) (JObject [(''date'', JString ''2024-01-01'')]) = Inr ''c''"
    "json_to_string (lib_json life_libs) (JObject [(''date'', JString ''2024-01-02'')]) = Inr ''d''"
    "json_to_string (lib_json life_libs) (JObject [(''date'', JString ''2024-01-03'')]) = Inr ''e''"
    by code_simp+
  ultimately show ?thesis
    by (intro lifecycle_completes [OF tiny_sqlx_laws _ life_libs_json]) (simp_all add: printable_def)
qed

end
