(* ===== verification/Versions.thy ===== *)
theory Versions
  imports Isolation Evolution
begin

text \<open>
  What the catalog promises, as an abstract machine. A table is a list of versions, each with
  its identifier, its columns and its files, and the current properties; a commit appends the
  version its operations make of the last one, a creation adds a table with one version. The
  database, with its validity ranges, parent pointers and batches, refines this machine: every
  operation does to the abstract catalog what the machine does, and a snapshot that is read is
  a version of it.
\<close>

section \<open>The abstract catalog\<close>

record version =
  ver_id :: txn_id
  ver_columns :: "(string \<times> bytes \<times> bool) list"
  ver_files :: "file_row list"

record vtable =
  vt_uuid :: uuid
  vt_versions :: "version list"
  vt_properties :: table_properties
  vt_min_reader :: i32
  vt_min_writer :: i32

type_synonym vcatalog = "table_ident \<Rightarrow> vtable option"

definition spec_columns :: "libs \<Rightarrow> schema_spec \<Rightarrow> (string \<times> bytes \<times> bool) list" where
  "spec_columns lib spec =
     map (\<lambda>c. (cs_name c, lib_schema_to_fb lib [Field ''_'' (cs_column_type c) True], cs_is_nullable c)) (ss_columns spec)"

fun columns_step :: "libs \<Rightarrow> mutation_op \<Rightarrow> (string \<times> bytes \<times> bool) list \<Rightarrow> (string \<times> bytes \<times> bool) list" where
  "columns_step lib (UpdateSchema spec) cols = spec_columns lib spec"
| "columns_step lib _ cols = cols"

definition spec_create ::
  "sql_catalog \<Rightarrow> draws \<Rightarrow> schema_spec \<Rightarrow> table_properties option \<Rightarrow> vtable" where
  "spec_create cat dr schema properties =
     \<lparr>vt_uuid = dr_v4 dr 0,
      vt_versions = [\<lparr>ver_id = dr_txn dr, ver_columns = spec_columns (cat_libs cat) schema, ver_files = []\<rparr>],
      vt_properties = (case properties of Some p \<Rightarrow> p | None \<Rightarrow> properties_new),
      vt_min_reader = reader_version cat, vt_min_writer = writer_version cat\<rparr>"

definition spec_commit :: "libs \<Rightarrow> draws \<Rightarrow> mutation \<Rightarrow> vtable \<Rightarrow> vtable" where
  "spec_commit lib dr m v =
     (let head = last (vt_versions v); ops = mu_operations m in
      v\<lparr>vt_versions := vt_versions v @ [\<lparr>ver_id = dr_txn dr,
          ver_columns = fold (columns_step lib) ops (ver_columns head),
          ver_files = snd (fold (live_step lib (dr_v4 dr) (vt_uuid v) (dr_txn dr)) ops (0, ver_files head))\<rparr>],
        vt_properties := fold props_step ops (vt_properties v)\<rparr>)"

section \<open>The abstraction of a database\<close>

abbreviation erase_removal :: "file_row \<Rightarrow> file_row" where
  "erase_removal r \<equiv> r\<lparr>f_removed_in := None\<rparr>"

abbreviation column_content :: "column_row \<Rightarrow> string \<times> bytes \<times> bool" where
  "column_content c \<equiv> (c_column_name c, c_column_type c, c_is_nullable c)"

definition version_at :: "uuid \<Rightarrow> db \<Rightarrow> txn_id \<Rightarrow> version" where
  "version_at tu d t =
     \<lparr>ver_id = t,
      ver_columns = (case find (schema_valid_at tu t) (db_schemas d) of
          Some s \<Rightarrow> map column_content (select_columns (s_schema_uuid s) d) | None \<Rightarrow> []),
      ver_files = map erase_removal (filter (file_visible_at tu t) (db_files d))\<rparr>"

definition abs_table :: "libs \<Rightarrow> db \<Rightarrow> table_row \<Rightarrow> vtable" where
  "abs_table lib d r =
     \<lparr>vt_uuid = t_table_uuid r, vt_versions = map (version_at (t_table_uuid r) d) (txn_line (t_table_uuid r) d),
      vt_properties = (case parse_table_properties (lib_json lib) (t_properties r) of Inr p \<Rightarrow> p | Inl _ \<Rightarrow> properties_new),
      vt_min_reader = t_min_reader_version r, vt_min_writer = t_min_writer_version r\<rparr>"

definition abs_catalog :: "libs \<Rightarrow> db \<Rightarrow> vcatalog" where
  "abs_catalog lib d ident = map_option (abs_table lib d) (select_table (ti_namespace ident) (ti_name ident) d)"

section \<open>Versions never change\<close>

lemma same_file_erased: "same_file r r' \<Longrightarrow> erase_removal r' = erase_removal r"
  by (cases r; cases r') (simp add: same_file_def)

lemma same_files_erased: "list_all2 same_file rs rs' \<Longrightarrow> map erase_removal rs' = map erase_removal rs"
  by (induction rule: list_all2_induct) (simp_all add: same_file_erased)

lemma version_at_kept:
  assumes "snapshot_kept tu t d d'"
  shows "version_at tu d' t = version_at tu d t"
proof -
  have "map erase_removal (filter (file_visible_at tu t) (db_files d'))
      = map erase_removal (filter (file_visible_at tu t) (db_files d))"
    using assms unfolding snapshot_kept_def by (blast intro: same_files_erased)
  moreover have "rel_option same_schema (find (schema_valid_at tu t) (db_schemas d)) (find (schema_valid_at tu t) (db_schemas d'))"
    "\<And>s. find (schema_valid_at tu t) (db_schemas d) = Some s \<Longrightarrow>
          select_columns (s_schema_uuid s) d' = select_columns (s_schema_uuid s) d"
    using assms unfolding snapshot_kept_def by blast+
  then have "(case find (schema_valid_at tu t) (db_schemas d') of
        Some s \<Rightarrow> map column_content (select_columns (s_schema_uuid s) d') | None \<Rightarrow> [])
      = (case find (schema_valid_at tu t) (db_schemas d) of
        Some s \<Rightarrow> map column_content (select_columns (s_schema_uuid s) d) | None \<Rightarrow> [])"
    by (cases "find (schema_valid_at tu t) (db_schemas d)"; cases "find (schema_valid_at tu t) (db_schemas d')")
       (auto dest: same_schema_uuid)
  ultimately show ?thesis by (simp add: version_at_def)
qed

lemma abs_unaffected:
  assumes "unaffected ident d d'"
  shows "abs_catalog lib d' ident = abs_catalog lib d ident"
proof (cases "select_table (ti_namespace ident) (ti_name ident) d")
  case (Some r)
  then have same: "table_same (t_table_uuid r) d d'" using assms by (simp add: unaffected_def)
  have "select_columns (s_schema_uuid s) d' = select_columns (s_schema_uuid s) d"
    if "find (schema_valid_at (t_table_uuid r) t) (db_schemas d) = Some s" for s t
    using same find_SomeD [OF that] by (auto simp: table_same_def table_schemas_def schema_valid_at_def)
  then have "version_at (t_table_uuid r) d' = version_at (t_table_uuid r) d"
    by (auto simp: fun_eq_iff version_at_def table_same_queries [OF same] split: option.split)
  moreover have "txn_line (t_table_uuid r) d' = txn_line (t_table_uuid r) d"
    using same by (simp add: table_same_def txn_line_def)
  ultimately show ?thesis using assms by (simp add: abs_catalog_def unaffected_def abs_table_def Some)
qed (use assms in \<open>simp add: abs_catalog_def unaffected_def\<close>)

section \<open>The version at the head\<close>

lemma head_schema:
  assumes wf: "wf_db d" and r: "r \<in> set (db_tables d)" and h: "t_current_transaction_id r = Some h"
  obtains s where "find (schema_valid_at (t_table_uuid r) h) (db_schemas d) = Some s"
    "t_current_schema_uuid r = Some (s_schema_uuid s)"
proof -
  let ?tu = "t_table_uuid r" and ?ss = "table_schemas (t_table_uuid r) d"
  note ok = wf_dest(2) [OF wf r]
  have ne: "?ss \<noteq> []" and cur: "t_current_schema_uuid r = Some (s_schema_uuid (last ?ss))"
    using ok by (simp_all add: schemas_ok_def)
  have last: "last ?ss \<in> set (db_schemas d)" "s_table_uuid (last ?ss) = ?tu"
    using last_in_set [OF ne] by (auto simp: table_schemas_def)
  have "s_valid_from (last ?ss) \<in> set (map x_transaction_id (table_txns ?tu d))"
    using ok last_in_set [OF ne] by (auto simp: schemas_ok_def)
  then have "s_valid_from (last ?ss) \<le> h" using history_ok_last [OF wf_dest(1) [OF wf r] h] by simp
  moreover have "s_valid_to (last ?ss) = None" using current_schema_open [OF wf r cur last(1)] by simp
  ultimately have valid: "schema_valid_at ?tu h (last ?ss)" using last(2) by (simp add: schema_valid_at_def)
  then obtain s where s: "find (schema_valid_at ?tu h) (db_schemas d) = Some s"
    using last(1) by (cases "find (schema_valid_at ?tu h) (db_schemas d)") (auto simp: find_None_iff)
  then have "s \<in> set ?ss" and vs: "schema_valid_at ?tu h s"
    using find_SomeD [OF s] by (auto simp: table_schemas_def schema_valid_at_def)
  then obtain i where i: "i < length ?ss" "?ss ! i = s" by (auto simp: in_set_conv_nth)
  have "length ?ss - 1 \<le> i"
    using valid_order [OF ok _ i(1) order_refl, of "length ?ss - 1" ?tu h] ne valid vs i(2) by (simp add: last_conv_nth)
  then have "s = last ?ss" using i ne by (simp add: last_conv_nth) (metis Suc_pred diff_is_0_eq leD length_greater_0_conv less_Suc_eq_le nat_less_le)
  with s cur show thesis by (intro that) simp_all
qed

definition row_columns :: "db \<Rightarrow> table_row \<Rightarrow> (string \<times> bytes \<times> bool) list" where
  "row_columns d r = (case t_current_schema_uuid r of Some u \<Rightarrow> map column_content (select_columns u d) | None \<Rightarrow> [])"

lemma head_version:
  assumes wf: "wf_db d" and r: "r \<in> set (db_tables d)" and h: "t_current_transaction_id r = Some h"
  shows "version_at (t_table_uuid r) d h
     = \<lparr>ver_id = h, ver_columns = row_columns d r, ver_files = filter (file_visible_at (t_table_uuid r) h) (db_files d)\<rparr>"
proof -
  obtain s where s: "find (schema_valid_at (t_table_uuid r) h) (db_schemas d) = Some s"
    "t_current_schema_uuid r = Some (s_schema_uuid s)"
    using head_schema [OF wf r h] .
  have "map erase_removal (filter (file_visible_at (t_table_uuid r) h) (db_files d))
      = filter (file_visible_at (t_table_uuid r) h) (db_files d)"
    unfolding head_files_live [OF wf r h] by (rule map_idI) (simp add: live_def)
  then show ?thesis by (simp add: version_at_def row_columns_def s)
qed

lemma columns_fold:
  "filter is_update_schema ops = [] \<Longrightarrow> fold (columns_step lib) ops cols = cols"
  "filter is_update_schema ops = [UpdateSchema spec] \<Longrightarrow> fold (columns_step lib) ops cols = spec_columns lib spec"
proof -
  have keep: "\<not> is_update_schema op \<Longrightarrow> columns_step lib op cols = cols" for op cols by (cases op) auto
  show none: "filter is_update_schema ops = [] \<Longrightarrow> fold (columns_step lib) ops cols = cols" for ops cols
    by (induction ops) (auto simp: keep split: if_splits)
  show "filter is_update_schema ops = [UpdateSchema spec] \<Longrightarrow> fold (columns_step lib) ops cols = spec_columns lib spec"
    by (induction ops arbitrary: cols) (auto simp: keep none split: if_splits)
qed

lemma column_rows_content: "map column_content (column_rows lib v4 su k ord (ss_columns spec)) = spec_columns lib spec"
  by (rule nth_equalityI) (simp_all add: column_rows_def spec_columns_def nth_enumerate_eq)

lemma commit_columns:
  assumes wf: "wf_db d" and eff: "schema_effect lib dr m r d D su"
  shows "row_columns (update_table_commit x su pt tu D) (committed_row x su pt r)
     = fold (columns_step lib) (mu_operations m) (row_columns d r)"
  using eff unfolding schema_effect_def
proof (elim disjE exE conjE)
  assume "db_columns D = db_columns d" "su = t_current_schema_uuid r" "filter is_update_schema (mu_operations m) = []"
  then show ?thesis
    by (simp add: row_columns_def columns_fold select_columns_def update_table_commit_tables cong: option.case_cong)
next
  fix cur ver u k spec
  assume u: "u \<notin> schema_ids d" "su = Some u" and one: "filter is_update_schema (mu_operations m) = [UpdateSchema spec]"
    and C: "db_columns D = db_columns d @ column_rows lib (dr_v4 dr) u k 0 (ss_columns spec)"
  have "select_columns u (update_table_commit x su pt tu D) = column_rows lib (dr_v4 dr) u k 0 (ss_columns spec)"
    using select_columns_new [OF _ u(1) C] wf by (simp add: wf_db_def select_columns_def update_table_commit_tables)
  then show ?thesis by (simp add: row_columns_def u(2) columns_fold(2) [OF one] column_rows_content)
qed

section \<open>The operations\<close>

lemma abs_commit_own:
  assumes wf: "wf_db d" and body: "commit_body cat dr ident base m d = Inr (res, d')" and mono: "base < dr_txn dr"
    and json: "json_codec (lib_json (cat_libs cat))" and stored: "properties_stored (cat_libs cat) d"
  shows "\<exists>v. abs_catalog (cat_libs cat) d ident = Some v \<and> ver_id (last (vt_versions v)) = base
    \<and> abs_catalog (cat_libs cat) d' ident = Some (spec_commit (cat_libs cat) dr m v)"
proof -
  let ?lib = "cat_libs cat" and ?x = "dr_txn dr"
  from wf body obtain r D su pt where sel: "select_table (ti_namespace ident) (ti_name ident) d = Some r"
    and cur: "t_current_transaction_id r = Some base"
    and d': "d' = update_table_commit ?x su pt (t_table_uuid r) D" and tabs: "db_tables D = db_tables d"
    and txns: "db_transactions D = db_transactions d @ [commit_txn dr (t_table_uuid r) base]"
    and eff: "schema_effect ?lib dr m r d D su"
    by (rule commit_summary)
  let ?tu = "t_table_uuid r" and ?r' = "committed_row ?x su pt r" and ?v = "abs_table ?lib d r"
  have r: "r \<in> set (db_tables d)" using select_table_Some [OF sel] by simp
  have sel': "select_table (ti_namespace ident) (ti_name ident) d' = Some ?r'"
    unfolding d' by (rule select_after_commit [OF sel tabs])
  have r': "?r' \<in> set (db_tables d')" using select_table_Some [OF sel'] by simp
  have line: "txn_line ?tu d \<noteq> []" "last (txn_line ?tu d) = base"
    using txn_line_props [OF wf r] cur by simp_all
  have line': "txn_line ?tu d' = txn_line ?tu d @ [?x]"
    by (simp add: txn_line_def table_txns_def d' update_table_commit_tables txns)
  have head: "last (vt_versions ?v) = \<lparr>ver_id = base, ver_columns = row_columns d r,
      ver_files = filter (file_visible_at ?tu base) (db_files d)\<rparr>"
    using line head_version [OF wf r cur] by (simp add: abs_table_def last_map)
  have "version_at ?tu d' ?x = \<lparr>ver_id = ?x, ver_columns = row_columns d' ?r',
      ver_files = filter (file_visible_at ?tu ?x) (db_files d')\<rparr>"
    using head_version [OF commit_wf [OF wf body mono] r', of ?x] by simp
  also have "row_columns d' ?r' = fold (columns_step ?lib) (mu_operations m) (row_columns d r)"
    unfolding d' by (rule commit_columns [OF wf eff])
  also note commit_live [OF wf body mono sel]
  finally have new: "version_at ?tu d' ?x = \<lparr>ver_id = ?x,
      ver_columns = fold (columns_step ?lib) (mu_operations m) (row_columns d r),
      ver_files = snd (fold (live_step ?lib (dr_v4 dr) ?tu ?x) (mu_operations m)
        (0, filter (file_visible_at ?tu base) (db_files d)))\<rparr>" .
  have old: "map (version_at ?tu d') (txn_line ?tu d) = map (version_at ?tu d) (txn_line ?tu d)"
    using version_at_kept [OF snapshot_kept_commit [OF wf _ body mono]] by simp
  obtain p where p: "parse_table_properties (lib_json ?lib) (t_properties r) = Inr p"
    using stored_row [OF stored json r] by metis
  then have "parse_table_properties (lib_json ?lib) (t_properties ?r') = Inr (fold props_step (mu_operations m) p)"
    using commit_properties [OF body json sel _ sel'] by simp
  then have "abs_table ?lib d' ?r' = spec_commit ?lib dr m ?v"
    using p old new line' by (simp add: spec_commit_def head Let_def) (simp add: abs_table_def)
  then show ?thesis using sel sel' head by (simp add: abs_catalog_def)
qed

lemma abs_create_own:
  assumes wf: "wf_db d" and body: "create_table_body cat dr ident location schema properties d = Inr (h, d')"
    and json: "json_codec (lib_json (cat_libs cat))"
  shows "abs_catalog (cat_libs cat) d ident = None
    \<and> abs_catalog (cat_libs cat) d' ident = Some (spec_create cat dr schema properties)"
proof -
  let ?lib = "cat_libs cat" and ?p = "case properties of Some p \<Rightarrow> p | None \<Rightarrow> properties_new"
  from body obtain pt where sel: "select_table (ti_namespace ident) (ti_name ident) d = None"
    and fresh: "dr_v4 dr 0 \<notin> table_ids d" "dr_v4 dr 1 \<notin> schema_ids d"
    and ser: "serialize_json (lib_json ?lib) (properties_to_json ?p) = Inr pt"
    and tabs: "db_tables d' = db_tables d @ [created_row cat dr ident location pt]"
    and cols: "db_columns d' = db_columns d @ created_columns cat dr schema"
    by (rule create_summary) simp
  let ?r = "created_row cat dr ident location pt"
  have refs: "refs_ok d" using wf by (simp add: wf_db_def)
  have wf': "wf_db d'" by (rule create_wf [OF wf body])
  have sel': "select_table (ti_namespace ident) (ti_name ident) d' = Some ?r"
    using sel unfolding select_table_def tabs by (intro find_last) (auto simp: find_None_iff)
  have line: "txn_line (dr_v4 dr 0) d' = [dr_txn dr]" by (simp add: txn_line_def created_rows [OF wf body])
  have "row_columns d' ?r = spec_columns ?lib schema"
    using select_columns_new [OF refs fresh(2) cols] column_rows_content by (simp add: row_columns_def)
  moreover have "table_files (dr_v4 dr 0) d' = []"
    using fresh_table_rows(3) [OF refs fresh(1)] by (simp add: created_rows [OF wf body])
  then have "filter (file_visible_at (dr_v4 dr 0) (dr_txn dr)) (db_files d') = []"
    by (simp add: table_files_def filter_empty_conv file_visible_at_def)
  ultimately have "version_at (dr_v4 dr 0) d' (dr_txn dr)
      = \<lparr>ver_id = dr_txn dr, ver_columns = spec_columns ?lib schema, ver_files = []\<rparr>"
    using head_version [OF wf', of ?r "dr_txn dr"] tabs by simp
  then have "abs_table ?lib d' ?r = spec_create cat dr schema properties"
    using stored_properties [OF ser json] line by (simp add: abs_table_def spec_create_def)
  then show ?thesis using sel sel' by (simp add: abs_catalog_def)
qed

lemma mapM_in_set:
  assumes "mapM f xs = Inr ys"
  shows "y \<in> set ys \<longleftrightarrow> (\<exists>x \<in> set xs. f x = Inr y)"
  using mapM_projr [OF assms] by (auto simp: image_iff) (metis sum.sel(2))

lemma mapM_erased:
  "mapM (file_struct_of_row lib) rs = Inr fs \<Longrightarrow> mapM (file_struct_of_row lib) (map erase_removal rs) = Inr (map erase_removed fs)"
  by (induction rs arbitrary: fs) (auto simp: result_simps file_struct_of_row_def erase_removed_def)

lemma read_version:
  assumes wf: "wf_db d" and lib: "cat_libs cat = lib" and read: "read_table cat ident (Some t) d = Inr view"
  shows "\<exists>v ver. abs_catalog lib d ident = Some v \<and> ver \<in> set (vt_versions v) \<and> ver_id ver = t
    \<and> tv_properties view = vt_properties v
    \<and> mapM (file_struct_of_row lib) (ver_files ver) = Inr (map erase_removed (tv_files view))
    \<and> (\<forall>n ty b. (n, ty, b) \<in> set (map column_sig (sc_columns (tv_schema view)))
        \<longleftrightarrow> (\<exists>bs. (n, bs, b) \<in> set (ver_columns ver) \<and> decode_data_type (lib_root_as_schema lib) bs = Inr ty))"
proof -
  from read [unfolded read_table_Inr read_head_Inr lib] obtain r h s where
    sel: "select_table (ti_namespace ident) (ti_name ident) d = Some r"
    and p: "parse_table_properties (lib_json lib) (t_properties r) = Inr (tv_properties view)"
    and h: "t_current_transaction_id r = Some h" "check_in_history (t_table_uuid r) h t d = Inr ()"
    and s: "read_schema lib ident (t_table_uuid r) t d = Inr (tv_schema view)"
    and files: "read_files lib (t_table_uuid r) t d = Inr (tv_files view)"
    by auto
  let ?v = "abs_table lib d r" and ?ver = "version_at (t_table_uuid r) d t"
  have r: "r \<in> set (db_tables d)" using select_table_Some [OF sel] by simp
  have "t \<in> set (txn_line (t_table_uuid r) d)" using h(2) check_in_history_line [OF wf r h(1)] by (auto split: if_splits)
  then have "?ver \<in> set (vt_versions ?v)" "abs_catalog lib d ident = Some ?v" "vt_properties ?v = tv_properties view"
    by (simp_all add: abs_table_def abs_catalog_def sel p)
  moreover have "mapM (file_struct_of_row lib) (ver_files ?ver) = Inr (map erase_removed (tv_files view))"
    using mapM_erased files by (simp add: version_at_def read_files_Inr)
  moreover from s obtain q cols where q: "find (schema_valid_at (t_table_uuid r) t) (db_schemas d) = Some q"
    and cols: "schema_columns lib (ColumnCount MAX_COLUMNS_PER_SCHEMA) (s_schema_uuid q) d = Inr cols"
    "tv_schema view = schema_struct_of_row q cols"
    by (auto simp: read_schema_def result_simps)
  from read_columns_current [OF cols(1)] obtain cs where
    cs: "current_schema_columns lib (s_schema_uuid q) d = Inr cs" "set (map column_sig cols) = set cs" by blast
  have "(n, ty, b) \<in> set cs \<longleftrightarrow> (\<exists>bs. (n, bs, b) \<in> set (ver_columns ?ver) \<and> decode_data_type (lib_root_as_schema lib) bs = Inr ty)" for n ty b
    unfolding mapM_in_set [OF cs(1) [unfolded current_schema_columns_def]] version_at_def q
    by (auto simp: result_simps)
  ultimately show ?thesis using cols(2) cs(2)
    by (intro exI [of _ ?v] exI [of _ ?ver]) (simp add: version_at_def schema_struct_of_row_def)
qed

section \<open>Refinement\<close>

text \<open>C1. The catalog refines the abstract machine. On every reachable database, an accepted commit
  was based on the last version of the table and appends exactly the version the machine
  computes from it, with the properties, and a refused one changes nothing; an accepted creation
  adds the table with its first version under a name that was free; dropping changes nothing;
  other tables are never touched; and a successful read returns the content of the version with
  the requested identifier.\<close>

theorem catalog_refines_versions:
  assumes "reachable lib d" and "cat_libs cat = lib" and "json_codec (lib_json lib)" and "base < dr_txn dr"
  shows "(case commit cat dr ident base m d of
       (Inr _, d') \<Rightarrow> \<exists>v. abs_catalog lib d ident = Some v \<and> ver_id (last (vt_versions v)) = base
          \<and> abs_catalog lib d' = (abs_catalog lib d)(ident \<mapsto> spec_commit lib dr m v)
     | (Inl _, d') \<Rightarrow> abs_catalog lib d' = abs_catalog lib d)
   \<and> (case create_table cat dr ident location schema properties d of
       (Inr _, d') \<Rightarrow> abs_catalog lib d ident = None
          \<and> abs_catalog lib d' = (abs_catalog lib d)(ident \<mapsto> spec_create cat dr schema properties)
     | (Inl _, d') \<Rightarrow> abs_catalog lib d' = abs_catalog lib d)
   \<and> abs_catalog lib (snd (drop_table cat ident d)) = abs_catalog lib d
   \<and> (read_table cat ident (Some t) d = Inr view \<longrightarrow>
       (\<exists>v ver. abs_catalog lib d ident = Some v \<and> ver \<in> set (vt_versions v) \<and> ver_id ver = t
          \<and> tv_properties view = vt_properties v
          \<and> mapM (file_struct_of_row lib) (ver_files ver) = Inr (map erase_removed (tv_files view))
          \<and> (\<forall>n ty b. (n, ty, b) \<in> set (map column_sig (sc_columns (tv_schema view)))
              \<longleftrightarrow> (\<exists>bs. (n, bs, b) \<in> set (ver_columns ver) \<and> decode_data_type (lib_root_as_schema lib) bs = Inr ty))))"
proof (intro conjI impI)
  have wf: "wf_db d" and stored: "properties_stored lib d"
    using assms(1) by (rule reachable_wf, rule reachable_properties_stored)
  show "case commit cat dr ident base m d of
       (Inr _, d') \<Rightarrow> \<exists>v. abs_catalog lib d ident = Some v \<and> ver_id (last (vt_versions v)) = base
          \<and> abs_catalog lib d' = (abs_catalog lib d)(ident \<mapsto> spec_commit lib dr m v)
     | (Inl _, d') \<Rightarrow> abs_catalog lib d' = abs_catalog lib d"
    unfolding commit_def using abs_commit_own [OF wf _ assms(4)] stored assms(2,3)
    by (cases "commit_body cat dr ident base m d")
       (fastforce simp: run_tx_def fun_eq_iff abs_unaffected commit_unaffected [OF wf])+
  show "case create_table cat dr ident location schema properties d of
       (Inr _, d') \<Rightarrow> abs_catalog lib d ident = None
          \<and> abs_catalog lib d' = (abs_catalog lib d)(ident \<mapsto> spec_create cat dr schema properties)
     | (Inl _, d') \<Rightarrow> abs_catalog lib d' = abs_catalog lib d"
    unfolding create_table_def using abs_create_own [OF wf] assms(2,3)
    by (cases "create_table_body cat dr ident location schema properties d")
       (fastforce simp: run_tx_def fun_eq_iff abs_unaffected create_unaffected [OF wf])+
  show "abs_catalog lib (snd (drop_table cat ident d)) = abs_catalog lib d"
    using drop_unchanged [OF wf] by (metis prod.collapse)
qed (rule read_version [OF reachable_wf [OF assms(1)] assms(2)])

theorem catalog_refines_versions_witness:
  "\<exists>v. abs_catalog demo_libs demo_db2 demo_ident = Some v \<and> map ver_id (vt_versions v) = [10, 20]
    \<and> abs_catalog demo_libs demo_db3 demo_ident = Some (spec_commit demo_libs (demo_draws 30) demo_rewrite v)
    \<and> map (map f_file_uuid \<circ> ver_files) (vt_versions (spec_commit demo_libs (demo_draws 30) demo_rewrite v)) = [[], [1, 2], [2, 3]]"
proof -
  have "20 < dr_txn (demo_draws 30)" by (simp add: demo_draws_def)
  from catalog_refines_versions [OF demo_reachable(2) demo_libs_cat demo_json this, THEN conjunct1, of demo_ident demo_rewrite]
  obtain v where v: "abs_catalog demo_libs demo_db2 demo_ident = Some v"
    "abs_catalog demo_libs demo_db3 = (abs_catalog demo_libs demo_db2)(demo_ident \<mapsto> spec_commit demo_libs (demo_draws 30) demo_rewrite v)"
    unfolding demo_commit3 prod.case sum.case by blast
  have "map_option (\<lambda>v. (map ver_id (vt_versions v),
      map (map f_file_uuid \<circ> ver_files) (vt_versions (spec_commit demo_libs (demo_draws 30) demo_rewrite v))))
      (abs_catalog demo_libs demo_db2 demo_ident) = Some ([10, 20], [[], [1, 2], [2, 3]])"
    unfolding demo_db2_eq demo_db1_eq by code_simp
  with v show ?thesis by simp
qed

end
