(* ===== verification/EventLog.thy ===== *)
theory EventLog
  imports Stored Deltas
begin

text \<open>
  The event log, exactly: on a reachable database \<open>list_transaction_events\<close> gives, for the
  transactions of the range, the rows added, the rows removed and the schema started by each,
  unless one of its limits is exceeded, which is the only way it can fail.
\<close>

section \<open>What the log should say\<close>

abbreviation added_at :: "uuid \<Rightarrow> db \<Rightarrow> txn_id \<Rightarrow> file_row list" where
  "added_at tu d t \<equiv> filter (\<lambda>r. f_table_uuid r = tu \<and> f_added_in r = t) (db_files d)"

abbreviation removed_at :: "uuid \<Rightarrow> db \<Rightarrow> txn_id \<Rightarrow> file_row list" where
  "removed_at tu d t \<equiv> filter (\<lambda>r. f_table_uuid r = tu \<and> f_removed_in r = Some t) (db_files d)"

abbreviation schemas_at :: "uuid \<Rightarrow> db \<Rightarrow> txn_id \<Rightarrow> schema_row list" where
  "schemas_at tu d t \<equiv> filter (\<lambda>r. s_table_uuid r = tu \<and> s_valid_from r = t) (db_schemas d)"

definition spec_event :: "libs \<Rightarrow> db \<Rightarrow> uuid \<Rightarrow> txn_id \<Rightarrow> txn_event" where
  "spec_event lib d tu t =
     \<lparr>ev_transaction_id = t,
      ev_file_changes =
        map (\<lambda>r. \<lparr>ch_transaction_id = t, ch_kind = Added, ch_file = projr (file_struct_of_row lib r)\<rparr>) (added_at tu d t)
        @ map (\<lambda>r. \<lparr>ch_transaction_id = t, ch_kind = Removed, ch_file = projr (file_struct_of_row lib r)\<rparr>) (removed_at tu d t),
      ev_schema_change = (case schemas_at tu d t of
          [] \<Rightarrow> None
        | s # _ \<Rightarrow> Some \<lparr>sg_transaction_id = t, sg_schema = schema_struct_of_row s
            (projr (mapM (column_struct_of_row lib) (sort_key (\<lambda>c. sint (c_ordinal_position c)) (select_columns (s_schema_uuid s) d))))\<rparr>)\<rparr>"

definition range_total :: "(txn_id \<Rightarrow> 'a list) \<Rightarrow> txn_id list \<Rightarrow> nat" where
  "range_total f txns = sum_list (map (\<lambda>t. length (f t)) txns)"

definition columns_within :: "uuid \<Rightarrow> db \<Rightarrow> txn_id \<Rightarrow> bool" where
  "columns_within tu d t \<longleftrightarrow> list_all (\<lambda>s. length (select_columns (s_schema_uuid s) d) \<le> 1000) (schemas_at tu d t)"

definition within_limits :: "uuid \<Rightarrow> db \<Rightarrow> txn_id list \<Rightarrow> bool" where
  "within_limits tu d txns \<longleftrightarrow> range_total (added_at tu d) txns \<le> 10000 \<and> range_total (removed_at tu d) txns \<le> 10000
     \<and> range_total (schemas_at tu d) txns \<le> 10000 \<and> list_all (columns_within tu d) txns"

lemma range_total_simps [simp]: "range_total f [] = 0" "range_total f (t # ts) = length (f t) + range_total f ts"
  by (simp_all add: range_total_def)

section \<open>The loops\<close>

text \<open>The two loops over file rows count up to the limit and push one change per row.\<close>

lemma limited_fold:
  assumes "\<And>n cs r. r \<in> set rows \<Longrightarrow> f (n, cs) r = (if 10000 < n + 1 then Inl e else Inr (n + 1, cs @ [g r]))"
    and "n \<le> 10000"
  shows "foldM f (n, cs) (limit_rows MAX_FILES_PER_QUERY rows)
     = (if n + length rows \<le> 10000 then Inr (n + length rows, cs @ map g rows) else Inl e)"
proof -
  have gen: "foldM f (n, cs) rows = (if n + length rows \<le> 10000 then Inr (n + length rows, cs @ map g rows) else Inl e)"
    if "\<And>n cs r. r \<in> set rows \<Longrightarrow> f (n, cs) r = (if 10000 < n + 1 then Inl e else Inr (n + 1, cs @ [g r]))"
      "n \<le> 10000" for rows n cs
    using that
  proof (induction rows arbitrary: n cs)
    case (Cons r rows)
    then show ?case by (cases "n + 1 \<le> 10000") simp_all
  qed simp
  have "foldM f (n, cs) (take 10001 rows)
     = (if n + length (take 10001 rows) \<le> 10000 then Inr (n + length (take 10001 rows), cs @ map g (take 10001 rows)) else Inl e)"
    by (rule gen [OF assms(1) assms(2)]) (rule in_set_takeD)
  also have "\<dots> = (if n + length rows \<le> 10000 then Inr (n + length rows, cs @ map g rows) else Inl e)" by auto
  finally show ?thesis by (simp add: limit_rows_def limit_defs)
qed

definition rows_decode :: "libs \<Rightarrow> db \<Rightarrow> bool" where
  "rows_decode lib d \<longleftrightarrow> list_all (\<lambda>r. \<not> isl (file_struct_of_row lib r)) (db_files d)
     \<and> list_all (\<lambda>c. \<not> isl (column_struct_of_row lib c)) (db_columns d)"

lemma added_fold:
  assumes "rows_decode lib d" and "n \<le> 10000"
  shows "foldM (added_change lib) (n, cs) (limit_rows MAX_FILES_PER_QUERY (added_at tu d t))
     = (if n + length (added_at tu d t) \<le> 10000
        then Inr (n + length (added_at tu d t), cs @ map (\<lambda>r. \<lparr>ch_transaction_id = t, ch_kind = Added,
               ch_file = projr (file_struct_of_row lib r)\<rparr>) (added_at tu d t))
        else Inl (LimitExceeded (AddedFileEvents MAX_FILES_PER_QUERY)))"
proof (rule limited_fold [OF _ assms(2)])
  fix n cs r
  assume "r \<in> set (added_at tu d t)"
  with assms(1) obtain f where "file_struct_of_row lib r = Inr f" "f_added_in r = t"
    by (auto simp: rows_decode_def list_all_iff isl_def) (metis sum.exhaust)
  then show "added_change lib (n, cs) r = (if 10000 < n + 1 then Inl (LimitExceeded (AddedFileEvents MAX_FILES_PER_QUERY))
      else Inr (n + 1, cs @ [\<lparr>ch_transaction_id = t, ch_kind = Added, ch_file = projr (file_struct_of_row lib r)\<rparr>]))"
    by (simp add: added_change_def Let_def)
qed

lemma removed_fold:
  assumes "rows_decode lib d" and "n \<le> 10000"
  shows "foldM (removed_change lib) (n, cs) (limit_rows MAX_FILES_PER_QUERY (removed_at tu d t))
     = (if n + length (removed_at tu d t) \<le> 10000
        then Inr (n + length (removed_at tu d t), cs @ map (\<lambda>r. \<lparr>ch_transaction_id = t, ch_kind = Removed,
               ch_file = projr (file_struct_of_row lib r)\<rparr>) (removed_at tu d t))
        else Inl (LimitExceeded (RemovedFileEvents MAX_FILES_PER_QUERY)))"
proof (rule limited_fold [OF _ assms(2)])
  fix n cs r
  assume "r \<in> set (removed_at tu d t)"
  with assms(1) obtain f where f: "file_struct_of_row lib r = Inr f" "f_removed_in r = Some t"
    by (auto simp: rows_decode_def list_all_iff isl_def) (metis sum.exhaust)
  then have "f\<lparr>fi_removed_in_transaction_id := Some t\<rparr> = f" by (auto simp: file_struct_of_row_def result_simps)
  with f show "removed_change lib (n, cs) r = (if 10000 < n + 1 then Inl (LimitExceeded (RemovedFileEvents MAX_FILES_PER_QUERY))
      else Inr (n + 1, cs @ [\<lparr>ch_transaction_id = t, ch_kind = Removed, ch_file = projr (file_struct_of_row lib r)\<rparr>]))"
    by (simp add: removed_change_def Let_def)
qed

lemma schema_event_eq:
  assumes "rows_decode lib d" and "length (schemas_at tu d t) \<le> 1" and "n \<le> 10000"
  shows "if n + length (schemas_at tu d t) \<le> 10000 \<and> columns_within tu d t
     then schema_event lib d tu n t = Inr (n + length (schemas_at tu d t), ev_schema_change (spec_event lib d tu t))
     else \<exists>m. schema_event lib d tu n t = Inl (LimitExceeded m)"
proof (cases "schemas_at tu d t")
  case (Cons s ss)
  then have one: "schemas_at tu d t = [s]" using assms(2) by simp
  then have from_t: "s_valid_from s = t" by (auto simp: filter_eq_Cons_iff)
  let ?cols = "sort_key (\<lambda>r. sint (c_ordinal_position r)) (select_columns (s_schema_uuid s) d)"
  have "\<exists>cols. mapM (column_struct_of_row lib) ?cols = Inr cols"
    using assms(1) by (intro mapM_ex) (auto simp: rows_decode_def select_columns_def list_all_iff isl_def, metis sum.exhaust)
  then show ?thesis
    using one from_t by (auto simp: schema_event_def schema_columns_code spec_event_def columns_within_def Let_def
        simp flip: unat_less_int)
qed (use assms(3) in \<open>simp add: schema_event_def spec_event_def columns_within_def\<close>)

definition one_schema :: "uuid \<Rightarrow> db \<Rightarrow> bool" where
  "one_schema tu d \<longleftrightarrow> (\<forall>t. length (schemas_at tu d t) \<le> 1)"

lemma transaction_event_eq:
  assumes "rows_decode lib d" and "one_schema tu d" and "n_added n \<le> 10000" "n_removed n \<le> 10000" "n_schema n \<le> 10000"
  shows "if n_added n + length (added_at tu d t) \<le> 10000 \<and> n_removed n + length (removed_at tu d t) \<le> 10000
       \<and> n_schema n + length (schemas_at tu d t) \<le> 10000 \<and> columns_within tu d t
     then transaction_event lib d tu (n, events) t = Inr (\<lparr>n_added = n_added n + length (added_at tu d t),
         n_removed = n_removed n + length (removed_at tu d t), n_schema = n_schema n + length (schemas_at tu d t)\<rparr>,
         events @ [spec_event lib d tu t])
     else \<exists>m. transaction_event lib d tu (n, events) t = Inl (LimitExceeded m)"
proof -
  have "length (schemas_at tu d t) \<le> 1" using assms(2) by (simp add: one_schema_def)
  from schema_event_eq [OF assms(1) this assms(5)] show ?thesis
    unfolding transaction_event_def prod.case Let_def added_fold [OF assms(1,3)] removed_fold [OF assms(1,4)]
    by (auto simp: removed_fold [OF assms(1,4)] spec_event_def split: if_splits)
qed

lemma events_fold:
  assumes "rows_decode lib d" and "one_schema tu d"
  shows "n_added n \<le> 10000 \<Longrightarrow> n_removed n \<le> 10000 \<Longrightarrow> n_schema n \<le> 10000 \<Longrightarrow>
     if n_added n + range_total (added_at tu d) txns \<le> 10000 \<and> n_removed n + range_total (removed_at tu d) txns \<le> 10000
       \<and> n_schema n + range_total (schemas_at tu d) txns \<le> 10000 \<and> list_all (columns_within tu d) txns
     then \<exists>n'. foldM (transaction_event lib d tu) (n, events) txns = Inr (n', events @ map (spec_event lib d tu) txns)
     else \<exists>m. foldM (transaction_event lib d tu) (n, events) txns = Inl (LimitExceeded m)"
proof (induction txns arbitrary: n events)
  case (Cons t txns)
  note step = transaction_event_eq [OF assms Cons.prems, of t events]
  show ?case
  proof (cases "n_added n + length (added_at tu d t) \<le> 10000 \<and> n_removed n + length (removed_at tu d t) \<le> 10000
       \<and> n_schema n + length (schemas_at tu d t) \<le> 10000 \<and> columns_within tu d t")
    case True
    let ?n = "\<lparr>n_added = n_added n + length (added_at tu d t), n_removed = n_removed n + length (removed_at tu d t),
      n_schema = n_schema n + length (schemas_at tu d t)\<rparr>"
    have "transaction_event lib d tu (n, events) t = Inr (?n, events @ [spec_event lib d tu t])" using step True by simp
    then show ?thesis using Cons.IH [of ?n "events @ [spec_event lib d tu t]"] True by (auto simp: add.assoc split: if_splits)
  next
    case False
    with step obtain m where "transaction_event lib d tu (n, events) t = Inl (LimitExceeded m)"
      by (auto split: if_splits)
    moreover have "\<not> (n_added n + range_total (added_at tu d) (t # txns) \<le> 10000 \<and> n_removed n + range_total (removed_at tu d) (t # txns) \<le> 10000
       \<and> n_schema n + range_total (schemas_at tu d) (t # txns) \<le> 10000 \<and> list_all (columns_within tu d) (t # txns))"
      using False by auto
    ultimately show ?thesis by (subst if_not_P) simp_all
  qed
qed simp

lemma events_of_eq:
  assumes "rows_decode lib d" and "one_schema tu d"
  shows "if within_limits tu d txns then events_of lib d tu txns = Inr (map (spec_event lib d tu) txns)
     else \<exists>m. events_of lib d tu txns = Inl (LimitExceeded m)"
  using events_fold [OF assms, of "\<lparr>n_added = 0, n_removed = 0, n_schema = 0\<rparr>" txns "[]"]
  by (auto simp: events_of_def within_limits_def split: if_splits)

section \<open>Reachable databases\<close>

lemma wf_one_schema:
  assumes "wf_db d" and "r \<in> set (db_tables d)"
  shows "one_schema (t_table_uuid r) d"
  unfolding one_schema_def
proof
  fix t
  let ?ss = "table_schemas (t_table_uuid r) d"
  have "sorted_wrt (<) (map s_valid_from ?ss)" using wf_dest(2) [OF assms] by (simp add: schemas_ok_def)
  then have "distinct (map s_valid_from ?ss)" by (simp add: strict_sorted_iff)
  then have "distinct (map s_valid_from (filter (\<lambda>s. s_valid_from s = t) ?ss))" by (rule distinct_map_filter)
  then have "length (filter (\<lambda>s. s_valid_from s = t) ?ss) = card (s_valid_from ` set (filter (\<lambda>s. s_valid_from s = t) ?ss))"
    using distinct_card by fastforce
  also have "\<dots> \<le> card {t}" by (intro card_mono) auto
  finally have "length (filter (\<lambda>s. s_valid_from s = t) ?ss) \<le> 1" by simp
  then show "length (schemas_at (t_table_uuid r) d t) \<le> 1" by (simp add: table_schemas_def conj_commute)
qed

lemma reachable_rows_decode:
  assumes "reachable lib d" and "json_codec (lib_json lib)" and "\<forall>c \<in> set (db_columns d). codec_at lib (c_column_type c)"
  shows "rows_decode lib d"
  using reachable_rows_stored [OF assms(1)] assms(2,3) file_stored_decodes column_stored_decodes
  by (fastforce simp: rows_decode_def rows_stored_def list_all_iff)

text \<open>C15. The event log is complete. On every reachable database, for a range that exists, listing
  the events gives exactly one event per transaction of the range, oldest first, each with
  every file row the transaction added, every row it removed and the schema it started,
  decoded as they are stored; it fails only with a limit error, and exactly when the range
  adds or removes more than 10000 files, starts more than 10000 schemas or starts one of more
  than 1000 columns.\<close>

theorem event_log_complete:
  assumes "reachable lib d" and "json_codec (lib_json lib)" and "cat_libs cat = lib"
    and "\<forall>c \<in> set (db_columns d). codec_at lib (c_column_type c)"
    and "event_range cat ident cursor d = Inr (tu, txns)"
  shows "if within_limits tu d txns
     then list_transaction_events cat ident cursor d = Inr (map (spec_event lib d tu) txns)
     else \<exists>m. list_transaction_events cat ident cursor d = Inl (LimitExceeded m)"
proof -
  obtain r where "select_table (ti_namespace ident) (ti_name ident) d = Some r" "tu = t_table_uuid r"
    using assms(5) by (auto simp: event_range_def result_simps split: if_splits prod.splits)
  then have "one_schema tu d" using wf_one_schema [OF reachable_wf [OF assms(1)]] select_table_Some by metis
  from events_of_eq [OF reachable_rows_decode [OF assms(1,2,4)] this, of txns] assms(3,5)
  show ?thesis by (simp add: list_transaction_events_def)
qed

theorem event_log_complete_witness:
  "\<exists>evs. list_transaction_events demo_cat demo_ident \<lparr>rc_from_exclusive = Some 10, rc_to_inclusive = 30\<rparr> demo_db3 = Inr evs
     \<and> map ev_transaction_id evs = [20, 30] \<and> map (length \<circ> ev_file_changes) evs = [2, 2]"
proof -
  have range: "event_range demo_cat demo_ident \<lparr>rc_from_exclusive = Some 10, rc_to_inclusive = 30\<rparr> demo_db3 = Inr (1000, [20, 30])"
    unfolding demo_db3_eq demo_db1_eq by code_simp
  have within: "within_limits 1000 demo_db3 [20, 30]"
    unfolding demo_db3_eq demo_db1_eq by code_simp
  have "map ev_transaction_id (map (spec_event demo_libs demo_db3 1000) [20, 30]) = [20, 30]"
    "map (length \<circ> ev_file_changes) (map (spec_event demo_libs demo_db3 1000) [20, 30]) = [2, 2]"
    unfolding demo_db3_eq demo_db1_eq by code_simp+
  with event_log_complete [OF demo_reachable(3) demo_json demo_libs_cat demo_codec_at range] within show ?thesis by simp
qed

end
