(* ===== verification/WriteFormats.thy ===== *)
theory WriteFormats
  imports Streams Program
begin

text \<open>
  The program of \<open>examples/write_formats.rs\<close>: it clears a directory, writes one small batch with
  the Lance, Parquet and Vortex writers and twice over with the Parquet stream writer, and
  streams the Parquet file back. The calls of the standard library on directories and the
  constructor of a record batch are parameters beside those of \<open>Storage\<close>. The last section
  shows that a Parquet file written by a stream reads back as the rows of the stream, and that
  the program ends, prints what it read and leaves both files readable.
\<close>

section \<open>The program\<close>

text \<open>The array constructors the program uses; a 64-bit float is given by its bits.\<close>

datatype arrow_array = Int64Array "i64 list" | StringArray "string list" | Float64Array "64 word list"

record ('b, 's) example_lib =
  fs_remove_dir_all :: "path \<Rightarrow> 's \<Rightarrow> (string + unit) \<times> 's"
  fs_create_dir_all :: "path \<Rightarrow> 's \<Rightarrow> (string + unit) \<times> 's"
  rb_try_new :: "arrow_schema \<Rightarrow> arrow_array list \<Rightarrow> string + 'b"

datatype boxed_error = BoxedIo string | BoxedArrow string | BoxedStorage storage_error

definition path_new :: "string \<Rightarrow> path" where
  "path_new = map of_char"

text \<open>\<open>Path::join\<close> of a relative name to a directory without a trailing separator.\<close>

definition path_join :: "path \<Rightarrow> string \<Rightarrow> path" where
  "path_join dir name = dir @ path_new (CHR ''/'' # name)"

definition out_dir :: path where
  "out_dir = path_new ''examples/output''"

definition table_schema :: arrow_schema where
  "table_schema = [Field ''id'' Int64 False, Field ''name'' Utf8 False, Field ''value'' Float64 False]"

definition table_arrays :: "arrow_array list" where
  "table_arrays = [Int64Array [1, 2, 3], StringArray [''a'', ''b'', ''c''],
     Float64Array [0x4024000000000000, 0x4034000000000000, 0x403E000000000000]]"

definition lance_path :: path where "lance_path = path_join out_dir ''data.lance''"
definition parquet_path :: path where "parquet_path = path_join out_dir ''data.parquet''"
definition parquet_stream_path :: path where "parquet_stream_path = path_join out_dir ''data_stream.parquet''"
definition vortex_path :: path where "vortex_path = path_join out_dir ''data.vortex''"

definition parquet_options :: writer_properties where
  "parquet_options = writer_properties_default\<lparr>wp_compression := Some SNAPPY\<rparr>"

definition prepare_step :: "('b, 's) example_lib \<Rightarrow> ('s, boxed_error, 'b) prog" where
  "prepare_step ex =
     andthen (\<lambda>(s, out). (Inr (), (snd (fs_remove_dir_all ex out_dir s), out))) (\<lambda>_.
     andthen (update BoxedIo (fs_create_dir_all ex out_dir)) (\<lambda>_.
       query BoxedArrow (\<lambda>_. rb_try_new ex table_schema table_arrays)))"

definition write_step :: "('s \<Rightarrow> (storage_error + unit) \<times> 's) \<Rightarrow> path \<Rightarrow> ('s, boxed_error, unit) prog" where
  "write_step write path =
     andthen (update BoxedStorage write) (\<lambda>_. println ''Wrote {}'' [APath path])"

definition read_step ::
  "('b, 'o, 'k, 'w, 'ds, 'sc, 'a, 'dt, 's) storage_lib \<Rightarrow> ('s, boxed_error, unit) prog" where
  "read_step lib =
     andthen (query BoxedStorage (parquet_read_stream lib parquet_path (parquet_read_options_default lib))) (\<lambda>read_stream.
     andthen (query BoxedStorage (\<lambda>_. mapM (\<lambda>item. item) read_stream)) (\<lambda>batches.
     andthen (println ''Read {} batches from {}'' [ANat (length batches), APath parquet_path]) (\<lambda>_.
       println ''Done.'' [])))"

definition write_formats_main ::
  "('b, 'o, 'k, 'w, 'ds, 'sc, 'a, 'dt, 's) storage_lib \<Rightarrow> ('b, 's) example_lib \<Rightarrow> ('s, boxed_error, unit) prog" where
  "write_formats_main lib ex =
     andthen (prepare_step ex) (\<lambda>batch.
     andthen (write_step (lance_write_with_options lib batch lance_path write_params_default) lance_path) (\<lambda>_.
     andthen (write_step (parquet_write_with_options lib batch parquet_path parquet_options) parquet_path) (\<lambda>_.
     andthen (write_step (parquet_write_stream lib [Inr batch, Inr batch] parquet_stream_path parquet_options)
                parquet_stream_path) (\<lambda>_.
     andthen (write_step (vortex_write_with_options lib batch vortex_path vortex_write_options_default) vortex_path) (\<lambda>_.
       read_step lib)))))"

section \<open>Contracts of the libraries\<close>

text \<open>A created or written file holds what was written, and the other files are left alone.\<close>

definition file_laws :: "('b, 'o, 'k, 'w, 'ds, 'sc, 'a, 'dt, 's) storage_lib \<Rightarrow> bool" where
  "file_laws lib \<longleftrightarrow>
     (\<forall>p q s s1. fl_create lib p s = Inr s1 \<longrightarrow> q \<noteq> p \<longrightarrow> fl_open lib q s1 = fl_open lib q s)
   \<and> (\<forall>p c s. fl_open lib p (fl_write lib p c s) = Inr c)
   \<and> (\<forall>p q c s. q \<noteq> p \<longrightarrow> fl_open lib q (fl_write lib p c s) = fl_open lib q s)"

text \<open>The content a Parquet writer has flushed once it is closed reads back, with the default
  options, as batches with the rows that were written; how the rows are cut into batches is
  the library's choice.\<close>

definition parquet_codec ::
  "('b, 'o, 'k, 'w, 'ds, 'sc, 'a, 'dt, 's) storage_lib \<Rightarrow> ('b \<Rightarrow> 'r list) \<Rightarrow> bool" where
  "parquet_codec lib rows \<longleftrightarrow>
     (\<forall>schema options w0 bs w. pq_try_new lib schema options = Inr w0 \<longrightarrow> (\<forall>b \<in> set bs. ar_schema lib b = schema) \<longrightarrow>
        pq_close lib (written lib (map Inr bs) w0) = (Inr (), w) \<longrightarrow>
        (\<exists>k out. pq_new_with_options lib (pq_flushed lib w) (pq_default_options lib) = Inr k
           \<and> pq_build lib k = Inr (map Inr out) \<and> concat (map rows out) = concat (map rows bs)))"

text \<open>Nothing fails: directories and files can be created and the format libraries accept what
  they are given.\<close>

definition libraries_accept ::
  "('b, 'o, 'k, 'w, 'ds, 'sc, 'a, 'dt, 's) storage_lib \<Rightarrow> ('b, 's) example_lib \<Rightarrow> bool" where
  "libraries_accept lib ex \<longleftrightarrow>
     (\<forall>p s. fst (fs_create_dir_all ex p s) = Inr ()) \<and> \<not> isl (rb_try_new ex table_schema table_arrays)
   \<and> (\<forall>p s. \<not> isl (fl_create lib p s)) \<and> (\<forall>schema options. \<not> isl (pq_try_new lib schema options))
   \<and> (\<forall>b w. fst (pq_write lib b w) = Inr ()) \<and> (\<forall>w. fst (pq_close lib w) = Inr ())
   \<and> (\<forall>schema items uri options s. list_all (\<lambda>i. \<not> isl i) items \<longrightarrow> fst (ld_write lib schema items uri options s) = Inr ())
   \<and> (\<forall>options dtype items. list_all (\<lambda>i. \<not> isl i) items \<longrightarrow> fst (vx_write lib options dtype items) = Inr ())"

section \<open>Parquet files read back\<close>

lemma write_items_done:
  assumes "parquet_write_items lib schema items w = (Inr (), w')"
  obtains bs where "items = map Inr bs" "\<forall>b \<in> set bs. ar_schema lib b = schema"
    "pq_close lib (written lib (map Inr bs) w) = (Inr (), w')"
  using assms
proof (induction lib schema items w arbitrary: thesis rule: parquet_write_items.induct)
  case (1 lib schema w)
  then show ?case by (intro "1.prems"(1) [of "[]"]) (auto simp: parquet_close_def result_simps split: prod.splits)
next
  case (3 lib schema b rest w)
  from "3.prems"(2) obtain w1 where w1: "ar_schema lib b = schema" "pq_write lib b w = (Inr (), w1)"
    "parquet_write_items lib schema rest w1 = (Inr (), w')"
    by (auto split: if_splits prod.splits sum.splits)
  from w1 "3.IH" [OF _ w1(2) [symmetric] _ _ w1(3)] obtain bs where "rest = map Inr bs" "\<forall>b \<in> set bs. ar_schema lib b = schema"
    "pq_close lib (written lib (map Inr bs) w1) = (Inr (), w')" by auto
  then show ?case using w1 by (intro "3.prems"(1) [of "b # bs"]) simp_all
qed simp

lemma write_batch_is_stream:
  "parquet_write_with_options lib batch path options s = parquet_write_stream lib [Inr batch] path options s"
  by (auto simp: parquet_write_with_options_def parquet_write_stream_def parquet_with_writer_def split: sum.split prod.split)

lemma parquet_stream_reads_back:
  assumes "file_laws lib" and "parquet_codec lib rows"
    and "parquet_write_stream lib items path options s = (Inr (), s')"
  shows "\<exists>bs out. items = map Inr bs \<and> concat (map rows out) = concat (map rows bs)
    \<and> parquet_read_stream lib path (parquet_read_options_default lib) s' = Inr (map Inr out)"
proof -
  from assms(3) obtain s1 first rest w0 w1 w where items: "items = Inr first # rest"
    and w0: "pq_try_new lib (ar_schema lib first) options = Inr w0" "pq_write lib first w0 = (Inr (), w1)"
    and rest: "parquet_write_items lib (ar_schema lib first) rest w1 = (Inr (), w)"
    and s': "s' = fl_write lib path (pq_flushed lib w) s1"
    by (auto simp: parquet_write_stream_def parquet_with_writer_def split: sum.splits list.splits prod.splits)
  from write_items_done [OF rest] obtain bs where bs: "rest = map Inr bs" "\<forall>b \<in> set bs. ar_schema lib b = ar_schema lib first"
    "pq_close lib (written lib (map Inr bs) w1) = (Inr (), w)" .
  from assms(2) [unfolded parquet_codec_def, rule_format, OF w0(1), of "first # bs" w] bs w0(2)
  obtain k out where "pq_new_with_options lib (pq_flushed lib w) (pq_default_options lib) = Inr k"
    "pq_build lib k = Inr (map Inr out)" "concat (map rows out) = concat (map rows (first # bs))" by auto
  moreover have "fl_open lib path s' = Inr (pq_flushed lib w)" using assms(1) s' by (simp add: file_laws_def)
  ultimately show ?thesis using items bs(1)
    by (intro exI [of _ "first # bs"] exI [of _ out])
       (simp add: parquet_read_stream_def parquet_open_def parquet_read_options_default_def parquet_apply_read_options_def)
qed

section \<open>The program from end to end\<close>

lemma andthen_Inr:
  "andthen m f s = (Inr y, t) \<longleftrightarrow> (\<exists>x u. m s = (Inr x, u) \<and> f x u = (Inr y, t))"
  by (auto simp: andthen_def split: prod.splits sum.splits)

lemma write_step_Inr:
  "write_step write p (s, out) = (Inr (), t) \<longleftrightarrow> (\<exists>s'. write s = (Inr (), s') \<and> t = (s', out @ [Line ''Wrote {}'' [APath p]]))"
  by (auto simp: write_step_def andthen_Inr update_def println_def result_simps split: prod.splits)

lemma write_keeps_others:
  assumes "file_laws lib" and "q \<noteq> p"
  shows "parquet_write_stream lib items p options s = (r, s') \<Longrightarrow> fl_open lib q s' = fl_open lib q s"
    "vortex_write_with_options lib b p vo s = (r, s') \<Longrightarrow> fl_open lib q s' = fl_open lib q s"
  using assms
  by (auto simp: parquet_write_stream_def parquet_with_writer_def vortex_write_with_options_def vortex_put_def Let_def file_laws_def
      split: sum.splits list.splits prod.splits)

lemma read_stream_cong:
  "fl_open lib p s' = fl_open lib p s \<Longrightarrow> parquet_read_stream lib p options s' = parquet_read_stream lib p options s"
  by (simp add: parquet_read_stream_def parquet_open_def)

lemma paths_distinct: "distinct [lance_path, parquet_path, parquet_stream_path, vortex_path]"
  by code_simp

lemma lance_path_utf8: "path_to_utf8 lance_path = Inr lance_path"
  by code_simp

lemma prepare_Inr:
  "prepare_step ex (s, out) = (Inr batch, t) \<Longrightarrow> rb_try_new ex table_schema table_arrays = Inr batch \<and> snd t = out"
  by (auto simp: prepare_step_def andthen_Inr update_def query_def result_simps split: prod.splits)

lemma read_step_Inr:
  "read_step lib (s, out) = (Inr (), (s', out')) \<longleftrightarrow>
     (\<exists>bs. parquet_read_stream lib parquet_path (parquet_read_options_default lib) s = Inr (map Inr bs) \<and> s' = s
        \<and> out' = out @ [Line ''Read {} batches from {}'' [ANat (length bs), APath parquet_path], Line ''Done.'' []])"
  by (auto simp: read_step_def andthen_Inr query_def println_def result_simps mapM_id_Inr)

definition example_output :: "nat \<Rightarrow> line list" where
  "example_output n =
     map (\<lambda>p. Line ''Wrote {}'' [APath p]) [lance_path, parquet_path, parquet_stream_path, vortex_path]
       @ [Line ''Read {} batches from {}'' [ANat n, APath parquet_path], Line ''Done.'' []]"

lemma written_files_read_back:
  assumes laws: "file_laws lib" "parquet_codec lib rows"
    and p: "parquet_write_with_options lib b parquet_path options s1 = (Inr (), s2)"
    and ps: "parquet_write_stream lib [Inr b, Inr b] parquet_stream_path options s2 = (Inr (), s3)"
    and vx: "vortex_write_with_options lib b vortex_path vo s3 = (r, s4)"
  shows "\<exists>bs. parquet_read_stream lib parquet_path (parquet_read_options_default lib) s4 = Inr (map Inr bs)
      \<and> concat (map rows bs) = rows b"
    "\<exists>bs. parquet_read_stream lib parquet_stream_path (parquet_read_options_default lib) s4 = Inr (map Inr bs)
      \<and> concat (map rows bs) = rows b @ rows b"
proof -
  have ne: "parquet_path \<noteq> parquet_stream_path" "parquet_path \<noteq> vortex_path" "parquet_stream_path \<noteq> vortex_path"
    using paths_distinct by auto
  have "fl_open lib parquet_path s4 = fl_open lib parquet_path s2"
    using write_keeps_others(1) [OF laws(1) ne(1) ps] write_keeps_others(2) [OF laws(1) ne(2) vx] by simp
  from parquet_stream_reads_back [OF laws p [unfolded write_batch_is_stream]] read_stream_cong [OF this]
  show "\<exists>bs. parquet_read_stream lib parquet_path (parquet_read_options_default lib) s4 = Inr (map Inr bs)
      \<and> concat (map rows bs) = rows b" by (auto simp: map_eq_Cons_conv)
  from parquet_stream_reads_back [OF laws ps] read_stream_cong [OF write_keeps_others(2) [OF laws(1) ne(3) vx]]
  show "\<exists>bs. parquet_read_stream lib parquet_stream_path (parquet_read_options_default lib) s4 = Inr (map Inr bs)
      \<and> concat (map rows bs) = rows b @ rows b" by (auto simp: Cons_eq_map_conv)
qed

lemma accepted_writes:
  assumes "libraries_accept lib ex"
  shows "\<exists>s'. lance_write_with_options lib b lance_path lo s = (Inr (), s')"
    "\<exists>s'. parquet_write_stream lib [Inr b, Inr b] p options s = (Inr (), s')"
    "\<exists>s'. parquet_write_with_options lib b p options s = (Inr (), s')"
    "\<exists>s'. vortex_write_with_options lib b p vo s = (Inr (), s')"
    "\<exists>batch s'. prepare_step ex (s, out) = (Inr batch, (s', out))"
proof -
  have ok: "fst (ld_write lib (ar_schema lib b) [Inr b] lance_path lo s) = Inr ()" "\<not> isl (fl_create lib p s)"
    "\<not> isl (pq_try_new lib (ar_schema lib b) options)" "\<And>w. fst (pq_write lib b w) = Inr ()"
    "\<And>w. fst (pq_close lib w) = Inr ()"
    "fst (vx_write lib vo (vx_dtype lib (vx_from_arrow lib b)) [Inr (vx_from_arrow lib b)]) = Inr ()"
    "\<not> isl (rb_try_new ex table_schema table_arrays)" "\<And>s. fst (fs_create_dir_all ex out_dir s) = Inr ()"
    using assms unfolding libraries_accept_def by auto
  show "\<exists>s'. lance_write_with_options lib b lance_path lo s = (Inr (), s')"
    using ok(1) by (auto simp: lance_write_with_options_def lance_path_utf8 split: prod.splits)
  have "\<forall>w. \<exists>w'. pq_write lib b w = (Inr (), w')" "\<forall>w. \<exists>w'. parquet_close lib w = (Inr (), w')"
    using ok(4,5) by (auto simp: parquet_close_def split: prod.splits) (metis prod.collapse, metis fst_conv map_err_simps(2))
  then obtain wr cl where "\<And>w. pq_write lib b w = (Inr (), wr w)" "\<And>w. parquet_close lib w = (Inr (), cl w)" by metis
  with ok(2,3) show "\<exists>s'. parquet_write_stream lib [Inr b, Inr b] p options s = (Inr (), s')"
    and "\<exists>s'. parquet_write_with_options lib b p options s = (Inr (), s')"
    by (auto simp: parquet_write_stream_def write_batch_is_stream parquet_with_writer_def isl_def split: sum.splits)
  show "\<exists>s'. vortex_write_with_options lib b p vo s = (Inr (), s')"
    using ok(2,6) by (auto simp: vortex_write_with_options_def vortex_put_def Let_def split: sum.splits prod.splits)
  show "\<exists>batch s'. prepare_step ex (s, out) = (Inr batch, (s', out))"
    using ok(7) ok(8) [of "snd (fs_remove_dir_all ex out_dir s)"]
    by (cases "rb_try_new ex table_schema table_arrays")
       (auto simp: prepare_step_def andthen_def update_def query_def split: prod.splits)
qed

text \<open>C28. Files that are written read back. With a file system that keeps files apart and a
  Parquet library that reads what it wrote, every run of the program that ends without an
  error leaves the plain file with the rows of the batch and the stream file with its rows
  twice, and has printed the four paths and the number of batches that the file reads back as;
  when no call of the libraries is refused, the program does end without an error.\<close>

theorem write_formats_reads_back:
  assumes "file_laws lib" and "parquet_codec lib rows"
  shows "(write_formats_main lib ex (s, []) = (Inr (), (s', out)) \<longrightarrow>
      (\<exists>batch bs bs'. rb_try_new ex table_schema table_arrays = Inr batch \<and> out = example_output (length bs)
        \<and> parquet_read_stream lib parquet_path (parquet_read_options_default lib) s' = Inr (map Inr bs)
        \<and> concat (map rows bs) = rows batch
        \<and> parquet_read_stream lib parquet_stream_path (parquet_read_options_default lib) s' = Inr (map Inr bs')
        \<and> concat (map rows bs') = rows batch @ rows batch))
    \<and> (libraries_accept lib ex \<longrightarrow> fst (write_formats_main lib ex (s, [])) = Inr ())"
proof (intro conjI impI)
  assume "write_formats_main lib ex (s, []) = (Inr (), (s', out))"
  then obtain batch s0 s1 s2 s3 where "prepare_step ex (s, []) = (Inr batch, (s0, []))"
    and w: "parquet_write_with_options lib batch parquet_path parquet_options s1 = (Inr (), s2)"
      "parquet_write_stream lib [Inr batch, Inr batch] parquet_stream_path parquet_options s2 = (Inr (), s3)"
      "vortex_write_with_options lib batch vortex_path vortex_write_options_default s3 = (Inr (), s')"
    and read: "\<exists>bs. parquet_read_stream lib parquet_path (parquet_read_options_default lib) s' = Inr (map Inr bs)
      \<and> out = example_output (length bs)"
    by (fastforce simp: write_formats_main_def andthen_Inr write_step_Inr read_step_Inr example_output_def dest: prepare_Inr)
  with written_files_read_back [OF assms w] show "\<exists>batch bs bs'. rb_try_new ex table_schema table_arrays = Inr batch
        \<and> out = example_output (length bs)
        \<and> parquet_read_stream lib parquet_path (parquet_read_options_default lib) s' = Inr (map Inr bs)
        \<and> concat (map rows bs) = rows batch
        \<and> parquet_read_stream lib parquet_stream_path (parquet_read_options_default lib) s' = Inr (map Inr bs')
        \<and> concat (map rows bs') = rows batch @ rows batch"
    by (auto dest!: prepare_Inr)
next
  assume ok: "libraries_accept lib ex"
  obtain batch s0 where p: "prepare_step ex (s, []) = (Inr batch, (s0, []))" using accepted_writes(5) [OF ok] by blast
  obtain s1 where l: "lance_write_with_options lib batch lance_path write_params_default s0 = (Inr (), s1)"
    using accepted_writes(1) [OF ok] by blast
  obtain s2 where w1: "parquet_write_with_options lib batch parquet_path parquet_options s1 = (Inr (), s2)"
    using accepted_writes(3) [OF ok] by blast
  obtain s3 where w2: "parquet_write_stream lib [Inr batch, Inr batch] parquet_stream_path parquet_options s2 = (Inr (), s3)"
    using accepted_writes(2) [OF ok] by blast
  obtain s4 where w3: "vortex_write_with_options lib batch vortex_path vortex_write_options_default s3 = (Inr (), s4)"
    using accepted_writes(4) [OF ok] by blast
  from written_files_read_back(1) [OF assms w1 w2 w3] obtain bs where
    "parquet_read_stream lib parquet_path (parquet_read_options_default lib) s4 = Inr (map Inr bs)" by blast
  then have "\<exists>t. write_formats_main lib ex (s, []) = (Inr (), t)"
    using p l w1 w2 w3 by (auto simp: write_formats_main_def andthen_Inr write_step_Inr read_step_Inr)
  then show "fst (write_formats_main lib ex (s, [])) = Inr ()" by auto
qed

definition tiny_example :: "(tiny_batch, tiny_store) example_lib" where
  "tiny_example =
     \<lparr>fs_remove_dir_all = (\<lambda>_ _. (Inr (), [])), fs_create_dir_all = (\<lambda>_ s. (Inr (), s)),
      rb_try_new = (\<lambda>schema arrays. Inr (schema, case arrays of Int64Array vs # _ \<Rightarrow> map (\<lambda>v. ucast v) vs | _ \<Rightarrow> []))\<rparr>"

lemma tiny_written: "written tiny_storage (map Inr bs) w = w @ concat (map snd bs)"
  by (induction bs arbitrary: w) (simp_all, simp add: tiny_storage_def)

lemma tiny_laws: "file_laws tiny_storage" "parquet_codec tiny_storage snd" "libraries_accept tiny_storage tiny_example"
proof -
  show "file_laws tiny_storage" by (auto simp: file_laws_def tiny_storage_def)
  have "\<exists>out. map (\<lambda>x. Inr ([], [x])) c = map Inr out \<and> concat (map snd out) = c" for c :: bytes
    by (intro exI [of _ "map (\<lambda>x. ([], [x])) c"]) (simp add: comp_def)
  then show "parquet_codec tiny_storage snd"
    by (auto simp: parquet_codec_def tiny_written) (auto simp: tiny_storage_def)
  show "libraries_accept tiny_storage tiny_example" by (auto simp: libraries_accept_def tiny_storage_def tiny_example_def)
qed

theorem write_formats_reads_back_witness:
  "\<exists>s bs. write_formats_main tiny_storage tiny_example ([], []) = (Inr (), (s, example_output (length bs)))
    \<and> parquet_read_stream tiny_storage parquet_path (parquet_read_options_default tiny_storage) s = Inr (map Inr bs)
    \<and> concat (map snd bs) = [1, 2, 3]"
proof -
  note main = write_formats_reads_back [OF tiny_laws(1,2), of tiny_example "[]"]
  have "fst (write_formats_main tiny_storage tiny_example ([], [])) = Inr ()" using main tiny_laws(3) by blast
  then obtain s out where run: "write_formats_main tiny_storage tiny_example ([], []) = (Inr (), (s, out))"
    by (metis prod.collapse)
  have "rb_try_new tiny_example table_schema table_arrays = Inr (table_schema, [1, 2, 3])"
    by (simp add: tiny_example_def table_arrays_def)
  with main [of s out] run show ?thesis by fastforce
qed

end
