(* ===== verification/Conformance.thy ===== *)
theory Conformance
  imports Client Examples WriteFormats
begin

text \<open>
  Unit tests of \<open>catalog/data_type.rs\<close>, \<open>limits.rs\<close>, \<open>mod.rs\<close> and of the storage formats, evaluated on
  the model: each test is a definition with the calls and assertions of the source, and the
  lemmas say that all of them pass. An \<open>expect\<close> that would panic makes the test false, and an
  assertion on an error text is one on the constructor that stands for the text. The tests of
  the limits with thousands of rows, whose bounds are proved in general in
  \<open>EventLog\<close>, \<open>Stored\<close> and \<open>Progress\<close>, and those of the format libraries alone are left out.
\<close>

section \<open>Column type codec\<close>

definition roundtrip :: "libs \<Rightarrow> data_type \<Rightarrow> bool" where
  "roundtrip lib data_type =
     (case encode_data_type (lib_schema_to_fb lib) data_type of
        Inl _ \<Rightarrow> False
      | Inr encoded \<Rightarrow>
          (case decode_data_type (lib_root_as_schema lib) encoded of
             Inl _ \<Rightarrow> False
           | Inr decoded \<Rightarrow> data_type = decoded))"

definition test_primitive_types :: "libs \<Rightarrow> bool" where
  "test_primitive_types lib \<longleftrightarrow> list_all (roundtrip lib)
     [Boolean, Int8, Int16, Int32, Int64, UInt8, UInt16, UInt32, UInt64, Float32, Float64]"

definition test_string_types :: "libs \<Rightarrow> bool" where
  "test_string_types lib \<longleftrightarrow> list_all (roundtrip lib) [Utf8, LargeUtf8, Binary, LargeBinary, FixedSizeBinary 16]"

definition test_temporal_types :: "libs \<Rightarrow> bool" where
  "test_temporal_types lib \<longleftrightarrow> list_all (roundtrip lib)
     [Date32, Date64, Time32 Second, Time32 Millisecond, Time64 Microsecond, Time64 Nanosecond,
      Duration Second, Duration Millisecond, Duration Microsecond, Duration Nanosecond]"

definition test_timestamp_types :: "libs \<Rightarrow> bool" where
  "test_timestamp_types lib \<longleftrightarrow> list_all (roundtrip lib)
     [Timestamp Second None, Timestamp Millisecond None, Timestamp Microsecond None, Timestamp Nanosecond None,
      Timestamp Microsecond (Some ''UTC''), Timestamp Microsecond (Some ''America/New_York''),
      Timestamp Nanosecond (Some ''+00:00'')]"

definition test_decimal_types :: "libs \<Rightarrow> bool" where
  "test_decimal_types lib \<longleftrightarrow> list_all (roundtrip lib) [Decimal128 10 2, Decimal128 38 10, Decimal256 76 20]"

definition test_list_types :: "libs \<Rightarrow> bool" where
  "test_list_types lib \<longleftrightarrow> list_all (roundtrip lib)
     [ListType (Field ''item'' Int32 True), LargeList (Field ''item'' Utf8 False),
      FixedSizeList (Field ''item'' Float64 True) 5]"

definition test_struct_type :: "libs \<Rightarrow> bool" where
  "test_struct_type lib \<longleftrightarrow> roundtrip lib (Struct [Field ''id'' Int64 False, Field ''name'' Utf8 True,
     Field ''created_at'' (Timestamp Microsecond (Some ''UTC'')) False])"

definition test_nested_types :: "libs \<Rightarrow> bool" where
  "test_nested_types lib \<longleftrightarrow>
     (let struct_type = Struct [Field ''x'' Float64 False, Field ''y'' Float64 False] in
      roundtrip lib (ListType (Field ''point'' struct_type True)))
   \<and> (let list_type = ListType (Field ''item'' Int32 True) in
      roundtrip lib (Struct [Field ''id'' Int64 False, Field ''values'' list_type True]))"

definition is_arrow_error :: "catalog_error + 'a \<Rightarrow> bool" where
  "is_arrow_error r \<longleftrightarrow> (case r of Inl (Arrow _) \<Rightarrow> True | _ \<Rightarrow> False)"

definition test_decode_empty_bytes :: "libs \<Rightarrow> bool" where
  "test_decode_empty_bytes lib \<longleftrightarrow> is_arrow_error (decode_data_type (lib_root_as_schema lib) [])"

definition test_decode_invalid_bytes :: "libs \<Rightarrow> bool" where
  "test_decode_invalid_bytes lib \<longleftrightarrow>
     (let garbage = [0xFF, 0xFF, 0xFF, 0xFF, 0x00, 0x00] in
      is_arrow_error (decode_data_type (lib_root_as_schema lib) garbage))"

text \<open>The round trips pass for every codec that decodes what it encoded, the decoding failures
  for every codec that refuses the bytes; how long an encoding is, is up to the library.\<close>

lemma roundtrip_codec:
  assumes "\<And>t. lib_root_as_schema lib (lib_schema_to_fb lib [Field ''_'' t True]) = Inr [Field ''_'' t True]"
  shows "roundtrip lib t"
  by (simp add: roundtrip_def encode_data_type_def decode_data_type_def assms)

lemma codec_tests_pass:
  assumes "\<And>t. lib_root_as_schema lib (lib_schema_to_fb lib [Field ''_'' t True]) = Inr [Field ''_'' t True]"
  shows "test_primitive_types lib \<and> test_string_types lib \<and> test_temporal_types lib \<and> test_timestamp_types lib
    \<and> test_decimal_types lib \<and> test_list_types lib \<and> test_struct_type lib \<and> test_nested_types lib"
  by (simp add: roundtrip_codec [OF assms] test_primitive_types_def test_string_types_def test_temporal_types_def
      test_timestamp_types_def test_decimal_types_def test_list_types_def test_struct_type_def test_nested_types_def)

lemma decode_tests_pass:
  assumes "\<And>bs. bs \<in> {[], [0xFF, 0xFF, 0xFF, 0xFF, 0x00, 0x00]} \<Longrightarrow> isl (lib_root_as_schema lib bs)"
  shows "test_decode_empty_bytes lib \<and> test_decode_invalid_bytes lib"
  using assms [of "[]"] assms [of "[0xFF, 0xFF, 0xFF, 0xFF, 0x00, 0x00]"]
  by (auto simp: test_decode_empty_bytes_def test_decode_invalid_bytes_def is_arrow_error_def decode_data_type_def isl_def)

section \<open>Type evolution\<close>

definition test_same_type_allowed :: bool where
  "test_same_type_allowed \<longleftrightarrow>
     can_evolve_to Int32 Int32
   \<and> can_evolve_to Utf8 Utf8
   \<and> can_evolve_to (Timestamp Microsecond (Some ''UTC'')) (Timestamp Microsecond (Some ''UTC''))"

definition test_signed_integer_widening_safe :: bool where
  "test_signed_integer_widening_safe \<longleftrightarrow>
     can_evolve_to Int8 Int16
   \<and> can_evolve_to Int8 Int32
   \<and> can_evolve_to Int8 Int64
   \<and> can_evolve_to Int16 Int32
   \<and> can_evolve_to Int16 Int64
   \<and> can_evolve_to Int32 Int64"

definition test_signed_integer_narrowing_unsafe :: bool where
  "test_signed_integer_narrowing_unsafe \<longleftrightarrow>
     \<not> can_evolve_to Int64 Int32
   \<and> \<not> can_evolve_to Int64 Int16
   \<and> \<not> can_evolve_to Int64 Int8
   \<and> \<not> can_evolve_to Int32 Int16
   \<and> \<not> can_evolve_to Int32 Int8
   \<and> \<not> can_evolve_to Int16 Int8"

definition test_unsigned_integer_widening_safe :: bool where
  "test_unsigned_integer_widening_safe \<longleftrightarrow>
     can_evolve_to UInt8 UInt16
   \<and> can_evolve_to UInt8 UInt32
   \<and> can_evolve_to UInt8 UInt64
   \<and> can_evolve_to UInt16 UInt32
   \<and> can_evolve_to UInt16 UInt64
   \<and> can_evolve_to UInt32 UInt64"

definition test_unsigned_integer_narrowing_unsafe :: bool where
  "test_unsigned_integer_narrowing_unsafe \<longleftrightarrow>
     \<not> can_evolve_to UInt64 UInt32
   \<and> \<not> can_evolve_to UInt64 UInt16
   \<and> \<not> can_evolve_to UInt64 UInt8
   \<and> \<not> can_evolve_to UInt32 UInt16
   \<and> \<not> can_evolve_to UInt32 UInt8
   \<and> \<not> can_evolve_to UInt16 UInt8"

definition test_mixed_signedness_unsafe :: bool where
  "test_mixed_signedness_unsafe \<longleftrightarrow>
     \<not> can_evolve_to Int32 UInt32
   \<and> \<not> can_evolve_to Int64 UInt64
   \<and> \<not> can_evolve_to UInt32 Int32
   \<and> \<not> can_evolve_to UInt64 Int64"

definition test_float_widening_safe :: bool where
  "test_float_widening_safe \<longleftrightarrow>
     can_evolve_to Float32 Float64"

definition test_float_narrowing_unsafe :: bool where
  "test_float_narrowing_unsafe \<longleftrightarrow>
     \<not> can_evolve_to Float64 Float32"

definition test_integer_to_float_unsafe :: bool where
  "test_integer_to_float_unsafe \<longleftrightarrow>
     \<not> can_evolve_to Int32 Float32
   \<and> \<not> can_evolve_to Int64 Float64
   \<and> \<not> can_evolve_to Float32 Int32"

definition test_date_widening_safe :: bool where
  "test_date_widening_safe \<longleftrightarrow>
     can_evolve_to Date32 Date64"

definition test_date_narrowing_unsafe :: bool where
  "test_date_narrowing_unsafe \<longleftrightarrow>
     \<not> can_evolve_to Date64 Date32"

definition test_timestamp_precision_increase_safe :: bool where
  "test_timestamp_precision_increase_safe \<longleftrightarrow>
     can_evolve_to (Timestamp Second (Some ''UTC'')) (Timestamp Millisecond (Some ''UTC''))
   \<and> can_evolve_to (Timestamp Second (Some ''UTC'')) (Timestamp Microsecond (Some ''UTC''))
   \<and> can_evolve_to (Timestamp Second (Some ''UTC'')) (Timestamp Nanosecond (Some ''UTC''))
   \<and> can_evolve_to (Timestamp Millisecond (Some ''UTC'')) (Timestamp Microsecond (Some ''UTC''))
   \<and> can_evolve_to (Timestamp Millisecond (Some ''UTC'')) (Timestamp Nanosecond (Some ''UTC''))
   \<and> can_evolve_to (Timestamp Microsecond (Some ''UTC'')) (Timestamp Nanosecond (Some ''UTC''))"

definition test_timestamp_precision_decrease_unsafe :: bool where
  "test_timestamp_precision_decrease_unsafe \<longleftrightarrow>
     \<not> can_evolve_to (Timestamp Nanosecond (Some ''UTC'')) (Timestamp Microsecond (Some ''UTC''))
   \<and> \<not> can_evolve_to (Timestamp Nanosecond (Some ''UTC'')) (Timestamp Millisecond (Some ''UTC''))
   \<and> \<not> can_evolve_to (Timestamp Nanosecond (Some ''UTC'')) (Timestamp Second (Some ''UTC''))
   \<and> \<not> can_evolve_to (Timestamp Microsecond (Some ''UTC'')) (Timestamp Millisecond (Some ''UTC''))
   \<and> \<not> can_evolve_to (Timestamp Microsecond (Some ''UTC'')) (Timestamp Second (Some ''UTC''))
   \<and> \<not> can_evolve_to (Timestamp Millisecond (Some ''UTC'')) (Timestamp Second (Some ''UTC''))"

definition test_timestamp_timezone_change_unsafe :: bool where
  "test_timestamp_timezone_change_unsafe \<longleftrightarrow>
     \<not> can_evolve_to (Timestamp Microsecond (Some ''UTC'')) (Timestamp Microsecond (Some ''America/New_York''))
   \<and> \<not> can_evolve_to (Timestamp Microsecond None) (Timestamp Microsecond (Some ''UTC''))
   \<and> \<not> can_evolve_to (Timestamp Microsecond (Some ''UTC'')) (Timestamp Microsecond None)"

definition test_timestamp_without_timezone :: bool where
  "test_timestamp_without_timezone \<longleftrightarrow>
     can_evolve_to (Timestamp Second None) (Timestamp Millisecond None)"

definition test_decimal_precision_increase_safe :: bool where
  "test_decimal_precision_increase_safe \<longleftrightarrow>
     can_evolve_to (Decimal128 10 2) (Decimal128 20 2)
   \<and> can_evolve_to (Decimal128 10 5) (Decimal128 38 5)
   \<and> can_evolve_to (Decimal256 40 2) (Decimal256 60 2)"

definition test_decimal_precision_decrease_unsafe :: bool where
  "test_decimal_precision_decrease_unsafe \<longleftrightarrow>
     \<not> can_evolve_to (Decimal128 20 2) (Decimal128 10 2)"

definition test_decimal_scale_change_unsafe :: bool where
  "test_decimal_scale_change_unsafe \<longleftrightarrow>
     \<not> can_evolve_to (Decimal128 10 2) (Decimal128 10 3)
   \<and> \<not> can_evolve_to (Decimal128 10 3) (Decimal128 10 2)
   \<and> \<not> can_evolve_to (Decimal128 10 2) (Decimal128 20 3)"

definition test_decimal128_to_decimal256_unsafe :: bool where
  "test_decimal128_to_decimal256_unsafe \<longleftrightarrow>
     \<not> can_evolve_to (Decimal128 10 2) (Decimal256 10 2)
   \<and> \<not> can_evolve_to (Decimal256 10 2) (Decimal128 10 2)"

definition test_string_types_no_evolution :: bool where
  "test_string_types_no_evolution \<longleftrightarrow>
     \<not> can_evolve_to Utf8 LargeUtf8
   \<and> \<not> can_evolve_to LargeUtf8 Utf8
   \<and> \<not> can_evolve_to Binary LargeBinary
   \<and> \<not> can_evolve_to LargeBinary Binary"

definition test_incompatible_types :: bool where
  "test_incompatible_types \<longleftrightarrow>
     \<not> can_evolve_to Utf8 Int32
   \<and> \<not> can_evolve_to Utf8 Float64
   \<and> \<not> can_evolve_to Int64 Utf8
   \<and> \<not> can_evolve_to Boolean Int32
   \<and> \<not> can_evolve_to Int32 Boolean
   \<and> \<not> can_evolve_to Date32 (Timestamp Millisecond None)
   \<and> \<not> can_evolve_to Date64 (Timestamp Millisecond None)
   \<and> \<not> can_evolve_to (Timestamp Millisecond None) Date64"

definition test_complex_types_no_evolution :: bool where
  "test_complex_types_no_evolution \<longleftrightarrow>
     \<not> can_evolve_to (ListType (Field ''item'' Int32 True)) (ListType (Field ''item'' Int64 True))
   \<and> \<not> can_evolve_to (Struct [Field ''id'' Int32 False]) (Struct [Field ''id'' Int64 False])"

lemma evolution_tests_pass:
  "test_same_type_allowed \<and> test_signed_integer_widening_safe \<and> test_signed_integer_narrowing_unsafe
   \<and> test_unsigned_integer_widening_safe \<and> test_unsigned_integer_narrowing_unsafe \<and> test_mixed_signedness_unsafe
   \<and> test_float_widening_safe \<and> test_float_narrowing_unsafe \<and> test_integer_to_float_unsafe
   \<and> test_date_widening_safe \<and> test_date_narrowing_unsafe \<and> test_timestamp_precision_increase_safe
   \<and> test_timestamp_precision_decrease_unsafe \<and> test_timestamp_timezone_change_unsafe \<and> test_timestamp_without_timezone
   \<and> test_decimal_precision_increase_safe \<and> test_decimal_precision_decrease_unsafe \<and> test_decimal_scale_change_unsafe
   \<and> test_decimal128_to_decimal256_unsafe \<and> test_string_types_no_evolution \<and> test_incompatible_types
   \<and> test_complex_types_no_evolution"
  by code_simp

section \<open>Limits\<close>

definition limits_are_reasonable :: bool where
  "limits_are_reasonable \<longleftrightarrow> MAX_FILES_PER_APPEND \<le> MAX_FILES_PER_QUERY \<and> MAX_FILES_PER_DELETE \<le> MAX_FILES_PER_QUERY
     \<and> MAX_OPERATIONS_PER_MUTATION \<ge> MAX_FILES_PER_APPEND \<and> MAX_JSON_SIZE_BYTES \<le> 10485760
     \<and> MAX_SCHEMA_CHANGES_PER_SCAN \<le> MAX_TRANSACTIONS_PER_SCAN"

definition batch_insert_columns_chunk_is_db_specific_and_clamped :: bool where
  "batch_insert_columns_chunk_is_db_specific_and_clamped \<longleftrightarrow>
     batch_insert_columns_chunk Sqlite = 1000 \<and> batch_insert_columns_chunk Postgres = 1000"

definition column_insert_shape_is_locked_to_six_binds :: bool where
  "column_insert_shape_is_locked_to_six_binds \<longleftrightarrow> column_insert_bind_count 1 = 6"

definition file_insert_shape_is_locked_to_nine_binds :: bool where
  "file_insert_shape_is_locked_to_nine_binds \<longleftrightarrow> file_insert_bind_count 1 = 9"

definition delete_files_shape_is_locked_to_two_fixed_params :: bool where
  "delete_files_shape_is_locked_to_two_fixed_params \<longleftrightarrow> delete_files_bind_count 0 = 2"

lemma limits_tests_pass:
  "limits_are_reasonable \<and> batch_insert_columns_chunk_is_db_specific_and_clamped
   \<and> column_insert_shape_is_locked_to_six_binds \<and> file_insert_shape_is_locked_to_nine_binds
   \<and> delete_files_shape_is_locked_to_two_fixed_params"
  by code_simp

section \<open>Validators\<close>

abbreviation id_column :: column_spec where
  "id_column \<equiv> column_spec_new ''id'' Int64"

definition schema_spec_validate_rejects_duplicate_column_names :: bool where
  "schema_spec_validate_rejects_duplicate_column_names \<longleftrightarrow>
     (let schema = with_column (with_column schema_spec_new id_column) id_column in
      case schema_spec_validate schema of Inl (InvalidArgument (Inl (DuplicateColumnName _))) \<Rightarrow> True | _ \<Rightarrow> False)"

definition schema_spec_validate_rejects_empty_column_name :: bool where
  "schema_spec_validate_rejects_empty_column_name \<longleftrightarrow>
     (let schema = with_column schema_spec_new (column_spec_new ''   '' Int64) in
      schema_spec_validate schema = Inl (InvalidSpec ColumnNameEmpty))"

definition schema_spec_validate_accepts_valid_schema :: bool where
  "schema_spec_validate_accepts_valid_schema \<longleftrightarrow>
     (let schema = with_column (with_column schema_spec_new id_column) (column_spec_nullable (column_spec_new ''value'' Utf8)) in
      schema_spec_validate schema = Inr ())"

abbreviation part_file :: file_spec where
  "part_file \<equiv> file_spec_new Parquet ''/tmp/part-0.parquet'' 1 1"

definition file_spec_validate_rejects_non_object_partition_values :: "format_lib \<Rightarrow> bool" where
  "file_spec_validate_rejects_non_object_partition_values fl \<longleftrightarrow>
     (let file = with_partition_values part_file (JArray [JString ''not-object'']) in
      file_spec_validate fl file = Inl (InvalidSpec PartitionValuesNotObject))"

definition file_spec_validate_rejects_non_object_format_options :: "format_lib \<Rightarrow> bool" where
  "file_spec_validate_rejects_non_object_format_options fl \<longleftrightarrow>
     (let file = with_format_options part_file (JArray [JString ''not-object'']) in
      file_spec_validate fl file = Inl (InvalidSpec FormatOptionsNotObject))"

definition file_spec_validate_accepts_valid_payload :: "format_lib \<Rightarrow> bool" where
  "file_spec_validate_accepts_valid_payload fl \<longleftrightarrow>
     (let file = with_format_options (with_partition_values part_file (JObject [(''date'', JString ''2026-02-12'')]))
                   (JObject [(''compression'', JString ''zstd'')]) in
      file_spec_validate fl file = Inr ())"

definition property_key_rejects_empty_value :: bool where
  "property_key_rejects_empty_value \<longleftrightarrow> property_key_new ''   '' = Inl (InvalidSpec PropertyKeyEmpty)"

definition property_key_accepts_non_empty_value :: bool where
  "property_key_accepts_non_empty_value \<longleftrightarrow>
     (case property_key_new ''owner'' of Inl _ \<Rightarrow> False | Inr key \<Rightarrow> property_key_as_str key = ''owner'')"

definition mutation_validate_rejects_duplicate_file_deletes :: "uuid \<Rightarrow> bool" where
  "mutation_validate_rejects_duplicate_file_deletes file_uuid \<longleftrightarrow>
     (let mutation = \<lparr>mu_operations = [DeleteFiles [file_uuid, file_uuid]]\<rparr> in
      case mutation_validate mutation of Inl (InvalidArgument (Inl (DuplicateFileUuid _))) \<Rightarrow> True | _ \<Rightarrow> False)"

definition mutation_validate_rejects_duplicate_property_keys :: bool where
  "mutation_validate_rejects_duplicate_property_keys \<longleftrightarrow>
     (case (property_key_new ''owner'', property_key_new ''owner'') of
        (Inr key1, Inr key2) \<Rightarrow>
          (let mutation = \<lparr>mu_operations = [RemoveProperties [key1, key2]]\<rparr> in
           case mutation_validate mutation of Inl (InvalidArgument (Inl (DuplicatePropertyKey _))) \<Rightarrow> True | _ \<Rightarrow> False)
      | _ \<Rightarrow> False)"

definition mutation_validate_rejects_multiple_schema_updates :: bool where
  "mutation_validate_rejects_multiple_schema_updates \<longleftrightarrow>
     (let s1 = with_column schema_spec_new id_column; s2 = with_column schema_spec_new id_column;
          mutation = \<lparr>mu_operations = [UpdateSchema s1, UpdateSchema s2]\<rparr> in
      mutation_validate mutation = Inl (InvalidSpec MultipleUpdateSchema))"

lemma validator_tests_pass:
  "schema_spec_validate_rejects_duplicate_column_names \<and> schema_spec_validate_rejects_empty_column_name
   \<and> schema_spec_validate_accepts_valid_schema
   \<and> file_spec_validate_rejects_non_object_partition_values fl
   \<and> file_spec_validate_rejects_non_object_format_options fl \<and> file_spec_validate_accepts_valid_payload fl
   \<and> property_key_rejects_empty_value \<and> property_key_accepts_non_empty_value
   \<and> mutation_validate_rejects_duplicate_file_deletes u \<and> mutation_validate_rejects_duplicate_property_keys
   \<and> mutation_validate_rejects_multiple_schema_updates"
  by (intro conjI) code_simp+

section \<open>Catalog\<close>

text \<open>The tests open an in-memory catalog, which starts with no rows (theory \<open>Setup\<close>). Rows written by
  the SQL text of a test go through the same statements as those of the catalog; the test is
  false where one of them fails.\<close>

definition test_ident :: table_ident where
  "test_ident = table_ident_new ''test_ns'' ''test_table''"

definition create_sqlite_catalog_with_table ::
  "libs \<Rightarrow> draws \<Rightarrow> (sql_catalog \<Rightarrow> table_ident \<Rightarrow> table_view \<Rightarrow> db \<Rightarrow> bool) \<Rightarrow> bool" where
  "create_sqlite_catalog_with_table lib dr test =
     (let catalog = catalog_new Sqlite lib in
      case create_table catalog dr test_ident ''memory://test'' (with_column schema_spec_new id_column) None empty_db of
        (Inl _, _) \<Rightarrow> False
      | (Inr _, d) \<Rightarrow>
          (case read_table catalog test_ident None d of
             Inl _ \<Rightarrow> False
           | Inr view \<Rightarrow> test catalog test_ident view d))"

definition update_current_transaction :: "txn_id \<Rightarrow> uuid \<Rightarrow> db \<Rightarrow> db" where
  "update_current_transaction transaction_id table_uuid d =
     d\<lparr>db_tables := map (\<lambda>r. if t_table_uuid r = table_uuid then r\<lparr>t_current_transaction_id := Some transaction_id\<rparr> else r)
         (db_tables d)\<rparr>"

text \<open>The set-up the two parent-chain tests share: two transactions on top of the base, the
  second with the first as its parent, and the head at the second.\<close>

definition two_transactions :: "timestamp \<Rightarrow> uuid \<Rightarrow> txn_id \<Rightarrow> txn_id \<Rightarrow> txn_id \<Rightarrow> db \<Rightarrow> sqlx_error + db" where
  "two_transactions now table_uuid base tx1 tx2 d =
     rbind (insert_txn \<lparr>x_transaction_id = tx1, x_table_uuid = table_uuid, x_transaction_timestamp = now,
              x_parent_transaction_id = Some base\<rparr> d) (\<lambda>d.
     rbind (insert_txn \<lparr>x_transaction_id = tx2, x_table_uuid = table_uuid, x_transaction_timestamp = now,
              x_parent_transaction_id = Some tx1\<rparr> d) (\<lambda>d.
       Inr (update_current_transaction tx2 table_uuid d)))"

definition list_transaction_events_uses_parent_chain_not_uuid_order :: "libs \<Rightarrow> draws \<Rightarrow> timestamp \<Rightarrow> bool" where
  "list_transaction_events_uses_parent_chain_not_uuid_order lib dr now =
     create_sqlite_catalog_with_table lib dr (\<lambda>catalog ident table_view d.
       let base_transaction_id = tv_transaction_id table_view; tx1 = 2; tx2 = 1 in
       case two_transactions now (tv_table_uuid table_view) base_transaction_id tx1 tx2 d of
         Inl _ \<Rightarrow> False
       | Inr d \<Rightarrow>
           (case list_transaction_events catalog ident
                   \<lparr>rc_from_exclusive = Some base_transaction_id, rc_to_inclusive = tx2\<rparr> d of
              Inl _ \<Rightarrow> False
            | Inr events \<Rightarrow> map ev_transaction_id events = [tx1, tx2]))"

definition read_table_uses_parent_chain_not_uuid_order :: "libs \<Rightarrow> draws \<Rightarrow> timestamp \<Rightarrow> bool" where
  "read_table_uses_parent_chain_not_uuid_order lib dr now =
     create_sqlite_catalog_with_table lib dr (\<lambda>catalog ident table_view d.
       let base = tv_transaction_id table_view; tx1 = base + 2; tx2 = base + 1 in
       base < tx1 \<and> base < tx2 \<and>
       (case two_transactions now (tv_table_uuid table_view) base tx1 tx2 d of
          Inl _ \<Rightarrow> False
        | Inr d \<Rightarrow>
            (case read_table catalog ident (Some tx1) d of
               Inl _ \<Rightarrow> False
             | Inr view \<Rightarrow> tv_transaction_id view = tx1)))"

definition schema_update_rejects_implicit_column_drop :: "libs \<Rightarrow> draws \<Rightarrow> draws \<Rightarrow> draws \<Rightarrow> bool" where
  "schema_update_rejects_implicit_column_drop lib dr0 dr1 dr2 =
     create_sqlite_catalog_with_table lib dr0 (\<lambda>catalog ident table_view d.
       let handle = handle_new catalog ident; base_txn = tv_transaction_id table_view in
       case handle_write handle (Some base_txn) d of
         Inl _ \<Rightarrow> False
       | Inr create_builder \<Rightarrow>
           (case builder_commit dr1 (builder_update_schema
                   (with_column (with_column schema_spec_new id_column) (column_spec_nullable (column_spec_new ''value'' Utf8)))
                   create_builder) d of
              (Inl _, _) \<Rightarrow> False
            | (Inr _, d) \<Rightarrow>
                (case handle_current_transaction_id handle d of
                   Inl _ \<Rightarrow> False
                 | Inr current_txn \<Rightarrow>
                     (case handle_write handle (Some current_txn) d of
                        Inl _ \<Rightarrow> False
                      | Inr drop_builder \<Rightarrow>
                          fst (builder_commit dr2 (builder_update_schema (with_column schema_spec_new id_column) drop_builder) d)
                            = Inl (InvalidState (CannotDropColumn ''value''))))))"

definition test_libs :: libs where
  "test_libs = demo_libs\<lparr>
     lib_schema_to_fb := (\<lambda>fs. if fs = [Field ''_'' Int64 True] then [1] else if fs = [Field ''_'' Utf8 True] then [2] else []),
     lib_root_as_schema := (\<lambda>bs. if bs = [1] then Inr [Field ''_'' Int64 True]
                              else if bs = [2] then Inr [Field ''_'' Utf8 True] else Inl ''bad'')\<rparr>"

lemma catalog_tests_pass:
  "list_transaction_events_uses_parent_chain_not_uuid_order test_libs (demo_draws 10) 0"
  "read_table_uses_parent_chain_not_uuid_order test_libs (demo_draws 10) 0"
  "schema_update_rejects_implicit_column_drop test_libs (demo_draws 10) (demo_draws 20) (demo_draws 30)"
  by code_simp+

section \<open>Stream writers\<close>

abbreviation boom :: storage_error where
  "boom \<equiv> Unsupported (ExternalMsg ''boom'')"

definition parquet_write_stream_propagates_stream_error ::
  "('b, 'o, 'k, 'w, 'ds, 'sc, 'a, 'dt, 's) storage_lib \<Rightarrow> path \<Rightarrow> 's \<Rightarrow> bool" where
  "parquet_write_stream_propagates_stream_error lib path s \<longleftrightarrow>
     fst (parquet_write_stream lib [Inl boom] path writer_properties_default s) = Inl boom"

definition parquet_write_stream_schema_mismatch_is_error ::
  "('b, 'o, 'k, 'w, 'ds, 'sc, 'a, 'dt, 's) storage_lib \<Rightarrow> ('b, 's) example_lib \<Rightarrow> path \<Rightarrow> 's \<Rightarrow> bool" where
  "parquet_write_stream_schema_mismatch_is_error lib ex path s \<longleftrightarrow>
     (let schema_a = [Field ''id'' Int64 False]; schema_b = [Field ''id'' Utf8 False] in
      case (rb_try_new ex schema_a [Int64Array [1, 2, 3]], rb_try_new ex schema_b [StringArray [''a'', ''b'', ''c'']]) of
        (Inr batch_a, Inr batch_b) \<Rightarrow>
          (case fst (parquet_write_stream lib [Inr batch_a, Inr batch_b] path writer_properties_default s) of
             Inl (Unsupported (SchemaMismatch _ _)) \<Rightarrow> True
           | _ \<Rightarrow> False)
      | _ \<Rightarrow> False)"

definition lance_write_stream_empty_is_error ::
  "('b, 'o, 'k, 'w, 'ds, 'sc, 'a, 'dt, 's) storage_lib \<Rightarrow> path \<Rightarrow> 's \<Rightarrow> bool" where
  "lance_write_stream_empty_is_error lib path s \<longleftrightarrow>
     fst (lance_write_stream lib [] path write_params_default s) = Inl (InvalidInput StreamEmpty)"

definition lance_write_stream_propagates_stream_error ::
  "('b, 'o, 'k, 'w, 'ds, 'sc, 'a, 'dt, 's) storage_lib \<Rightarrow> path \<Rightarrow> 's \<Rightarrow> bool" where
  "lance_write_stream_propagates_stream_error lib path s \<longleftrightarrow>
     fst (lance_write_stream lib [Inl boom] path write_params_default s) = Inl boom"

definition vortex_write_stream_empty_is_error ::
  "('b, 'o, 'k, 'w, 'ds, 'sc, 'a, 'dt, 's) storage_lib \<Rightarrow> path \<Rightarrow> 's \<Rightarrow> bool" where
  "vortex_write_stream_empty_is_error lib path s \<longleftrightarrow>
     fst (vortex_write_stream lib [] path vortex_write_options_default s) = Inl (InvalidInput StreamEmpty)"

definition vortex_write_stream_propagates_stream_error ::
  "('b, 'o, 'k, 'w, 'ds, 'sc, 'a, 'dt, 's) storage_lib \<Rightarrow> path \<Rightarrow> 's \<Rightarrow> bool" where
  "vortex_write_stream_propagates_stream_error lib path s \<longleftrightarrow>
     fst (vortex_write_stream lib [Inl boom] path vortex_write_options_default s) = Inl boom"

text \<open>They pass for every library, as long as the file can be created, the path is a text, and for
  the mismatch the batches carry the schemas they were made with and the writer takes the first.\<close>

lemma stream_tests_pass:
  assumes "fl_create lib path s = Inr s1" and "utf8_valid path"
  shows "parquet_write_stream_propagates_stream_error lib path s \<and> lance_write_stream_empty_is_error lib path s
    \<and> lance_write_stream_propagates_stream_error lib path s \<and> vortex_write_stream_empty_is_error lib path s
    \<and> vortex_write_stream_propagates_stream_error lib path s"
  using assms
  by (simp add: parquet_write_stream_propagates_stream_error_def lance_write_stream_empty_is_error_def
      lance_write_stream_propagates_stream_error_def vortex_write_stream_empty_is_error_def
      vortex_write_stream_propagates_stream_error_def parquet_write_stream_def lance_write_stream_def
      vortex_write_stream_def path_to_utf8_def)

lemma mismatch_test_passes:
  assumes "fl_create lib path s = Inr s1"
    and "\<And>schema arrays. \<exists>b. rb_try_new ex schema arrays = Inr b \<and> ar_schema lib b = schema"
    and "\<And>schema options. \<not> isl (pq_try_new lib schema options)" and "\<And>b w. fst (pq_write lib b w) = Inr ()"
  shows "parquet_write_stream_schema_mismatch_is_error lib ex path s"
proof -
  obtain a where a: "rb_try_new ex [Field ''id'' Int64 False] [Int64Array [1, 2, 3]] = Inr a"
    "ar_schema lib a = [Field ''id'' Int64 False]" using assms(2) by blast
  obtain b where b: "rb_try_new ex [Field ''id'' Utf8 False] [StringArray [''a'', ''b'', ''c'']] = Inr b"
    "ar_schema lib b = [Field ''id'' Utf8 False]" using assms(2) by blast
  obtain w where "pq_try_new lib (ar_schema lib a) writer_properties_default = Inr w"
    using assms(3) by (metis isl_def sum.exhaust)
  moreover obtain w' where "pq_write lib a w = (Inr (), w')" using assms(4) [of a w] by (metis prod.collapse)
  ultimately show ?thesis using assms(1) a b
    by (simp add: parquet_write_stream_schema_mismatch_is_error_def parquet_write_stream_def parquet_with_writer_def)
qed

end
